(* ===== verification/Doip_Prelude.thy ===== *)
theory Doip_Prelude
  imports Main "HOL-Library.Word" "HOL-Library.Signed_Division"
begin

text \<open>
  Shared vocabulary of the development: the outcomes of C++ code, arrays whose cells may never
  have been written, programs that pass a state along and may stop with an error, the
  Hoare-style rules for them, generic reachability, and byte/word arithmetic.

  \<^item> A fallible computation has type \<open>'a result\<close>: \<open>Inl e\<close> is an exception or undefined
    behaviour, named by \<open>cpp_error\<close>; \<open>Inr x\<close> is a normal return.
  \<^item> An array of bytes is a \<open>buffer\<close>, a list of cells; a cell \<open>None\<close> is allocated and not yet
    written. Reading such a cell's value is an error, copying the cell is not (as for
    \<open>unsigned char\<close> in C++).
  \<^item> A pointer that may be null or wild is a \<open>ptr\<close>: \<open>None\<close> is a pointer that must not be
    dereferenced.
  \<^item> A method is a \<open>('s, 'a) prog\<close>: it takes the state and returns the value and the new state.
\<close>

unbundle bit_operations_syntax

section \<open>Types\<close>

type_synonym byte = "8 word"
type_synonym u16 = "16 word"
type_synonym u32 = "32 word"
type_synonym u64 = "64 word"

type_synonym buffer = "byte option list"
type_synonym ptr = "buffer option"

datatype cpp_error =
    OutOfBounds            \<comment> \<open>access outside an allocated array\<close>
  | Indeterminate          \<comment> \<open>the value of an object that was never written is used\<close>
  | BadPointer             \<comment> \<open>a null or uninitialised pointer is dereferenced\<close>
  | UseAfterFree           \<comment> \<open>an object is used after it was released\<close>
  | SignedOverflow         \<comment> \<open>\<open>int\<close> arithmetic outside its range\<close>
  | BadFunctionCall        \<comment> \<open>an empty \<open>std::function\<close> is called\<close>
  | BadAlloc               \<comment> \<open>\<open>new\<close> throws \<open>std::bad_alloc\<close>\<close>
  | Terminate              \<comment> \<open>\<open>std::terminate\<close>: a joinable \<open>std::thread\<close> is destroyed, or an exception leaves
                                  a thread\<close>
  | RuntimeError string    \<comment> \<open>\<open>std::runtime_error\<close> with its message\<close>
  | ExitFailure            \<comment> \<open>\<open>exit(EXIT_FAILURE)\<close> ends the process\<close>
  | EnvContract            \<comment> \<open>an external call answered outside its documented contract\<close>

type_synonym 'a result = "cpp_error + 'a"

type_synonym ('s, 'a) prog = "'s \<Rightarrow> ('a \<times> 's) result"

section \<open>Hint collections\<close>

named_theorems run_simps "equations that run programs and fallible computations"
named_theorems pres "rules: a program preserves a predicate on the state"
named_theorems wp "rules: weakest preconditions of programs"
named_theorems keep "rules: a program keeps a predicate and has only the errors of a set"

section \<open>Fallible computations\<close>

definition rbind :: "'a result \<Rightarrow> ('a \<Rightarrow> 'b result) \<Rightarrow> 'b result" where
  "rbind m f = (case m of Inl e \<Rightarrow> Inl e | Inr x \<Rightarrow> f x)"

lemma rbind_Inl [simp, run_simps]: "rbind (Inl e) f = Inl e"
  by (simp add: rbind_def)

lemma rbind_Inr [simp, run_simps]: "rbind (Inr x) f = f x"
  by (simp add: rbind_def)

lemma rbind_eq_Inr: "rbind m f = Inr y \<longleftrightarrow> (\<exists>x. m = Inr x \<and> f x = Inr y)"
  by (cases m) auto

lemma rbind_eq_Inl: "rbind m f = Inl e \<longleftrightarrow> m = Inl e \<or> (\<exists>x. m = Inr x \<and> f x = Inl e)"
  by (cases m) auto

definition determinate :: "'a option \<Rightarrow> 'a result" where
  "determinate v = (case v of None \<Rightarrow> Inl Indeterminate | Some x \<Rightarrow> Inr x)"

lemma determinate_simps [simp, run_simps]:
  "determinate None = Inl Indeterminate"
  "determinate (Some x) = Inr x"
  by (simp_all add: determinate_def)

section \<open>Arrays of bytes\<close>

definition cell :: "buffer \<Rightarrow> nat \<Rightarrow> byte option result" where
  "cell b i = (if i < length b then Inr (b ! i) else Inl OutOfBounds)"

definition rd :: "buffer \<Rightarrow> nat \<Rightarrow> byte result" where
  "rd b i = rbind (cell b i) determinate"

definition put :: "buffer \<Rightarrow> nat \<Rightarrow> byte option \<Rightarrow> buffer result" where
  "put b i c = (if i < length b then Inr (b[i := c]) else Inl OutOfBounds)"

fun writes :: "(nat \<times> byte) list \<Rightarrow> buffer \<Rightarrow> buffer result" where
  "writes [] b = Inr b"
| "writes ((i, v) # ws) b = rbind (put b i (Some v)) (writes ws)"

text \<open>\<open>copy_loop n dst di src si\<close>: \<open>for n steps: dst[di++] = src[si++]\<close>.\<close>

fun copy_loop :: "nat \<Rightarrow> buffer \<Rightarrow> nat \<Rightarrow> buffer \<Rightarrow> nat \<Rightarrow> buffer result" where
  "copy_loop 0 dst di src si = Inr dst"
| "copy_loop (Suc n) dst di src si =
     rbind (cell src si) (\<lambda>c.
     rbind (put dst di c) (\<lambda>dst'. copy_loop n dst' (Suc di) src (Suc si)))"

definition put_bytes :: "buffer \<Rightarrow> nat \<Rightarrow> byte list \<Rightarrow> buffer result" where
  "put_bytes b i bs =
     (if i + length bs \<le> length b
      then Inr (take i b @ map Some bs @ drop (i + length bs) b)
      else Inl OutOfBounds)"

definition deref :: "ptr \<Rightarrow> buffer result" where
  "deref p = (case p of None \<Rightarrow> Inl BadPointer | Some b \<Rightarrow> Inr b)"

lemma deref_simps [simp, run_simps]:
  "deref None = Inl BadPointer"
  "deref (Some b) = Inr b"
  by (simp_all add: deref_def)

lemma list_update_Cons_numeral [simp, run_simps]:
  "(x # xs)[numeral k := y] = x # xs[pred_numeral k := y]"
  by (simp add: numeral_eq_Suc)

lemma replicate_Cons_numeral [simp, run_simps]:
  "replicate (numeral k) x = x # replicate (pred_numeral k) x"
  by (simp add: numeral_eq_Suc)

lemma rd_initialised [simp]: "i < length bs \<Longrightarrow> rd (map Some bs) i = Inr (bs ! i)"
  by (simp add: rd_def cell_def)

lemma rd_initialised_prefix:
  "i < length bs \<Longrightarrow> rd (map Some bs @ rest) i = Inr (bs ! i)"
  by (simp add: rd_def cell_def nth_append)

lemma put_append_right:
  "length xs \<le> i \<Longrightarrow> i < length xs + length ys \<Longrightarrow>
   put (xs @ ys) i c = Inr (xs @ ys[i - length xs := c])"
  by (simp add: put_def list_update_append)

lemma put_length: "put b i c = Inr b' \<Longrightarrow> length b' = length b"
  by (auto simp: put_def split: if_splits)

lemma writes_length: "writes ws b = Inr b' \<Longrightarrow> length b' = length b"
proof (induction ws b rule: writes.induct)
  case (2 i v ws b)
  then show ?case by (auto simp: rbind_eq_Inr dest: put_length)
qed simp

lemma copy_loop_eq:
  assumes "si + n \<le> length src" and "di + n \<le> length dst"
  shows "copy_loop n dst di src si =
         Inr (take di dst @ take n (drop si src) @ drop (di + n) dst)"
  using assms
proof (induction n arbitrary: dst di si)
  case 0
  then show ?case by simp
next
  case (Suc n)
  have upd: "take (Suc di) (dst[di := src ! si]) = take di dst @ [src ! si]"
    using Suc.prems by (simp add: take_Suc_conv_app_nth)
  have hd: "take (Suc n) (drop si src) = src ! si # take n (drop (Suc si) src)"
    using Suc.prems by (simp add: Cons_nth_drop_Suc [symmetric])
  show ?case
    using Suc.prems by (simp add: cell_def put_def Suc.IH upd hd)
qed

lemma copy_loop_length: "copy_loop n dst di src si = Inr b \<Longrightarrow> length b = length dst"
  by (induction n arbitrary: dst di si) (auto simp: rbind_eq_Inr dest!: put_length)

lemma copy_loop_out_of_src:
  "length src < si + n \<Longrightarrow> di + n \<le> length dst \<Longrightarrow> si \<le> length src \<Longrightarrow>
   copy_loop n dst di src si = Inl OutOfBounds"
proof (induction n arbitrary: dst di si)
  case (Suc n)
  then show ?case
    by (cases "si < length src") (auto simp: cell_def put_def)
qed simp

lemma put_bytes_length: "put_bytes b i bs = Inr b' \<Longrightarrow> length b' = length b"
  by (auto simp: put_bytes_def split: if_splits)

section \<open>Machine integers\<close>

text \<open>C++ \<open>int\<close>: 32-bit two's complement, kept as a HOL \<open>int\<close>.\<close>

definition int_max :: int where
  "int_max = 2147483647"

definition int_min :: int where
  "int_min = -2147483648"

definition add_int :: "int \<Rightarrow> int \<Rightarrow> int result" where
  "add_int a b =
     (if int_min \<le> a + b \<and> a + b \<le> int_max then Inr (a + b) else Inl SignedOverflow)"

lemma unat_word_of_int:
  assumes "0 \<le> n" and "n < 2 ^ LENGTH('a::len)"
  shows "unat (word_of_int n :: 'a word) = nat n"
proof -
  have "uint (word_of_int n :: 'a word) = n"
    using assms by (simp add: uint_word_of_int)
  then show ?thesis unfolding unat_eq_nat_uint by simp
qed

lemma unat_word_of_int_u32:
  "0 \<le> n \<Longrightarrow> n < 2 ^ 32 \<Longrightarrow> unat (word_of_int n :: u32) = nat n"
  by (rule unat_word_of_int) simp_all

text \<open>Conversion of an unsigned 64-bit value to \<open>int\<close>: the low 32 bits, read as signed.\<close>

definition u64_to_int :: "u64 \<Rightarrow> int" where
  "u64_to_int w = sint (ucast w :: u32)"

text \<open>Byte \<open>k\<close> of a word, as \<open>(unsigned char)((w >> 8*k) & 0xFF)\<close> computes it.\<close>

definition byte_at :: "nat \<Rightarrow> 'a::len word \<Rightarrow> byte" where
  "byte_at s w = ucast (drop_bit s w AND 0xFF)"

definition be16 :: "byte \<Rightarrow> byte \<Rightarrow> u16" where
  "be16 hi lo = (push_bit 8 (ucast hi)) OR ucast lo"

definition be32 :: "byte \<Rightarrow> byte \<Rightarrow> byte \<Rightarrow> byte \<Rightarrow> u32" where
  "be32 b3 b2 b1 b0 =
     push_bit 24 (ucast b3) OR push_bit 16 (ucast b2) OR push_bit 8 (ucast b1) OR ucast b0"

lemma bit_255_int: "bit (255 :: int) n \<longleftrightarrow> n < 8"
proof -
  have "bit (mask 8 :: int) n \<longleftrightarrow> n < 8"
    by (simp add: bit_mask_iff)
  then show ?thesis by (simp add: mask_numeral)
qed

lemma bit_byte_at: "bit (byte_at s (w :: 'a::len word)) n \<longleftrightarrow> n < 8 \<and> bit w (s + n)"
  by (auto simp: byte_at_def bit_simps bit_255_int add.commute
      dest: bit_imp_le_length)

lemma be16_byte_at [simp]: "be16 (byte_at 8 w) (byte_at 0 w) = w"
  by (rule bit_word_eqI) (auto simp: be16_def bit_simps bit_byte_at)

lemma bit_push_byte_at:
  "bit (push_bit s (ucast (byte_at s w) :: 'a::len word)) n \<longleftrightarrow>
   s \<le> n \<and> n < s + 8 \<and> bit (w :: 'a word) n"
  by (auto simp: bit_simps bit_byte_at dest: bit_imp_le_length)

lemma be32_byte_at [simp]:
  "be32 (byte_at 24 w) (byte_at 16 w) (byte_at 8 w) (byte_at 0 w) = w"
proof (rule bit_word_eqI)
  fix n :: nat
  assume n: "n < LENGTH(32)"
  have low: "bit (ucast (byte_at 0 w) :: u32) n \<longleftrightarrow> n < 8 \<and> bit w n"
    using bit_push_byte_at [of 0 w n] by simp
  show "bit (be32 (byte_at 24 w) (byte_at 16 w) (byte_at 8 w) (byte_at 0 w)) n = bit w n"
    unfolding be32_def bit_or_iff bit_push_byte_at low using n by auto
qed

section \<open>Programs: state passing with errors\<close>

definition return :: "'a \<Rightarrow> ('s, 'a) prog" where
  "return x = (\<lambda>s. Inr (x, s))"

definition fail :: "cpp_error \<Rightarrow> ('s, 'a) prog" where
  "fail e = (\<lambda>s. Inl e)"

definition lift :: "'a result \<Rightarrow> ('s, 'a) prog" where
  "lift r = (\<lambda>s. rbind r (\<lambda>x. Inr (x, s)))"

definition gets :: "('s \<Rightarrow> 'a) \<Rightarrow> ('s, 'a) prog" where
  "gets f = (\<lambda>s. Inr (f s, s))"

definition modify :: "('s \<Rightarrow> 's) \<Rightarrow> ('s, unit) prog" where
  "modify f = (\<lambda>s. Inr ((), f s))"

definition bnd :: "('s, 'a) prog \<Rightarrow> ('a \<Rightarrow> ('s, 'b) prog) \<Rightarrow> ('s, 'b) prog" where
  "bnd m f = (\<lambda>s. case m s of Inl e \<Rightarrow> Inl e | Inr (x, s') \<Rightarrow> f x s')"

definition thn :: "('s, 'a) prog \<Rightarrow> ('s, 'b) prog \<Rightarrow> ('s, 'b) prog" where
  "thn m k = bnd m (\<lambda>_. k)"

definition on_cond :: "bool \<Rightarrow> ('s, unit) prog \<Rightarrow> ('s, unit) prog" where
  "on_cond c m = (if c then m else return ())"

text \<open>\<open>repeat_prog n m\<close> runs \<open>m\<close> \<open>n\<close> times.\<close>

primrec repeat_prog :: "nat \<Rightarrow> ('s, unit) prog \<Rightarrow> ('s, unit) prog" where
  "repeat_prog 0 m = return ()"
| "repeat_prog (Suc n) m = thn m (repeat_prog n m)"

lemma return_run [run_simps]: "return x s = Inr (x, s)"
  by (simp add: return_def)

lemma fail_run [run_simps]: "fail e s = Inl e"
  by (simp add: fail_def)

lemma lift_run [run_simps]: "lift r s = rbind r (\<lambda>x. Inr (x, s))"
  by (simp add: lift_def)

lemma gets_run [run_simps]: "gets f s = Inr (f s, s)"
  by (simp add: gets_def)

lemma modify_run [run_simps]: "modify f s = Inr ((), f s)"
  by (simp add: modify_def)

lemma bnd_run [run_simps]: "m s = Inr (x, s') \<Longrightarrow> bnd m f s = f x s'"
  by (simp add: bnd_def)

lemma bnd_run_Inl [run_simps]: "m s = Inl e \<Longrightarrow> bnd m f s = Inl e"
  by (simp add: bnd_def)

lemma thn_run [run_simps]: "m s = Inr (x, s') \<Longrightarrow> thn m k s = k s'"
  by (simp add: thn_def bnd_run)

lemma thn_run_Inl [run_simps]: "m s = Inl e \<Longrightarrow> thn m k s = Inl e"
  by (simp add: thn_def bnd_run_Inl)

lemma on_cond_run [run_simps]: "on_cond c m s = (if c then m s else Inr ((), s))"
  by (simp add: on_cond_def return_def)

lemma bnd_prim_run [run_simps]:
  "bnd (return x) f1 s = f1 x s"
  "bnd (fail e) f2 s = Inl e"
  "bnd (lift r) f3 s = rbind r (\<lambda>x. f3 x s)"
  "bnd (gets g) f4 s = f4 (g s) s"
  "bnd (modify h) f5 s = f5 () (h s)"
  by (simp_all add: bnd_def return_def fail_def lift_def gets_def modify_def rbind_def
      split: sum.splits)

lemma thn_prim_run [run_simps]:
  "thn (return x) k s = k s"
  "thn (fail e) k s = Inl e"
  "thn (lift r) k s = rbind r (\<lambda>_. k s)"
  "thn (modify h) k s = k (h s)"
  by (simp_all add: thn_def bnd_prim_run)

lemma bnd_lift_Inr: "bnd (lift (Inr x)) f = f x"
  by (rule ext) (simp add: bnd_prim_run)

lemma bnd_return: "bnd (return x) f = f x"
  by (rule ext) (simp add: bnd_prim_run)

lemma bnd_assoc: "bnd (bnd m f) g = bnd m (\<lambda>x. bnd (f x) g)"
  by (rule ext) (simp add: bnd_def split: sum.splits)

lemma bnd_eq_Inr:
  "bnd m f s = Inr (y, s'') \<longleftrightarrow> (\<exists>x s'. m s = Inr (x, s') \<and> f x s' = Inr (y, s''))"
  by (auto simp: bnd_def split: sum.splits)

lemma thn_eq_Inr:
  "thn m k s = Inr (y, s'') \<longleftrightarrow> (\<exists>x s'. m s = Inr (x, s') \<and> k s' = Inr (y, s''))"
  by (simp add: thn_def bnd_eq_Inr)

lemma lift_eq_Inr: "lift r s = Inr (y, s') \<longleftrightarrow> r = Inr y \<and> s' = s"
  by (cases r) (auto simp: lift_def)

lemma gets_eq_Inr: "gets f s = Inr (y, s') \<longleftrightarrow> y = f s \<and> s' = s"
  by (auto simp: gets_def)

lemma modify_eq_Inr: "modify f s = Inr (y, s') \<longleftrightarrow> s' = f s"
  by (auto simp: modify_def)

lemma return_eq_Inr: "return x s = Inr (y, s') \<longleftrightarrow> y = x \<and> s' = s"
  by (auto simp: return_def)

lemma fail_eq_Inr: "fail e s = Inr (y, s') \<longleftrightarrow> False"
  by (simp add: fail_def)

lemma on_cond_eq_Inr:
  "on_cond c m s = Inr (y, s') \<longleftrightarrow> (if c then m s = Inr (y, s') else s' = s)"
  by (auto simp: on_cond_def return_def)

lemmas prog_eq_Inr =
  bnd_eq_Inr thn_eq_Inr lift_eq_Inr gets_eq_Inr modify_eq_Inr return_eq_Inr fail_eq_Inr
  on_cond_eq_Inr

section \<open>Preservation of a predicate\<close>

text \<open>\<open>preserves I m\<close>: whenever \<open>m\<close> returns normally from a state in \<open>I\<close>, the new state is in \<open>I\<close>.\<close>

definition preserves :: "('s \<Rightarrow> bool) \<Rightarrow> ('s, 'a) prog \<Rightarrow> bool" where
  "preserves I m \<longleftrightarrow> (\<forall>s x s'. I s \<longrightarrow> m s = Inr (x, s') \<longrightarrow> I s')"

lemma preservesI: "(\<And>s x s'. I s \<Longrightarrow> m s = Inr (x, s') \<Longrightarrow> I s') \<Longrightarrow> preserves I m"
  by (auto simp: preserves_def)

lemma preservesD: "preserves I m \<Longrightarrow> m s = Inr (x, s') \<Longrightarrow> I s \<Longrightarrow> I s'"
  by (auto simp: preserves_def)

lemma preserves_return [pres]: "preserves I (return x)"
  by (simp add: preserves_def return_def)

lemma preserves_fail [pres]: "preserves I (fail e)"
  by (simp add: preserves_def fail_def)

lemma preserves_lift [pres]: "preserves I (lift r)"
  by (simp add: preserves_def lift_eq_Inr)

lemma preserves_gets [pres]: "preserves I (gets f)"
  by (simp add: preserves_def gets_def)

lemma preserves_modify: "(\<And>s. I s \<Longrightarrow> I (f s)) \<Longrightarrow> preserves I (modify f)"
  by (simp add: preserves_def modify_def)

lemma preserves_bnd [pres]:
  "preserves I m \<Longrightarrow> (\<And>x. preserves I (f x)) \<Longrightarrow> preserves I (bnd m f)"
  by (rule preservesI) (auto simp: bnd_eq_Inr dest: preservesD)

lemma preserves_thn [pres]: "preserves I m \<Longrightarrow> preserves I k \<Longrightarrow> preserves I (thn m k)"
  by (simp add: thn_def preserves_bnd)

lemma preserves_on_cond [pres]: "preserves I m \<Longrightarrow> preserves I (on_cond c m)"
  by (simp add: on_cond_def preserves_return)

lemma preserves_if [pres]:
  "(c \<Longrightarrow> preserves I a) \<Longrightarrow> (\<not> c \<Longrightarrow> preserves I b) \<Longrightarrow>
   preserves I (if c then a else b)"
  by simp

lemma preserves_option [pres]:
  "preserves I a \<Longrightarrow> (\<And>x. preserves I (f x)) \<Longrightarrow>
   preserves I (case v of None \<Rightarrow> a | Some x \<Rightarrow> f x)"
  by (cases v) auto

lemma preserves_prod [pres]:
  "(\<And>x y. preserves I (f x y)) \<Longrightarrow> preserves I (case p of (x, y) \<Rightarrow> f x y)"
  by (cases p) auto

lemma preserves_repeat [pres]: "preserves I m \<Longrightarrow> preserves I (repeat_prog n m)"
  by (induction n) (auto intro: preserves_return preserves_thn)

section \<open>Weakest preconditions\<close>

text \<open>
  \<open>hoare P E m Q\<close>: from a state in \<open>P\<close>, \<open>m\<close> returns with \<open>Q\<close> or stops with an error of \<open>E\<close>. An
  empty \<open>E\<close> says that \<open>m\<close> has no error at all.
\<close>

definition hoare ::
  "('s \<Rightarrow> bool) \<Rightarrow> cpp_error set \<Rightarrow> ('s, 'a) prog \<Rightarrow> ('a \<Rightarrow> 's \<Rightarrow> bool) \<Rightarrow> bool" where
  "hoare P E m Q \<longleftrightarrow>
     (\<forall>s. P s \<longrightarrow> (case m s of Inl e \<Rightarrow> e \<in> E | Inr (x, s') \<Rightarrow> Q x s'))"

lemma hoareI:
  "(\<And>s. P s \<Longrightarrow> case m s of Inl e \<Rightarrow> e \<in> E | Inr (x, s') \<Rightarrow> Q x s') \<Longrightarrow> hoare P E m Q"
  by (simp add: hoare_def)

lemma hoareD:
  assumes "hoare P E m Q" and "P s"
  shows "m s = Inr (x, s') \<Longrightarrow> Q x s'" and "m s = Inl e \<Longrightarrow> e \<in> E"
  using assms by (auto simp: hoare_def)

lemma hoare_no_error:
  assumes "\<And>s. P s \<Longrightarrow> \<exists>x s'. m s = Inr (x, s') \<and> Q x s'"
  shows "hoare P E m Q"
  using assms by (fastforce simp: hoare_def)

lemma hoare_pre: "hoare P E m Q \<Longrightarrow> (\<And>s. P' s \<Longrightarrow> P s) \<Longrightarrow> hoare P' E m Q"
  by (simp add: hoare_def)

lemma hoare_post:
  assumes "hoare P E m Q" and "\<And>x s. Q x s \<Longrightarrow> Q' x s" and "E \<subseteq> E'"
  shows "hoare P E' m Q'"
proof (rule hoareI)
  fix s assume "P s"
  with assms(1) have "case m s of Inl e \<Rightarrow> e \<in> E | Inr (x, s') \<Rightarrow> Q x s'" by (simp add: hoare_def)
  with assms(2,3) show "case m s of Inl e \<Rightarrow> e \<in> E' | Inr (x, s') \<Rightarrow> Q' x s'"
    by (auto split: sum.splits)
qed

lemma preserves_hoare: "hoare I E m (\<lambda>_. I) \<Longrightarrow> preserves I m"
  by (rule preservesI) (rule hoareD(1))

lemma hoare_preserves: "preserves I m \<Longrightarrow> hoare I UNIV m (\<lambda>_. I)"
  by (auto simp: hoare_def preserves_def split: sum.splits)

lemma wp_return [wp]: "hoare (Q x) E (return x) Q"
  by (simp add: hoare_def return_def)

lemma wp_fail [wp]: "hoare (\<lambda>_. e \<in> E) E (fail e) Q"
  by (simp add: hoare_def fail_def)

lemma wp_lift [wp]:
  "hoare (\<lambda>s. case r of Inl e \<Rightarrow> e \<in> E | Inr x \<Rightarrow> Q x s) E (lift r) Q"
  by (cases r) (simp_all add: hoare_def lift_def)

lemma wp_gets [wp]: "hoare (\<lambda>s. Q (f s) s) E (gets f) Q"
  by (simp add: hoare_def gets_def)

lemma wp_modify [wp]: "hoare (\<lambda>s. Q () (f s)) E (modify f) Q"
  by (simp add: hoare_def modify_def)

lemma wp_bnd [wp]:
  assumes "\<And>x. hoare (R x) E (f x) Q" and "hoare P E m R"
  shows "hoare P E (bnd m f) Q"
proof (rule hoareI)
  fix s assume "P s"
  with assms(2) have "case m s of Inl e \<Rightarrow> e \<in> E | Inr (x, s') \<Rightarrow> R x s'" by (simp add: hoare_def)
  with assms(1) show "case bnd m f s of Inl e \<Rightarrow> e \<in> E | Inr (x, s') \<Rightarrow> Q x s'"
    by (auto simp: bnd_def split: sum.splits intro: hoareD [OF assms(1)])
qed

lemma wp_thn [wp]: "hoare R E k Q \<Longrightarrow> hoare P E m (\<lambda>_. R) \<Longrightarrow> hoare P E (thn m k) Q"
  unfolding thn_def by (rule wp_bnd)

lemma wp_if [wp]:
  "(c \<Longrightarrow> hoare P E a Q) \<Longrightarrow> (\<not> c \<Longrightarrow> hoare R E b Q) \<Longrightarrow>
   hoare (\<lambda>s. if c then P s else R s) E (if c then a else b) Q"
  by (simp add: hoare_def)

lemma wp_on_cond [wp]:
  "(c \<Longrightarrow> hoare P E m Q) \<Longrightarrow> hoare (\<lambda>s. if c then P s else Q () s) E (on_cond c m) Q"
  unfolding on_cond_def by (auto simp: hoare_def return_def)

lemma wp_option [wp]:
  "(v = None \<Longrightarrow> hoare P E a Q) \<Longrightarrow> (\<And>x. v = Some x \<Longrightarrow> hoare (R x) E (f x) Q) \<Longrightarrow>
   hoare (\<lambda>s. case v of None \<Rightarrow> P s | Some x \<Rightarrow> R x s) E (case v of None \<Rightarrow> a | Some x \<Rightarrow> f x) Q"
  by (cases v) auto

lemma wp_prod [wp]:
  "(\<And>x y. hoare (R x y) E (f x y) Q) \<Longrightarrow>
   hoare (\<lambda>s. case p of (x, y) \<Rightarrow> R x y s) E (case p of (x, y) \<Rightarrow> f x y) Q"
  by (cases p) auto

text \<open>The same predicate before and after: rules that \<open>intro\<close> can chain.\<close>

lemma keep_prim [keep]:
  "hoare P E (return x) (\<lambda>_. P)"
  "hoare P E (gets f) (\<lambda>_. P)"
  by (simp_all add: hoare_def return_def gets_def)

lemma keep_fail [keep]: "e \<in> E \<Longrightarrow> hoare P E (fail e) (\<lambda>_. P)"
  by (simp add: hoare_def fail_def)

lemma keep_lift [keep]: "(\<And>e. r = Inl e \<Longrightarrow> e \<in> E) \<Longrightarrow> hoare P E (lift r) (\<lambda>_. P)"
  by (cases r) (simp_all add: hoare_def lift_def)

lemma keep_bnd:
  "(\<And>x. hoare P E (f x) (\<lambda>_. P)) \<Longrightarrow> hoare P E m (\<lambda>_. P) \<Longrightarrow> hoare P E (bnd m f) (\<lambda>_. P)"
  by (rule wp_bnd)

lemma keep_bnd_lift:
  "(\<And>x. r = Inr x \<Longrightarrow> hoare P E (f x) (\<lambda>_. P)) \<Longrightarrow> (\<And>e. r = Inl e \<Longrightarrow> e \<in> E) \<Longrightarrow>
   hoare P E (bnd (lift r) f) (\<lambda>_. P)"
  by (cases r) (simp_all add: hoare_def bnd_prim_run)

lemma keep_thn [keep]:
  "hoare P E k (\<lambda>_. P) \<Longrightarrow> hoare P E m (\<lambda>_. P) \<Longrightarrow> hoare P E (thn m k) (\<lambda>_. P)"
  by (rule wp_thn)

lemma keep_if [keep]:
  "(c \<Longrightarrow> hoare P E a (\<lambda>_. P)) \<Longrightarrow> (\<not> c \<Longrightarrow> hoare P E b (\<lambda>_. P)) \<Longrightarrow>
   hoare P E (if c then a else b) (\<lambda>_. P)"
  by simp

lemma keep_on_cond [keep]:
  "(c \<Longrightarrow> hoare P E m (\<lambda>_. P)) \<Longrightarrow> hoare P E (on_cond c m) (\<lambda>_. P)"
  by (simp add: on_cond_def keep_prim)

lemma keep_option [keep]:
  "hoare P E a (\<lambda>_. P) \<Longrightarrow> (\<And>x. v = Some x \<Longrightarrow> hoare P E (f x) (\<lambda>_. P)) \<Longrightarrow>
   hoare P E (case v of None \<Rightarrow> a | Some x \<Rightarrow> f x) (\<lambda>_. P)"
  by (cases v) auto

lemma keep_prod [keep]:
  "(\<And>x y. hoare P E (f x y) (\<lambda>_. P)) \<Longrightarrow> hoare P E (case p of (x, y) \<Rightarrow> f x y) (\<lambda>_. P)"
  by (cases p) auto

section \<open>Reachable states\<close>

inductive reach :: "('s \<Rightarrow> bool) \<Rightarrow> ('s \<Rightarrow> 's \<Rightarrow> bool) \<Rightarrow> 's \<Rightarrow> bool"
  for init :: "'s \<Rightarrow> bool" and step :: "'s \<Rightarrow> 's \<Rightarrow> bool" where
  reach_init: "init s \<Longrightarrow> reach init step s"
| reach_step: "reach init step s \<Longrightarrow> step s t \<Longrightarrow> reach init step t"

text \<open>
  The interface between a component that steps and what is said of its reachable states: an
  invariant that holds initially and that every step keeps.
\<close>

locale inductive_invariant =
  fixes init :: "'s \<Rightarrow> bool"
    and step :: "'s \<Rightarrow> 's \<Rightarrow> bool"
    and inv :: "'s \<Rightarrow> bool"
  assumes inv_init: "init s \<Longrightarrow> inv s"
    and inv_step: "inv s \<Longrightarrow> step s t \<Longrightarrow> inv t"
begin

lemma inv_reach: "reach init step s \<Longrightarrow> inv s"
  by (induction rule: reach.induct) (auto intro: inv_init inv_step)

end

end
