(* ===== verification/Doip_Env.thy ===== *)
theory Doip_Env
  imports Doip_Prelude
begin

text \<open>
  The world outside the repository: the operating system (sockets, \<open>clock\<close>, \<open>ioctl\<close>), OpenSSL
  and the scheduler. None of it is modelled; it is a parameter \<open>env\<close> of the definitions, a
  function from the history of calls made so far and the next call to its answer, so that every
  behaviour of the world is some \<open>env\<close>. Each operation that leaves the repository goes through
  \<open>ext_call\<close>, which appends the call and its answer to the history.

  Socket handles and OpenSSL objects are the numbers the world answers; addresses and ports are
  kept in host byte order.
\<close>

section \<open>Calls and histories\<close>

text \<open>\<open>struct sockaddr_in\<close>; a member that was never written is \<open>None\<close>.\<close>

record sockaddr_in =
  sin_family :: "int option"
  sin_port :: "u16 option"
  sin_addr :: "u32 option"

definition AF_INET :: int where "AF_INET = 2"
definition INADDR_ANY :: u32 where "INADDR_ANY = 0"

definition uninit_sockaddr :: sockaddr_in where
  "uninit_sockaddr = \<lparr>sin_family = None, sin_port = None, sin_addr = None\<rparr>"

datatype ext =
    Recv int u64                    \<comment> \<open>\<open>recv(fd, buf, n, 0)\<close>\<close>
  | Write int buffer                \<comment> \<open>\<open>write(fd, message, n)\<close> with the \<open>n\<close> cells written\<close>
  | CloseFd int                     \<comment> \<open>\<open>close(fd)\<close>\<close>
  | Socket bool                     \<comment> \<open>\<open>socket(AF_INET, SOCK_STREAM / SOCK_DGRAM, 0)\<close>; true: stream\<close>
  | Bind int sockaddr_in            \<comment> \<open>\<open>bind(fd, address)\<close>\<close>
  | Listen int int                  \<comment> \<open>\<open>listen(fd, backlog)\<close>\<close>
  | Accept int                      \<comment> \<open>\<open>accept(fd, nullptr, nullptr)\<close>\<close>
  | Connect int sockaddr_in         \<comment> \<open>\<open>connect(fd, address)\<close>\<close>
  | Recvfrom int u64                \<comment> \<open>\<open>recvfrom(fd, buf, n, 0, ...)\<close>\<close>
  | Sendto int buffer sockaddr_in   \<comment> \<open>\<open>sendto(fd, message, n, 0, address)\<close>\<close>
  | SetReuseAddr int                \<comment> \<open>\<open>setsockopt(fd, SOL_SOCKET, SO_REUSEADDR, 1)\<close>\<close>
  | JoinMulticast int string        \<comment> \<open>\<open>setsockopt(fd, IPPROTO_IP, IP_ADD_MEMBERSHIP, address)\<close>\<close>
  | SetBroadcast int int            \<comment> \<open>\<open>setsockopt(fd, SOL_SOCKET, SO_BROADCAST, value)\<close>\<close>
  | GetHwAddr int string            \<comment> \<open>\<open>ioctl(fd, SIOCGIFHWADDR)\<close> for an interface\<close>
  | InetAton string                 \<comment> \<open>\<open>inet_aton(text, addr)\<close>; the answer's bytes are the address\<close>
  | SleepMs int                     \<comment> \<open>\<open>std::this_thread::sleep_for\<close>\<close>
  | Clock                           \<comment> \<open>\<open>clock()\<close>\<close>
  | NewArray u64                    \<comment> \<open>\<open>new unsigned char[n]\<close> for an \<open>n\<close> the peer chooses\<close>
  | TimerSlice                      \<comment> \<open>how many loop iterations the timer thread runs while the
                                        caller is blocked (the scheduler's choice)\<close>
  | SSL_read nat int
  | SSL_write nat buffer
  | SSL_get_error nat int
  | SSL_shutdown nat
  | SSL_free nat
  | SSL_CTX_new                     \<comment> \<open>\<open>SSL_CTX_new(TLS_server_method())\<close>; 0 is a null context\<close>
  | SSL_CTX_use_certificate_file nat string
  | SSL_CTX_use_PrivateKey_file nat string
  | SSL_CTX_load_verify_locations nat string
  | SSL_CTX_set_verify nat
  | SSL_CTX_set_verify_depth nat int
  | SSL_CTX_free "nat option"
  | SSL_new "nat option"
  | SSL_set_fd nat int
  | SSL_accept nat
  | SSL_CTX_new_client              \<comment> \<open>\<open>SSL_CTX_new(TLS_client_method())\<close>; 0 is a null context\<close>
  | SSL_CTX_use_certificate_chain_file nat string
  | SSL_CTX_set_default_verify_paths nat
  | SSL_set_tlsext_host_name nat string
  | SSL_set1_host nat string
  | SSL_connect nat
  | IgnoreSigpipe                   \<comment> \<open>\<open>signal(SIGPIPE, SIG_IGN)\<close>\<close>
  | InetPton string                 \<comment> \<open>\<open>inet_pton(AF_INET, text, addr)\<close>; the answer's bytes are the address\<close>
  | Fgets int                       \<comment> \<open>\<open>fgets(buf, n, stdin)\<close>; 0 is \<open>NULL\<close>, the bytes are the line\<close>

record answer =
  ret :: int              \<comment> \<open>the value the call returns\<close>
  bytes :: "byte list"    \<comment> \<open>the bytes it stores through a pointer argument, if any\<close>
  sender :: sockaddr_in   \<comment> \<open>the address \<open>recvfrom\<close> stores\<close>

type_synonym history = "(ext \<times> answer) list"
type_synonym env = "history \<Rightarrow> ext \<Rightarrow> answer"

record world =
  trace :: history

lemma trace_update_eq_iff [simp]: "w\<lparr>trace := x\<rparr> = w\<lparr>trace := y\<rparr> \<longleftrightarrow> x = y"
  by (metis world.select_convs(1) world.surjective world.update_convs(1))

definition ext_call :: "env \<Rightarrow> ext \<Rightarrow> ('z world_scheme, answer) prog" where
  "ext_call env k =
     (\<lambda>w. let a = env (trace w) k in Inr (a, w\<lparr>trace := trace w @ [(k, a)]\<rparr>))"

definition ext_ret :: "env \<Rightarrow> ext \<Rightarrow> ('z world_scheme, int) prog" where
  "ext_ret env k = bnd (ext_call env k) (\<lambda>a. return (ret a))"

definition ext_do :: "env \<Rightarrow> ext \<Rightarrow> ('z world_scheme, unit) prog" where
  "ext_do env k = bnd (ext_call env k) (\<lambda>_. return ())"

lemma ext_call_run [run_simps]:
  "ext_call env k w =
   Inr (env (trace w) k, w\<lparr>trace := trace w @ [(k, env (trace w) k)]\<rparr>)"
  by (simp add: ext_call_def Let_def)

lemma ext_ret_run [run_simps]:
  "ext_ret env k w =
   Inr (ret (env (trace w) k), w\<lparr>trace := trace w @ [(k, env (trace w) k)]\<rparr>)"
  by (simp add: ext_ret_def run_simps)

lemma ext_do_run [run_simps]:
  "ext_do env k w = Inr ((), w\<lparr>trace := trace w @ [(k, env (trace w) k)]\<rparr>)"
  by (simp add: ext_do_def run_simps)

lemma bnd_ext_run [run_simps]:
  "bnd (ext_call env k) f w =
   f (env (trace w) k) (w\<lparr>trace := trace w @ [(k, env (trace w) k)]\<rparr>)"
  "bnd (ext_ret env k) g w =
   g (ret (env (trace w) k)) (w\<lparr>trace := trace w @ [(k, env (trace w) k)]\<rparr>)"
  "bnd (ext_do env k) h w = h () (w\<lparr>trace := trace w @ [(k, env (trace w) k)]\<rparr>)"
  "thn (ext_do env k) m w = m (w\<lparr>trace := trace w @ [(k, env (trace w) k)]\<rparr>)"
  by (simp_all add: bnd_def thn_def run_simps)

lemma wp_ext [wp]:
  "hoare (\<lambda>w. Q (env (trace w) k) (w\<lparr>trace := trace w @ [(k, env (trace w) k)]\<rparr>))
     E (ext_call env k) Q"
  "hoare (\<lambda>w. R (ret (env (trace w) k)) (w\<lparr>trace := trace w @ [(k, env (trace w) k)]\<rparr>))
     E (ext_ret env k) R"
  "hoare (\<lambda>w. S () (w\<lparr>trace := trace w @ [(k, env (trace w) k)]\<rparr>)) E (ext_do env k) S"
  by (simp_all add: hoare_def run_simps)

text \<open>\<open>inet_aton\<close>: the address in the text, or nothing if it is not one.\<close>

definition inet_aton :: "env \<Rightarrow> string \<Rightarrow> ('z world_scheme, u32 option) prog" where
  "inet_aton env text =
     bnd (ext_call env (InetAton text)) (\<lambda>a.
     if ret a = 0 then return None
     else case bytes a of
            [b3, b2, b1, b0] \<Rightarrow> return (Some (be32 b3 b2 b1 b0))
          | _ \<Rightarrow> fail EnvContract)"

lemma inet_aton_run:
  assumes "a = env tr (InetAton t)" and "ret a \<noteq> 0 \<longrightarrow> length (bytes a) = 4"
  shows "\<exists>addr. \<forall>w :: 'z world_scheme. trace w = tr \<longrightarrow>
           inet_aton env t w = Inr (addr, w\<lparr>trace := tr @ [(InetAton t, a)]\<rparr>)"
proof (cases "ret a = 0")
  case True
  with assms(1) show ?thesis by (intro exI [of _ None]) (simp add: inet_aton_def run_simps)
next
  case False
  with assms(2) obtain b3 b2 b1 b0 where "bytes a = [b3, b2, b1, b0]"
    by (auto simp: length_Suc_conv eval_nat_numeral)
  with False assms(1) show ?thesis
    by (intro exI [of _ "Some (be32 b3 b2 b1 b0)"]) (simp add: inet_aton_def run_simps)
qed

section \<open>Reading a history\<close>

text \<open>The calls a run added to a history.\<close>

definition calls_of :: "history \<Rightarrow> ext list" where
  "calls_of tr = map fst tr"

text \<open>The bytes the peer delivered, in order.\<close>

fun received_by :: "ext \<times> answer \<Rightarrow> byte list" where
  "received_by (Recv fd n, a) = (if 0 < ret a then bytes a else [])"
| "received_by (SSL_read h n, a) = (if 0 < ret a then bytes a else [])"
| "received_by _ = []"

definition received :: "history \<Rightarrow> byte list" where
  "received tr = concat (map received_by tr)"

text \<open>The messages written to a peer, in order, whatever the write returned.\<close>

fun written_by :: "ext \<Rightarrow> buffer list" where
  "written_by (Write fd b) = [b]"
| "written_by (SSL_write h b) = [b]"
| "written_by _ = []"

definition written :: "history \<Rightarrow> buffer list" where
  "written tr = concat (map (written_by o fst) tr)"

text \<open>The reads from a peer that delivered nothing: the end of the stream or an error.\<close>

fun failed_read :: "ext \<times> answer \<Rightarrow> bool" where
  "failed_read (Recv fd n, a) = (ret a \<le> 0)"
| "failed_read (SSL_read h n, a) = (ret a \<le> 0)"
| "failed_read _ = False"

definition failed_reads :: "history \<Rightarrow> nat" where
  "failed_reads tr = length (filter failed_read tr)"

lemma failed_reads_simps [simp]:
  "failed_reads [] = 0"
  "failed_reads (tr @ tr') = failed_reads tr + failed_reads tr'"
  "failed_reads [e] = (if failed_read e then 1 else 0)"
  by (simp_all add: failed_reads_def)

lemma received_simps [simp]:
  "received [] = []"
  "received (tr @ tr') = received tr @ received tr'"
  "received [e] = received_by e"
  by (simp_all add: received_def)

lemma written_simps [simp]:
  "written [] = []"
  "written (tr @ tr') = written tr @ written tr'"
  "written [e] = written_by (fst e)"
  by (simp_all add: written_def)

lemma calls_of_simps [simp]:
  "calls_of [] = []"
  "calls_of (tr @ tr') = calls_of tr @ calls_of tr'"
  "calls_of (e # tr) = fst e # calls_of tr"
  by (simp_all add: calls_of_def)

section \<open>Histories only grow\<close>

definition extends :: "history \<Rightarrow> 'z world_scheme \<Rightarrow> bool" where
  "extends tr w \<longleftrightarrow> (\<exists>tr'. trace w = tr @ tr')"

lemma extends_ext_call [pres]: "preserves (extends tr) (ext_call env k)"
  by (rule preservesI) (auto simp: extends_def ext_call_run)

lemma extends_ext_ret [pres]: "preserves (extends tr) (ext_ret env k)"
  by (simp add: ext_ret_def pres)

lemma extends_ext_do [pres]: "preserves (extends tr) (ext_do env k)"
  by (simp add: ext_do_def pres)

lemma extends_failed_reads: "extends tr w \<Longrightarrow> failed_reads tr \<le> failed_reads (trace w)"
  by (auto simp: extends_def)

text \<open>The peer's stream ends: from some point of the history on, no read delivers anything.\<close>

definition ended :: "nat \<Rightarrow> env \<Rightarrow> bool" where
  "ended n env \<longleftrightarrow>
     (\<forall>tr. n \<le> length tr \<longrightarrow>
        (\<forall>fd k. ret (env tr (Recv fd k)) \<le> 0) \<and> (\<forall>h i. ret (env tr (SSL_read h i)) \<le> 0))"

end
