(* ===== verification/Doip_Timer.thy ===== *)
theory Doip_Timer
  imports Doip_Env
begin

text \<open>
  The alive check timer, \<open>libdoipcommon/src/AliveCheckTimer.cpp\<close> and its class in
  \<open>AliveCheckTimer.h\<close>. The record \<open>timed\<close> extends the world with the timer object, so that the
  connection, which owns one, extends \<open>timed\<close> in turn. The callback \<open>cb\<close> is a closure of some
  type \<open>'k\<close>; \<open>invoke\<close> says what calling it does. The vector \<open>timerThreads\<close> is kept as its length.

  \<open>waitForResponse\<close> is a loop that runs in a thread of its own and may run for ever; its first
  argument bounds the iterations, and its result says whether the loop was left. The thread's
  progress while another one is blocked is this loop with the number of iterations that the
  scheduler grants.
\<close>

section \<open>State (AliveCheckTimer.h)\<close>

record 'k AliveCheckTimer =
  disabled :: bool
  active :: bool
  timeout :: bool
  cb :: "'k option"
  timerThreads :: nat
  startTime :: "int option"
  maxSeconds :: "u16 option"

definition newAliveCheckTimer :: "'k AliveCheckTimer" where
  "newAliveCheckTimer =
     \<lparr>disabled = False, active = False, timeout = False, cb = None, timerThreads = 0,
      startTime = None, maxSeconds = None\<rparr>"

record 'k timed = world +
  aliveCheckTimer :: "'k AliveCheckTimer"

definition update_timer ::
  "('k AliveCheckTimer \<Rightarrow> 'k AliveCheckTimer) \<Rightarrow> (('k, 'z) timed_scheme, unit) prog" where
  "update_timer f = modify (\<lambda>s. s\<lparr>aliveCheckTimer := f (aliveCheckTimer s)\<rparr>)"

definition CLOCKS_PER_SEC :: int where
  "CLOCKS_PER_SEC = 1000000"

section \<open>Operations\<close>

definition setTimer :: "u16 \<Rightarrow> (('k, 'z) timed_scheme, unit) prog" where
  "setTimer seconds = update_timer (\<lambda>t. t\<lparr>maxSeconds := Some seconds\<rparr>)"

definition resetTimer :: "env \<Rightarrow> (('k, 'z) timed_scheme, unit) prog" where
  "resetTimer env =
     bnd (ext_ret env Clock) (\<lambda>now.
     update_timer (\<lambda>t. t\<lparr>startTime := Some now, active := True\<rparr>))"

definition startTimer :: "env \<Rightarrow> (('k, 'z) timed_scheme, unit) prog" where
  "startTimer env =
     bnd (gets aliveCheckTimer) (\<lambda>t.
     on_cond (disabled t = False)
       (thn (resetTimer env)
            (update_timer (\<lambda>t. t\<lparr>timerThreads := Suc (timerThreads t)\<rparr>))))"

text \<open>The body of the loop: \<open>clock_t\<close> division truncates towards zero.\<close>

definition timer_iteration ::
  "env \<Rightarrow> ('k \<Rightarrow> (('k, 'z) timed_scheme, unit) prog) \<Rightarrow> (('k, 'z) timed_scheme, unit) prog" where
  "timer_iteration env invoke =
     bnd (ext_ret env Clock) (\<lambda>now.
     bnd (gets aliveCheckTimer) (\<lambda>t.
     bnd (lift (determinate (startTime t))) (\<lambda>start.
     bnd (lift (determinate (maxSeconds t))) (\<lambda>limit.
     let secondsPassed = (now - start) sdiv CLOCKS_PER_SEC in
     on_cond (uint limit \<le> secondsPassed)
       (thn (update_timer (\<lambda>t. t\<lparr>disabled := True, timeout := True\<rparr>))
            (case cb t of None \<Rightarrow> fail BadFunctionCall | Some k \<Rightarrow> invoke k))))))"

primrec waitForResponse ::
  "nat \<Rightarrow> env \<Rightarrow> ('k \<Rightarrow> (('k, 'z) timed_scheme, unit) prog) \<Rightarrow> (('k, 'z) timed_scheme, bool) prog"
  where
  "waitForResponse 0 env invoke = gets (\<lambda>s. disabled (aliveCheckTimer s))"
| "waitForResponse (Suc n) env invoke =
     bnd (gets aliveCheckTimer) (\<lambda>t.
     if disabled t then return True
     else thn (timer_iteration env invoke) (waitForResponse n env invoke))"

text \<open>
  The destructor: stop the loop, join the first thread, destroy the vector. A second thread in
  the vector would be destroyed while joinable.
\<close>

definition destroyAliveCheckTimer :: "(('k, 'z) timed_scheme, unit) prog" where
  "destroyAliveCheckTimer =
     thn (update_timer (\<lambda>t. t\<lparr>disabled := True\<rparr>))
         (bnd (gets aliveCheckTimer) (\<lambda>t.
          if 1 < timerThreads t then fail Terminate else return ()))"

section \<open>What the operations do\<close>

lemma update_timer_run [run_simps]:
  "update_timer f s = Inr ((), s\<lparr>aliveCheckTimer := f (aliveCheckTimer s)\<rparr>)"
  "bnd (update_timer f) g s = g () (s\<lparr>aliveCheckTimer := f (aliveCheckTimer s)\<rparr>)"
  "thn (update_timer f) m s = m (s\<lparr>aliveCheckTimer := f (aliveCheckTimer s)\<rparr>)"
  by (simp_all add: update_timer_def run_simps)

lemma preserves_update_timer:
  "(\<And>s. I s \<Longrightarrow> I (s\<lparr>aliveCheckTimer := f (aliveCheckTimer s)\<rparr>)) \<Longrightarrow>
   preserves I (update_timer f)"
  unfolding update_timer_def by (rule preserves_modify)

lemma extends_update_timer [pres]: "preserves (extends tr) (update_timer f)"
  by (rule preserves_update_timer) (simp add: extends_def)

text \<open>A timer that is running: not stopped, with its start, its limit and its callback.\<close>

definition armed :: "'k AliveCheckTimer \<Rightarrow> int \<Rightarrow> u16 \<Rightarrow> 'k \<Rightarrow> bool" where
  "armed t start limit k \<longleftrightarrow>
     \<not> disabled t \<and> startTime t = Some start \<and> maxSeconds t = Some limit \<and> cb t = Some k"

definition expired_at :: "int \<Rightarrow> u16 \<Rightarrow> int \<Rightarrow> bool" where
  "expired_at start limit now \<longleftrightarrow> uint limit \<le> (now - start) sdiv CLOCKS_PER_SEC"

lemma timer_iteration_waits:
  assumes "armed (aliveCheckTimer s) start limit k"
    and "\<not> expired_at start limit (ret (env (trace s) Clock))"
  shows "timer_iteration env invoke s =
         Inr ((), s\<lparr>trace := trace s @ [(Clock, env (trace s) Clock)]\<rparr>)"
  using assms by (simp add: timer_iteration_def armed_def expired_at_def run_simps Let_def)

lemma timer_iteration_fires:
  assumes "armed (aliveCheckTimer s) start limit k"
    and "expired_at start limit (ret (env (trace s) Clock))"
  shows "timer_iteration env invoke s =
         invoke k (s\<lparr>trace := trace s @ [(Clock, env (trace s) Clock)],
                     aliveCheckTimer :=
                       (aliveCheckTimer s)\<lparr>disabled := True, timeout := True\<rparr>\<rparr>)"
  using assms by (simp add: timer_iteration_def armed_def expired_at_def run_simps Let_def)

text \<open>An iteration that returns either waits or calls back.\<close>

lemma timer_iteration_cases:
  assumes "timer_iteration env invoke s = Inr (x, s')"
  obtains (waits) "s' = s\<lparr>trace := trace s @ [(Clock, env (trace s) Clock)]\<rparr>"
  | (fires) k where "cb (aliveCheckTimer s) = Some k"
      "invoke k (s\<lparr>trace := trace s @ [(Clock, env (trace s) Clock)],
                  aliveCheckTimer := (aliveCheckTimer s)\<lparr>disabled := True, timeout := True\<rparr>\<rparr>) =
       Inr (x, s')"
  using assms
  by (auto simp: timer_iteration_def run_simps Let_def rbind_eq_Inr split: option.splits if_splits)

lemma waitForResponse_disabled:
  "disabled (aliveCheckTimer s) \<Longrightarrow> waitForResponse n env invoke s = Inr (True, s)"
  by (cases n) (simp_all add: run_simps)

text \<open>The deadline comes with the \<open>n\<close>-th entry of the history at the latest.\<close>

lemma waitForResponse_fires:
  assumes "armed (aliveCheckTimer s) start limit k"
    and "\<And>tr. n \<le> length tr \<Longrightarrow> expired_at start limit (ret (env tr Clock))"
  shows "\<exists>tr m. (\<forall>e \<in> set tr. fst e = Clock) \<and> m \<le> Suc (n - length (trace s)) \<and>
           waitForResponse m env invoke s =
           thn (invoke k) (gets (\<lambda>s. disabled (aliveCheckTimer s)))
             (s\<lparr>trace := trace s @ tr,
                aliveCheckTimer := (aliveCheckTimer s)\<lparr>disabled := True, timeout := True\<rparr>\<rparr>)"
  using assms(1)
proof (induction "n - length (trace s)" arbitrary: s)
  case 0
  let ?a = "env (trace s) Clock"
  from 0 assms(2) have "expired_at start limit (ret ?a)" by simp
  with 0 have "waitForResponse (Suc 0) env invoke s =
      thn (invoke k) (gets (\<lambda>s. disabled (aliveCheckTimer s)))
        (s\<lparr>trace := trace s @ [(Clock, ?a)],
           aliveCheckTimer := (aliveCheckTimer s)\<lparr>disabled := True, timeout := True\<rparr>\<rparr>)"
    by (simp add: run_simps thn_def bnd_def timer_iteration_fires armed_def)
  then show ?case by (intro exI [of _ "[(Clock, ?a)]"] exI [of _ "Suc 0"]) simp
next
  case (Suc d)
  let ?a = "env (trace s) Clock"
  show ?case
  proof (cases "expired_at start limit (ret ?a)")
    case True
    with Suc.prems have "waitForResponse (Suc 0) env invoke s =
        thn (invoke k) (gets (\<lambda>s. disabled (aliveCheckTimer s)))
          (s\<lparr>trace := trace s @ [(Clock, ?a)],
             aliveCheckTimer := (aliveCheckTimer s)\<lparr>disabled := True, timeout := True\<rparr>\<rparr>)"
      by (simp add: run_simps thn_def bnd_def timer_iteration_fires armed_def)
    then show ?thesis by (intro exI [of _ "[(Clock, ?a)]"] exI [of _ "Suc 0"]) simp
  next
    case False
    let ?s = "s\<lparr>trace := trace s @ [(Clock, ?a)]\<rparr>"
    from Suc.hyps(2) have "d = n - length (trace ?s)" by simp
    moreover have "armed (aliveCheckTimer ?s) start limit k" using Suc.prems by simp
    ultimately obtain tr m where tr: "\<forall>e \<in> set tr. fst e = Clock"
      and m: "m \<le> Suc (n - length (trace ?s))"
      and run: "waitForResponse m env invoke ?s =
        thn (invoke k) (gets (\<lambda>s. disabled (aliveCheckTimer s)))
          (?s\<lparr>trace := trace ?s @ tr,
              aliveCheckTimer := (aliveCheckTimer ?s)\<lparr>disabled := True, timeout := True\<rparr>\<rparr>)"
      using Suc.hyps(1) by blast
    have "waitForResponse (Suc m) env invoke s = waitForResponse m env invoke ?s"
      using Suc.prems False by (simp add: run_simps timer_iteration_waits armed_def)
    with run tr m Suc.hyps(2) show ?thesis
      by (intro exI [of _ "(Clock, ?a) # tr"] exI [of _ "Suc m"]) auto
  qed
qed

text \<open>Whether one of the next \<open>n\<close> clock readings after the history \<open>tr\<close> is past the deadline.\<close>

primrec expires_within :: "env \<Rightarrow> int \<Rightarrow> u16 \<Rightarrow> nat \<Rightarrow> history \<Rightarrow> bool" where
  "expires_within env start limit 0 tr = False"
| "expires_within env start limit (Suc n) tr =
     (expired_at start limit (ret (env tr Clock)) \<or>
      expires_within env start limit n (tr @ [(Clock, env tr Clock)]))"

lemma waitForResponse_waits:
  assumes "armed (aliveCheckTimer s) start limit k"
    and "\<not> expires_within env start limit n (trace s)"
  shows "\<exists>tr. waitForResponse n env invoke s = Inr (False, s\<lparr>trace := trace s @ tr\<rparr>) \<and>
              calls_of tr = replicate n Clock"
  using assms
proof (induction n arbitrary: s)
  case 0
  then show ?case by (auto simp: gets_def armed_def intro!: exI [of _ "[]"])
next
  case (Suc n)
  let ?e = "(Clock, env (trace s) Clock)"
  let ?s = "s\<lparr>trace := trace s @ [?e]\<rparr>"
  have "\<exists>tr. waitForResponse n env invoke ?s = Inr (False, ?s\<lparr>trace := trace ?s @ tr\<rparr>) \<and>
             calls_of tr = replicate n Clock"
    by (rule Suc.IH) (use Suc.prems in simp_all)
  then obtain tr where tr: "waitForResponse n env invoke ?s = Inr (False, ?s\<lparr>trace := trace ?s @ tr\<rparr>)"
    and calls: "calls_of tr = replicate n Clock"
    by blast
  have "waitForResponse (Suc n) env invoke s = waitForResponse n env invoke ?s"
    using Suc.prems by (simp add: run_simps timer_iteration_waits armed_def)
  with tr calls show ?case by (intro exI [of _ "?e # tr"]) simp
qed

lemma waitForResponse_expires:
  assumes "armed (aliveCheckTimer s) start limit k"
    and "expires_within env start limit n (trace s)"
  shows "\<exists>tr m i. m < n \<and> calls_of tr = replicate (Suc m) Clock \<and>
           waitForResponse n env invoke s =
           thn (invoke k) (waitForResponse i env invoke)
             (s\<lparr>trace := trace s @ tr,
                aliveCheckTimer := (aliveCheckTimer s)\<lparr>disabled := True, timeout := True\<rparr>\<rparr>)"
  using assms
proof (induction n arbitrary: s)
  case (Suc n)
  let ?e = "(Clock, env (trace s) Clock)"
  let ?s = "s\<lparr>trace := trace s @ [?e]\<rparr>"
  show ?case
  proof (cases "expired_at start limit (ret (env (trace s) Clock))")
    case True
    with Suc.prems(1) have "waitForResponse (Suc n) env invoke s =
        thn (invoke k) (waitForResponse n env invoke)
          (s\<lparr>trace := trace s @ [?e],
             aliveCheckTimer := (aliveCheckTimer s)\<lparr>disabled := True, timeout := True\<rparr>\<rparr>)"
      by (simp add: run_simps thn_def bnd_def timer_iteration_fires armed_def)
    then show ?thesis by (intro exI [of _ "[?e]"] exI [of _ 0] exI [of _ n]) simp
  next
    case False
    have "\<exists>tr m i. m < n \<and> calls_of tr = replicate (Suc m) Clock \<and>
           waitForResponse n env invoke ?s =
           thn (invoke k) (waitForResponse i env invoke)
             (?s\<lparr>trace := trace ?s @ tr,
                aliveCheckTimer := (aliveCheckTimer ?s)\<lparr>disabled := True, timeout := True\<rparr>\<rparr>)"
      by (rule Suc.IH) (use Suc.prems False in simp_all)
    then obtain tr m i where m: "m < n" and calls: "calls_of tr = replicate (Suc m) Clock"
      and run: "waitForResponse n env invoke ?s =
           thn (invoke k) (waitForResponse i env invoke)
             (?s\<lparr>trace := trace ?s @ tr,
                aliveCheckTimer := (aliveCheckTimer ?s)\<lparr>disabled := True, timeout := True\<rparr>\<rparr>)"
      by blast
    have "waitForResponse (Suc n) env invoke s = waitForResponse n env invoke ?s"
      using Suc.prems(1) False by (simp add: run_simps timer_iteration_waits armed_def)
    with run m calls show ?thesis
      by (intro exI [of _ "?e # tr"] exI [of _ "Suc m"] exI [of _ i]) simp
  qed
qed simp

section \<open>The timer as a state machine\<close>

text \<open>
  A stand-alone timer: its owner sets, starts and resets it, in any order and as often as it
  likes, while its thread iterates. The callback does nothing here; what it does in a
  connection is the connection's business.
\<close>

inductive timer_step :: "env \<Rightarrow> 'k timed \<Rightarrow> 'k timed \<Rightarrow> bool" for env where
  timer_set: "setTimer n s = Inr (x, t) \<Longrightarrow> timer_step env s t"
| timer_start: "startTimer env s = Inr (x, t) \<Longrightarrow> timer_step env s t"
| timer_reset: "resetTimer env s = Inr (x, t) \<Longrightarrow> timer_step env s t"
| timer_thread: "waitForResponse n env (\<lambda>_. return ()) s = Inr (x, t) \<Longrightarrow> timer_step env s t"

inductive_cases timer_stepE: "timer_step env s t"

definition timer_init :: "'k timed \<Rightarrow> bool" where
  "timer_init s \<longleftrightarrow> aliveCheckTimer s = newAliveCheckTimer"

text \<open>An expired timer is stopped, and a timer with a thread has a start time.\<close>

definition timer_inv :: "'k AliveCheckTimer \<Rightarrow> bool" where
  "timer_inv t \<longleftrightarrow>
     (timeout t \<longrightarrow> disabled t) \<and> (active t \<longleftrightarrow> startTime t \<noteq> None) \<and>
     (0 < timerThreads t \<longrightarrow> active t)"

definition timer_ok :: "('k, 'z) timed_scheme \<Rightarrow> bool" where
  "timer_ok s \<longleftrightarrow> timer_inv (aliveCheckTimer s)"

lemma timer_ok_ext_ret [pres]: "preserves timer_ok (ext_ret env k)"
  by (rule preservesI) (simp add: ext_ret_run timer_ok_def)

lemma timer_ok_setTimer [pres]: "preserves timer_ok (setTimer n)"
  unfolding setTimer_def by (rule preserves_update_timer) (auto simp: timer_ok_def timer_inv_def)

lemma timer_ok_resetTimer [pres]: "preserves timer_ok (resetTimer env)"
  unfolding resetTimer_def
  by (intro pres preserves_update_timer) (auto simp: timer_ok_def timer_inv_def)

lemma timer_ok_startTimer [pres]: "preserves timer_ok (startTimer env)"
  by (rule preservesI)
     (auto simp: startTimer_def resetTimer_def run_simps timer_ok_def timer_inv_def
       split: if_splits)

lemma timer_ok_iteration [pres]:
  "(\<And>k. preserves timer_ok (invoke k)) \<Longrightarrow> preserves timer_ok (timer_iteration env invoke)"
  unfolding timer_iteration_def Let_def
  by (intro pres preserves_update_timer) (auto simp: timer_ok_def timer_inv_def)

lemma timer_ok_waitForResponse [pres]:
  "(\<And>k. preserves timer_ok (invoke k)) \<Longrightarrow> preserves timer_ok (waitForResponse n env invoke)"
  by (induction n) (auto intro!: pres)

lemma timer_step_ok: "timer_step env s t \<Longrightarrow> timer_ok s \<Longrightarrow> timer_ok t"
  by (auto elim!: timer_stepE
      dest: preservesD [OF timer_ok_setTimer] preservesD [OF timer_ok_startTimer]
        preservesD [OF timer_ok_resetTimer]
        preservesD [OF timer_ok_waitForResponse [OF preserves_return]])

interpretation timer_machine:
  inductive_invariant "timer_init :: 'k timed \<Rightarrow> bool" "timer_step env" timer_ok for env
proof unfold_locales
  show "timer_init s \<Longrightarrow> timer_ok s" for s :: "'k timed"
    by (simp add: timer_init_def timer_ok_def timer_inv_def newAliveCheckTimer_def)
  show "timer_ok s \<Longrightarrow> timer_step env s t \<Longrightarrow> timer_ok t" for s t :: "'k timed"
    by (rule timer_step_ok)
qed

text \<open>Nothing switches a stopped timer on again.\<close>

definition stopped :: "('k, 'z) timed_scheme \<Rightarrow> bool" where
  "stopped s \<longleftrightarrow> disabled (aliveCheckTimer s)"

lemma stopped_ext_ret [pres]: "preserves stopped (ext_ret env k)"
  by (rule preservesI) (simp add: ext_ret_run stopped_def)

lemma stopped_update_timer:
  "(\<And>t. disabled t \<Longrightarrow> disabled (f t)) \<Longrightarrow> preserves stopped (update_timer f)"
  by (rule preserves_update_timer) (simp add: stopped_def)

lemma stopped_resetTimer [pres]: "preserves stopped (resetTimer env)"
  unfolding resetTimer_def by (intro pres stopped_update_timer) simp

lemma stopped_setTimer [pres]: "preserves stopped (setTimer n)"
  unfolding setTimer_def by (intro stopped_update_timer) simp

lemma stopped_startTimer [pres]: "preserves stopped (startTimer env)"
  unfolding startTimer_def by (intro pres stopped_update_timer) simp

lemma stopped_waitForResponse [pres]: "preserves stopped (waitForResponse n env invoke)"
  by (rule preservesI) (auto simp: stopped_def waitForResponse_disabled)

lemma timer_step_stopped: "timer_step env s t \<Longrightarrow> stopped s \<Longrightarrow> stopped t"
  by (auto elim!: timer_stepE
      dest: preservesD [OF stopped_setTimer] preservesD [OF stopped_startTimer]
        preservesD [OF stopped_resetTimer] preservesD [OF stopped_waitForResponse])

end
