(* ===== verification/Doip_Header.thy ===== *)
theory Doip_Header
  imports Doip_Prelude
begin

text \<open>
  The generic DoIP header, \<open>libdoipcommon/src/DoIPGenericHeaderHandler.cpp\<close>: recognising a
  received header (\<open>parseGenericHeader\<close>) and starting an outgoing message
  (\<open>createGenericHeader\<close>). The record \<open>GenericHeaderAction\<close> has fields that the code leaves
  unwritten on some paths; such a field is \<open>None\<close>.

  After the code come a table-driven reference for what a header means, and the interfaces
  \<open>framed_message\<close>, \<open>recognised_message\<close> and \<open>unrecognised_message\<close> between the functions that
  build messages and those that read them.
\<close>

section \<open>Constants and types (DoIPGenericHeaderHandler.h)\<close>

definition GenericHeaderLength :: int where
  "GenericHeaderLength = 8"

definition NACKLength :: int where
  "NACKLength = 1"

definition IncorrectPatternFormatCode :: byte where
  "IncorrectPatternFormatCode = 0x00"

definition UnknownPayloadTypeCode :: byte where
  "UnknownPayloadTypeCode = 0x01"

definition InvalidPayloadLengthCode :: byte where
  "InvalidPayloadLengthCode = 0x04"

lemmas header_consts =
  GenericHeaderLength_def NACKLength_def IncorrectPatternFormatCode_def
  UnknownPayloadTypeCode_def InvalidPayloadLengthCode_def

datatype PayloadType =
    NEGATIVEACK
  | ROUTINGACTIVATIONREQUEST
  | ROUTINGACTIVATIONRESPONSE
  | VEHICLEIDENTREQUEST
  | VEHICLEIDENTRESPONSE
  | DIAGNOSTICMESSAGE
  | DIAGNOSTICPOSITIVEACK
  | DIAGNOSTICNEGATIVEACK
  | ALIVECHECKRESPONSE

record GenericHeaderAction =
  action_type :: "PayloadType option"
  action_value :: "byte option"
  action_payloadLength :: "u64 option"

text \<open>\<open>GenericHeaderAction action;\<close>: no field is written.\<close>

definition uninit_action :: GenericHeaderAction where
  "uninit_action = \<lparr>action_type = None, action_value = None, action_payloadLength = None\<rparr>"

text \<open>\<open>action.type = PayloadType::NEGATIVEACK; action.value = code;\<close>\<close>

definition nack_action :: "byte \<Rightarrow> GenericHeaderAction \<Rightarrow> GenericHeaderAction" where
  "nack_action code action =
     action\<lparr>action_type := Some NEGATIVEACK, action_value := Some code\<rparr>"

section \<open>parseGenericHeader\<close>

text \<open>\<open>data[2] == hi && data[3] == lo\<close>, the second comparison only if the first holds.\<close>

definition type_bytes_are :: "buffer \<Rightarrow> byte \<Rightarrow> byte \<Rightarrow> bool result" where
  "type_bytes_are data hi lo =
     rbind (rd data 2) (\<lambda>d2.
     if d2 = hi then rbind (rd data 3) (\<lambda>d3. Inr (d3 = lo)) else Inr False)"

text \<open>The chain of \<open>else if\<close>s; \<open>None\<close> is its last \<open>else\<close>.\<close>

fun match_payload_type ::
  "buffer \<Rightarrow> (byte \<times> byte \<times> PayloadType) list \<Rightarrow> PayloadType option result" where
  "match_payload_type data [] = Inr None"
| "match_payload_type data ((hi, lo, t) # rest) =
     rbind (type_bytes_are data hi lo) (\<lambda>b.
     if b then Inr (Some t) else match_payload_type data rest)"

definition parsed_types :: "(byte \<times> byte \<times> PayloadType) list" where
  "parsed_types =
     [(0x00, 0x05, ROUTINGACTIVATIONREQUEST),
      (0x00, 0x04, VEHICLEIDENTRESPONSE),
      (0x00, 0x01, VEHICLEIDENTREQUEST),
      (0x80, 0x01, DIAGNOSTICMESSAGE),
      (0x80, 0x02, DIAGNOSTICPOSITIVEACK),
      (0x80, 0x03, DIAGNOSTICNEGATIVEACK)]"

text \<open>
  The length checks, one equation per \<open>case\<close>. The first component is true when the case
  executes \<open>return action\<close>; the cases of the two diagnostic acknowledgements write the action
  and then \<open>break\<close>.
\<close>

fun check_payload_length ::
  "PayloadType \<Rightarrow> u32 \<Rightarrow> GenericHeaderAction \<Rightarrow> bool \<times> GenericHeaderAction" where
  "check_payload_length ROUTINGACTIVATIONREQUEST n action =
     (if n \<noteq> 7 \<and> n \<noteq> 11 then (True, nack_action InvalidPayloadLengthCode action)
      else (False, action))"
| "check_payload_length ALIVECHECKRESPONSE n action =
     (if n \<noteq> 2 then (True, nack_action InvalidPayloadLengthCode action)
      else (False, action))"
| "check_payload_length VEHICLEIDENTREQUEST n action =
     (if n \<noteq> 0 then (True, nack_action InvalidPayloadLengthCode action)
      else (False, action))"
| "check_payload_length VEHICLEIDENTRESPONSE n action =
     (if n \<noteq> 32 \<and> n \<noteq> 33 then (True, nack_action InvalidPayloadLengthCode action)
      else (False, action))"
| "check_payload_length DIAGNOSTICMESSAGE n action =
     (if n \<le> 4 then (True, nack_action InvalidPayloadLengthCode action)
      else (False, action))"
| "check_payload_length DIAGNOSTICPOSITIVEACK n action =
     (False, if n < 5 then nack_action InvalidPayloadLengthCode action else action)"
| "check_payload_length DIAGNOSTICNEGATIVEACK n action =
     (False, if n < 5 then nack_action InvalidPayloadLengthCode action else action)"
| "check_payload_length _ n action = (False, action)"

text \<open>The \<open>switch\<close> and the assignment of the type after it.\<close>

definition checked_action ::
  "PayloadType \<Rightarrow> u32 \<Rightarrow> GenericHeaderAction \<Rightarrow> GenericHeaderAction" where
  "checked_action messagePayloadType payloadLength action =
     (case check_payload_length messagePayloadType payloadLength action of
        (returned, action') \<Rightarrow>
          if returned then action' else action'\<lparr>action_type := Some messagePayloadType\<rparr>)"

definition parseGenericHeader :: "buffer \<Rightarrow> int \<Rightarrow> GenericHeaderAction result" where
  "parseGenericHeader data dataLenght =
     (if GenericHeaderLength \<le> dataLenght then
        rbind (rd data 1) (\<lambda>d1.
        rbind (rd data 0) (\<lambda>d0.
        if d1 XOR 0xFF \<noteq> d0
        then Inr ((nack_action IncorrectPatternFormatCode uninit_action)
                   \<lparr>action_payloadLength := Some 0\<rparr>)
        else
          rbind (rd data 4) (\<lambda>b3.
          rbind (rd data 5) (\<lambda>b2.
          rbind (rd data 6) (\<lambda>b1.
          rbind (rd data 7) (\<lambda>b0.
          let payloadLength = be32 b3 b2 b1 b0;
              action = uninit_action\<lparr>action_payloadLength := Some (ucast payloadLength)\<rparr>
          in rbind (match_payload_type data parsed_types) (\<lambda>t.
             case t of
               None \<Rightarrow> Inr (nack_action UnknownPayloadTypeCode action)
             | Some messagePayloadType \<Rightarrow>
                 Inr (checked_action messagePayloadType payloadLength action))))))))
      else Inr uninit_action)"

section \<open>createGenericHeader\<close>

text \<open>The \<open>switch\<close> over the type; its \<open>default\<close> writes nothing.\<close>

fun write_type :: "PayloadType \<Rightarrow> buffer \<Rightarrow> buffer result" where
  "write_type ROUTINGACTIVATIONRESPONSE header = writes [(2, 0x00), (3, 0x06)] header"
| "write_type NEGATIVEACK header = writes [(2, 0x00), (3, 0x00)] header"
| "write_type VEHICLEIDENTRESPONSE header = writes [(2, 0x00), (3, 0x04)] header"
| "write_type DIAGNOSTICMESSAGE header = writes [(2, 0x80), (3, 0x01)] header"
| "write_type DIAGNOSTICPOSITIVEACK header = writes [(2, 0x80), (3, 0x02)] header"
| "write_type DIAGNOSTICNEGATIVEACK header = writes [(2, 0x80), (3, 0x03)] header"
| "write_type ALIVECHECKRESPONSE header = writes [(2, 0x00), (3, 0x08)] header"
| "write_type _ header = Inr header"

text \<open>The allocation \<open>new unsigned char[8 + length]\<close> is computed in 32 bits.\<close>

definition createGenericHeader :: "PayloadType \<Rightarrow> u32 \<Rightarrow> buffer result" where
  "createGenericHeader ptype len =
     rbind (writes [(0, 0x02), (1, 0xFD)] (replicate (unat (8 + len)) None)) (\<lambda>header.
     rbind (write_type ptype header) (\<lambda>header.
     writes [(4, byte_at 24 len), (5, byte_at 16 len), (6, byte_at 8 len), (7, byte_at 0 len)]
       header))"

section \<open>What a header means\<close>

text \<open>A reference for received headers: a table of types and a table of lengths.\<close>

fun type_table :: "byte \<times> byte \<Rightarrow> PayloadType option" where
  "type_table (hi, lo) =
     (if hi = 0x00 then
        (if lo = 0x01 then Some VEHICLEIDENTREQUEST
         else if lo = 0x04 then Some VEHICLEIDENTRESPONSE
         else if lo = 0x05 then Some ROUTINGACTIVATIONREQUEST else None)
      else if hi = 0x80 then
        (if lo = 0x01 then Some DIAGNOSTICMESSAGE
         else if lo = 0x02 then Some DIAGNOSTICPOSITIVEACK
         else if lo = 0x03 then Some DIAGNOSTICNEGATIVEACK else None)
      else None)"

fun length_table :: "PayloadType \<Rightarrow> nat \<Rightarrow> bool" where
  "length_table ROUTINGACTIVATIONREQUEST n \<longleftrightarrow> n = 7 \<or> n = 11"
| "length_table VEHICLEIDENTREQUEST n \<longleftrightarrow> n = 0"
| "length_table VEHICLEIDENTRESPONSE n \<longleftrightarrow> n = 32 \<or> n = 33"
| "length_table DIAGNOSTICMESSAGE n \<longleftrightarrow> 4 < n"
| "length_table _ n \<longleftrightarrow> True"

datatype verdict = Accepted PayloadType nat | Rejected byte nat

text \<open>\<open>header_spec\<close>: the meaning of the eight header bytes.\<close>

definition header_spec :: "byte list \<Rightarrow> verdict" where
  "header_spec h =
     (let n = unat (be32 (h ! 4) (h ! 5) (h ! 6) (h ! 7)) in
      if h ! 0 \<noteq> NOT (h ! 1) then Rejected IncorrectPatternFormatCode 0
      else case type_table (h ! 2, h ! 3) of
             None \<Rightarrow> Rejected UnknownPayloadTypeCode n
           | Some t \<Rightarrow> if length_table t n then Accepted t n
                       else Rejected InvalidPayloadLengthCode n)"

text \<open>What the callers of \<open>parseGenericHeader\<close> look at.\<close>

definition verdict_of :: "GenericHeaderAction \<Rightarrow> verdict option" where
  "verdict_of a =
     (case (action_type a, action_payloadLength a) of
        (Some t, Some n) \<Rightarrow>
          if t = NEGATIVEACK
          then map_option (\<lambda>v. Rejected v (unat n)) (action_value a)
          else Some (Accepted t (unat n))
      | _ \<Rightarrow> None)"

section \<open>parseGenericHeader against the reference\<close>

lemma rd_header: "8 \<le> length h \<Longrightarrow> i < 8 \<Longrightarrow> rd (map Some h @ rest) i = Inr (h ! i)"
  by (rule rd_initialised_prefix) simp

lemma match_payload_type_table:
  assumes "8 \<le> length h"
  shows "match_payload_type (map Some h @ rest) parsed_types = Inr (type_table (h ! 2, h ! 3))"
  using assms by (simp add: parsed_types_def type_bytes_are_def rd_header)

lemma unat_ucast_u32_u64 [simp]: "unat (ucast (w :: u32) :: u64) = unat w"
proof -
  have "unat w < 2 ^ 32" using unsigned_less [of w] by simp
  then show ?thesis by (simp add: unsigned_ucast_eq take_bit_nat_eq_self_iff)
qed

lemma u32_eq_numeral_iff:
  "(w :: u32) = 0 \<longleftrightarrow> unat w = 0"
  "(w :: u32) = 2 \<longleftrightarrow> unat w = 2"
  "(w :: u32) = 7 \<longleftrightarrow> unat w = 7"
  "(w :: u32) = 11 \<longleftrightarrow> unat w = 11"
  "(w :: u32) = 32 \<longleftrightarrow> unat w = 32"
  "(w :: u32) = 33 \<longleftrightarrow> unat w = 33"
  "(w :: u32) \<le> 4 \<longleftrightarrow> unat w \<le> 4"
  "(w :: u32) < 5 \<longleftrightarrow> unat w < 5"
  by (simp_all add: word_unat_eq_iff word_le_nat_alt word_less_nat_alt)

lemma xor_ff_eq: "(a XOR 0xFF :: byte) = NOT a"
proof -
  have "(0xFF :: byte) = -1" by simp
  then show ?thesis by (metis bit.xor_one_right)
qed

declare type_table.simps [simp del]

text \<open>The action the code starts from once the length field is read.\<close>

abbreviation length_read :: "u32 \<Rightarrow> GenericHeaderAction" where
  "length_read n \<equiv> uninit_action\<lparr>action_payloadLength := Some (ucast n)\<rparr>"

lemma parse_unsynced:
  assumes "8 \<le> length h" and "8 \<le> n" and "h ! 0 \<noteq> NOT (h ! 1)"
  shows "parseGenericHeader (map Some h @ rest) n =
         Inr ((nack_action IncorrectPatternFormatCode uninit_action)
                \<lparr>action_payloadLength := Some 0\<rparr>)"
  using assms by (simp add: parseGenericHeader_def GenericHeaderLength_def rd_header xor_ff_eq)

lemma parse_synced:
  assumes "8 \<le> length h" and "8 \<le> n" and "h ! 0 = NOT (h ! 1)"
    and "len = be32 (h ! 4) (h ! 5) (h ! 6) (h ! 7)"
  shows "parseGenericHeader (map Some h @ rest) n =
         Inr (case type_table (h ! 2, h ! 3) of
                None \<Rightarrow> nack_action UnknownPayloadTypeCode (length_read len)
              | Some t \<Rightarrow> checked_action t len (length_read len))"
  using assms
  by (simp add: parseGenericHeader_def GenericHeaderLength_def rd_header xor_ff_eq
      match_payload_type_table Let_def split: option.splits)

lemma parse_short: "n < 8 \<Longrightarrow> parseGenericHeader data n = Inr uninit_action"
  by (simp add: parseGenericHeader_def GenericHeaderLength_def)

lemma verdict_of_checked:
  assumes "type_table (hi, lo) = Some t"
  shows "verdict_of (checked_action t n (length_read n)) =
         Some (if length_table t (unat n) then Accepted t (unat n)
               else Rejected InvalidPayloadLengthCode (unat n))"
  using assms
  by (cases t)
     (auto simp: verdict_of_def checked_action_def nack_action_def uninit_action_def
       u32_eq_numeral_iff type_table.simps split: if_splits)

lemma parse_header_eq:
  assumes "8 \<le> length h" and "8 \<le> n"
  shows "\<exists>a. parseGenericHeader (map Some h @ rest) n = Inr a \<and>
             verdict_of a = Some (header_spec h)"
proof (cases "h ! 0 = NOT (h ! 1)")
  case False
  then show ?thesis
    using parse_unsynced [OF assms False]
    by (simp add: header_spec_def verdict_of_def nack_action_def uninit_action_def)
next
  case True
  show ?thesis
  proof (cases "type_table (h ! 2, h ! 3)")
    case None
    with True parse_synced [OF assms True refl, of rest] show ?thesis
      by (simp add: header_spec_def Let_def verdict_of_def nack_action_def uninit_action_def)
  next
    case (Some t)
    with True parse_synced [OF assms True refl, of rest] verdict_of_checked [OF Some]
    show ?thesis by (simp add: header_spec_def Let_def)
  qed
qed

section \<open>The header createGenericHeader writes\<close>

fun wire_type :: "PayloadType \<Rightarrow> (byte \<times> byte) option" where
  "wire_type ROUTINGACTIVATIONRESPONSE = Some (0x00, 0x06)"
| "wire_type NEGATIVEACK = Some (0x00, 0x00)"
| "wire_type VEHICLEIDENTRESPONSE = Some (0x00, 0x04)"
| "wire_type DIAGNOSTICMESSAGE = Some (0x80, 0x01)"
| "wire_type DIAGNOSTICPOSITIVEACK = Some (0x80, 0x02)"
| "wire_type DIAGNOSTICNEGATIVEACK = Some (0x80, 0x03)"
| "wire_type ALIVECHECKRESPONSE = Some (0x00, 0x08)"
| "wire_type _ = None"

definition header_bytes :: "byte \<times> byte \<Rightarrow> u32 \<Rightarrow> byte list" where
  "header_bytes t n =
     [0x02, 0xFD, fst t, snd t, byte_at 24 n, byte_at 16 n, byte_at 8 n, byte_at 0 n]"

lemma header_bytes_length [simp]: "length (header_bytes t n) = 8"
  by (simp add: header_bytes_def)

lemma header_bytes_nth [simp]:
  "header_bytes t n ! 0 = 0x02"
  "header_bytes t n ! Suc 0 = 0xFD"
  "header_bytes t n ! 2 = fst t"
  "header_bytes t n ! 3 = snd t"
  "header_bytes t n ! 4 = byte_at 24 n"
  "header_bytes t n ! 5 = byte_at 16 n"
  "header_bytes t n ! 6 = byte_at 8 n"
  "header_bytes t n ! 7 = byte_at 0 n"
  by (simp_all add: header_bytes_def)

lemma header_spec_bytes:
  "header_spec (header_bytes t n @ r) =
   (case type_table t of
      None \<Rightarrow> Rejected UnknownPayloadTypeCode (unat n)
    | Some ty \<Rightarrow> if length_table ty (unat n) then Accepted ty (unat n)
                else Rejected InvalidPayloadLengthCode (unat n))"
  by (simp add: header_spec_def nth_append Let_def)

lemma unat_8_plus: "unat (len :: u32) < 2 ^ 32 - 8 \<Longrightarrow> unat (8 + len) = 8 + unat len"
  by (simp add: unat_word_ariths)

lemma replicate_8_plus:
  "replicate (8 + n) x = x # x # x # x # x # x # x # x # replicate n x"
  by (simp add: numeral_eq_Suc)

lemma createGenericHeader_eq:
  assumes "unat len < 2 ^ 32 - 8" and "wire_type ptype = Some t"
  shows "createGenericHeader ptype len =
         Inr (map Some (header_bytes t len) @ replicate (unat len) None)"
  using assms
  by (cases ptype)
     (auto simp: createGenericHeader_def unat_8_plus replicate_8_plus header_bytes_def put_def)

lemma createGenericHeader_untyped:
  assumes "unat len < 2 ^ 32 - 8" and "wire_type ptype = None"
  shows "createGenericHeader ptype len =
         Inr ((map Some (header_bytes (0, 0) len))[2 := None, 3 := None]
              @ replicate (unat len) None)"
  using assms
  by (cases ptype)
     (auto simp: createGenericHeader_def unat_8_plus replicate_8_plus header_bytes_def put_def)

lemma put_Inl: "put b i c = Inl e \<longleftrightarrow> length b \<le> i \<and> e = OutOfBounds"
  by (auto simp: put_def)

lemma writes_Inl: "writes ws b = Inl e \<Longrightarrow> e = OutOfBounds"
proof (induction ws b rule: writes.induct)
  case (2 i v ws b)
  then show ?case
    by (cases "put b i (Some v)") (auto simp: put_Inl)
qed simp

lemma writes_out_of_bounds:
  assumes "(i, v) \<in> set ws" and "length b \<le> i"
  shows "writes ws b = Inl OutOfBounds"
proof (cases "writes ws b")
  case (Inl e)
  then show ?thesis using writes_Inl by blast
next
  case (Inr b')
  have "writes ws b = Inr b' \<Longrightarrow> \<forall>(i, v) \<in> set ws. i < length b"
  proof (induction ws b rule: writes.induct)
    case (2 i v ws b)
    then show ?case by (fastforce simp: rbind_eq_Inr put_def split: if_splits)
  qed simp
  with Inr assms show ?thesis by auto
qed

lemma write_type_Inl: "write_type ptype h = Inl e \<Longrightarrow> e = OutOfBounds"
  by (cases ptype) (auto dest: writes_Inl simp del: writes.simps)

lemma write_type_length: "write_type ptype h = Inr h' \<Longrightarrow> length h' = length h"
  by (cases ptype) (auto dest: writes_length simp del: writes.simps)

lemma createGenericHeader_length:
  "createGenericHeader ptype len = Inr b \<Longrightarrow> length b = unat (8 + len)"
  unfolding createGenericHeader_def rbind_eq_Inr
  by (auto dest!: writes_length write_type_length simp del: writes.simps)

lemma createGenericHeader_Inl: "createGenericHeader ptype len = Inl e \<Longrightarrow> e = OutOfBounds"
  unfolding createGenericHeader_def rbind_eq_Inl
  by (auto dest: writes_Inl write_type_Inl simp del: writes.simps)

lemma createGenericHeader_overflow:
  assumes "2 ^ 32 - 8 \<le> unat len"
  shows "createGenericHeader ptype len = Inl OutOfBounds"
proof (cases "createGenericHeader ptype len")
  case (Inl e)
  then show ?thesis using createGenericHeader_Inl by blast
next
  case (Inr b)
  then obtain h where fields:
    "writes [(4, byte_at 24 len), (5, byte_at 16 len), (6, byte_at 8 len), (7, byte_at 0 len)] h
     = Inr b"
    unfolding createGenericHeader_def rbind_eq_Inr by blast
  have "unat len < 2 ^ 32" using unsigned_less [of len] by simp
  with assms have "unat (8 + len) = unat len - (2 ^ 32 - 8)"
    by (simp add: unat_word_ariths mod_if)
  with \<open>unat len < 2 ^ 32\<close> have "unat (8 + len) < 8" by simp
  with fields Inr have "length h < 8" by (metis writes_length createGenericHeader_length)
  with fields show ?thesis
    using writes_out_of_bounds [of 7 "byte_at 0 len" _ h] by (simp del: writes.simps)
qed

section \<open>Interfaces: messages with a generic header\<close>

text \<open>
  The functions that build messages promise a complete header followed by as many cells as the
  header announces. What a reader of the message makes of it follows from that alone.
\<close>

locale framed_message =
  fixes build :: "'a \<Rightarrow> buffer result"
    and valid :: "'a \<Rightarrow> bool"
    and ptype :: "'a \<Rightarrow> PayloadType"
    and plen :: "'a \<Rightarrow> nat"
  assumes plen_fits: "valid x \<Longrightarrow> plen x < 2 ^ 32"
    and build_framed: "valid x \<Longrightarrow>
      \<exists>t body. wire_type (ptype x) = Some t \<and> length body = plen x \<and>
        build x = Inr (map Some (header_bytes t (of_nat (plen x))) @ body)"
begin

lemma built_length:
  assumes "valid x" and "build x = Inr m"
  shows "length m = 8 + plen x"
  using build_framed [OF assms(1)] assms(2) by auto

lemma plen_unat: "valid x \<Longrightarrow> unat (of_nat (plen x) :: u32) = plen x"
  using plen_fits [of x] by (simp add: unat_of_nat)

text \<open>A reader that has the first eight cells of the message, and perhaps more.\<close>

lemma built_parsed:
  assumes "valid x" and "build x = Inr m" and "wire_type (ptype x) = Some t"
    and "8 \<le> k" and "8 \<le> n"
  shows "parseGenericHeader (take k m) n =
         Inr (case type_table t of
                None \<Rightarrow> nack_action UnknownPayloadTypeCode (length_read (of_nat (plen x)))
              | Some t' \<Rightarrow>
                  checked_action t' (of_nat (plen x)) (length_read (of_nat (plen x))))"
proof -
  from build_framed [OF assms(1)] assms(2,3) obtain body
    where m: "m = map Some (header_bytes t (of_nat (plen x))) @ body" by auto
  have "take k m = map Some (header_bytes t (of_nat (plen x))) @ take (k - 8) body"
    using assms(4) by (simp add: m)
  then show ?thesis using assms(5) by (simp add: parse_synced)
qed

end

text \<open>Messages of a type that \<open>parseGenericHeader\<close> knows, with a length it accepts.\<close>

locale recognised_message = framed_message +
  assumes type_known: "valid x \<Longrightarrow> wire_type (ptype x) = Some t \<Longrightarrow> type_table t = Some (ptype x)"
    and length_known: "valid x \<Longrightarrow>
      check_payload_length (ptype x) (of_nat (plen x)) action = (False, action)"
begin

lemma parsed_as_sent:
  assumes "valid x" and "build x = Inr m" and "8 \<le> k" and "8 \<le> n"
  shows "parseGenericHeader (take k m) n =
         Inr \<lparr>action_type = Some (ptype x), action_value = None,
              action_payloadLength = Some (of_nat (plen x))\<rparr>"
proof -
  obtain t where t: "wire_type (ptype x) = Some t" using build_framed [OF assms(1)] by blast
  have "plen x < 2 ^ LENGTH(32)" using plen_fits [OF assms(1)] by simp
  then have "(ucast (of_nat (plen x) :: u32) :: u64) = of_nat (plen x)"
    by (metis of_nat_inverse of_nat_unat ucast_eq unat_ucast_u32_u64 word_of_int_uint)
  then show ?thesis
    using built_parsed [OF assms(1,2) t assms(3,4)] type_known [OF assms(1) t]
    by (simp add: checked_action_def length_known [OF assms(1)] uninit_action_def)
qed

end

text \<open>Messages of a type that is written but never recognised.\<close>

locale unrecognised_message = framed_message +
  assumes type_unknown: "valid x \<Longrightarrow> wire_type (ptype x) = Some t \<Longrightarrow> type_table t = None"
begin

lemma parsed_as_unknown:
  assumes "valid x" and "build x = Inr m" and "8 \<le> k" and "8 \<le> n"
  shows "\<exists>a. parseGenericHeader (take k m) n = Inr a \<and>
             action_type a = Some NEGATIVEACK \<and> action_value a = Some UnknownPayloadTypeCode"
proof -
  obtain t where t: "wire_type (ptype x) = Some t" using build_framed [OF assms(1)] by blast
  show ?thesis
    using built_parsed [OF assms(1,2) t assms(3,4)] type_unknown [OF assms(1) t]
    by (simp add: nack_action_def)
qed

end

end
