(* ===== verification/Doip_Diagnostic.thy ===== *)
theory Doip_Diagnostic
  imports Doip_Header
begin

text \<open>
  Diagnostic messages, \<open>libdoipcommon/src/DiagnosticMessageHandler.cpp\<close>: handing a received
  message to the application (\<open>parseDiagnosticMessage\<close>) and building acknowledgements and
  messages (\<open>createDiagnosticACK\<close>, \<open>createDiagnosticMessage\<close>). The callback is an argument, a
  program over whatever state the caller has.
\<close>

section \<open>Constants (DiagnosticMessageHandler.h)\<close>

definition DiagnosticPositiveACKLength :: int where
  "DiagnosticPositiveACKLength = 5"

definition DiagnosticMessageMinimumLength :: int where
  "DiagnosticMessageMinimumLength = 4"

definition ValidDiagnosticMessageCode :: byte where
  "ValidDiagnosticMessageCode = 0x00"

definition InvalidSourceAddressCode :: byte where
  "InvalidSourceAddressCode = 0x02"

definition UnknownTargetAddressCode :: byte where
  "UnknownTargetAddressCode = 0x03"

lemmas diagnostic_consts =
  DiagnosticPositiveACKLength_def DiagnosticMessageMinimumLength_def
  ValidDiagnosticMessageCode_def InvalidSourceAddressCode_def UnknownTargetAddressCode_def

section \<open>parseDiagnosticMessage\<close>

text \<open>\<open>data[0] != sourceAddress[0] || data[1] != sourceAddress[1]\<close>, left to right.\<close>

definition source_address_differs :: "buffer \<Rightarrow> buffer \<Rightarrow> bool result" where
  "source_address_differs data sa =
     rbind (rd data 0) (\<lambda>d0.
     rbind (rd sa 0) (\<lambda>s0.
     if d0 \<noteq> s0 then Inr True
     else rbind (rd data 1) (\<lambda>d1.
          rbind (rd sa 1) (\<lambda>s1. Inr (d1 \<noteq> s1)))))"

definition parseDiagnosticMessage ::
  "(u16 \<Rightarrow> buffer \<Rightarrow> int \<Rightarrow> ('s, unit) prog) \<Rightarrow> ptr \<Rightarrow> ptr \<Rightarrow> int \<Rightarrow> ('s, byte) prog" where
  "parseDiagnosticMessage callback sourceAddress data diagMessageLength =
     (if DiagnosticMessageMinimumLength \<le> diagMessageLength then
        bnd (lift (deref data)) (\<lambda>d.
        bnd (lift (deref sourceAddress)) (\<lambda>sa.
        bnd (lift (source_address_differs d sa)) (\<lambda>differs.
        if differs then return InvalidSourceAddressCode
        else
          bnd (lift (rd d 2)) (\<lambda>d2.
          bnd (lift (rd d 3)) (\<lambda>d3.
          let target_address = be16 d2 d3;
              cb_message_length = diagMessageLength - DiagnosticMessageMinimumLength
          in bnd (lift (copy_loop (nat cb_message_length)
                          (replicate (nat cb_message_length) None) 0
                          d (nat DiagnosticMessageMinimumLength))) (\<lambda>cb_message.
             thn (callback target_address cb_message cb_message_length)
                 (return ValidDiagnosticMessageCode)))))))
      else return UnknownTargetAddressCode)"

section \<open>createDiagnosticACK\<close>

definition createDiagnosticACK ::
  "bool \<Rightarrow> u16 \<Rightarrow> buffer \<Rightarrow> byte \<Rightarrow> buffer result" where
  "createDiagnosticACK ackType sourceAddress targetAddress responseCode =
     (let ptype = (if ackType then DIAGNOSTICPOSITIVEACK else DIAGNOSTICNEGATIVEACK) in
      rbind (createGenericHeader ptype (word_of_int DiagnosticPositiveACKLength)) (\<lambda>message.
      rbind (writes [(8, byte_at 8 sourceAddress), (9, byte_at 0 sourceAddress)] message)
        (\<lambda>message.
      rbind (copy_loop 2 message 10 targetAddress 0) (\<lambda>message.
      writes [(12, responseCode)] message))))"

section \<open>createDiagnosticMessage\<close>

definition createDiagnosticMessage ::
  "u16 \<Rightarrow> ptr \<Rightarrow> buffer \<Rightarrow> int \<Rightarrow> buffer result" where
  "createDiagnosticMessage sourceAddress targetAddress userData userDataLength =
     rbind (add_int DiagnosticMessageMinimumLength userDataLength) (\<lambda>len.
     rbind (createGenericHeader DIAGNOSTICMESSAGE (word_of_int len)) (\<lambda>message.
     rbind (writes [(8, byte_at 8 sourceAddress), (9, byte_at 0 sourceAddress)] message)
       (\<lambda>message.
     rbind (deref targetAddress) (\<lambda>ta.
     rbind (copy_loop 2 message 10 ta 0) (\<lambda>message.
     copy_loop (nat userDataLength) message 12 userData 0)))))"

section \<open>What the builders produce\<close>

lemma take_2_eq: "2 \<le> length xs \<Longrightarrow> take 2 xs = [xs ! 0, xs ! 1]"
  by (cases xs; cases "tl xs") auto

lemma createDiagnosticACK_eq:
  assumes "2 \<le> length ta"
  shows "createDiagnosticACK ackType sa ta code =
         Inr (map Some (header_bytes (0x80, if ackType then 0x02 else 0x03) 5)
              @ [Some (byte_at 8 sa), Some (byte_at 0 sa), ta ! 0, ta ! 1, Some code])"
  using assms
  by (cases ackType)
     (simp_all add: createDiagnosticACK_def DiagnosticPositiveACKLength_def
       createGenericHeader_eq put_append_right copy_loop_eq take_2_eq)

lemma createDiagnosticMessage_eq:
  assumes "2 \<le> length ta" and "0 \<le> n" and "n \<le> int (length data)" and "n \<le> int_max - 4"
  shows "createDiagnosticMessage sa (Some ta) data n =
         Inr (map Some (header_bytes (0x80, 0x01) (word_of_int (4 + n)))
              @ [Some (byte_at 8 sa), Some (byte_at 0 sa), ta ! 0, ta ! 1]
              @ take (nat n) data)"
proof -
  have len: "add_int DiagnosticMessageMinimumLength n = Inr (4 + n)"
    using assms by (simp add: add_int_def int_max_def int_min_def
        DiagnosticMessageMinimumLength_def)
  define w :: u32 where "w = word_of_int (4 + n)"
  have "unat w = nat (4 + n)"
    unfolding w_def by (rule unat_word_of_int_u32) (use assms in \<open>auto simp: int_max_def\<close>)
  then have size: "unat w = 4 + nat n" using assms by (simp add: nat_add_distrib)
  have cells: "replicate (4 + nat n) (None :: byte option) =
      None # None # None # None # replicate (nat n) None"
    by (simp add: numeral_eq_Suc)
  have header: "createGenericHeader DIAGNOSTICMESSAGE w =
      Inr (map Some (header_bytes (0x80, 0x01) w)
           @ None # None # None # None # replicate (nat n) None)"
    using assms by (simp add: createGenericHeader_eq size cells int_max_def nat_less_iff)
  have "nat n \<le> length data" using assms by simp
  then show ?thesis
    unfolding createDiagnosticMessage_def len rbind_Inr w_def [symmetric] header
    using assms(1) by (simp add: put_append_right copy_loop_eq take_2_eq)
qed

text \<open>A null or wild target address is dereferenced whatever the data.\<close>

lemma createDiagnosticMessage_bad_pointer:
  assumes "0 \<le> n" and "n \<le> int_max - 4"
  shows "createDiagnosticMessage sa None data n = Inl BadPointer"
proof -
  have len: "add_int DiagnosticMessageMinimumLength n = Inr (4 + n)"
    using assms by (simp add: add_int_def int_max_def int_min_def
        DiagnosticMessageMinimumLength_def)
  define w :: u32 where "w = word_of_int (4 + n)"
  have w: "unat w = nat (4 + n)"
    unfolding w_def by (rule unat_word_of_int_u32) (use assms in \<open>auto simp: int_max_def\<close>)
  then have header: "createGenericHeader DIAGNOSTICMESSAGE w =
      Inr (map Some (header_bytes (0x80, 0x01) w) @ replicate (nat (4 + n)) None)"
    using assms by (simp add: createGenericHeader_eq int_max_def nat_less_iff)
  show ?thesis
    unfolding createDiagnosticMessage_def len rbind_Inr w_def [symmetric] header
    using assms by (simp add: put_append_right)
qed

section \<open>Handing a message to the application\<close>

lemma parseDiagnosticMessage_short:
  "n < 4 \<Longrightarrow> parseDiagnosticMessage cb sa data n = return UnknownTargetAddressCode"
  by (simp add: parseDiagnosticMessage_def DiagnosticMessageMinimumLength_def)

lemma parseDiagnosticMessage_no_address:
  "4 \<le> n \<Longrightarrow> parseDiagnosticMessage cb None (Some d) n s = Inl BadPointer"
  by (simp add: parseDiagnosticMessage_def DiagnosticMessageMinimumLength_def run_simps)

lemma parseDiagnosticMessage_other_address:
  assumes "4 \<le> n" and "(a, b) \<noteq> (sa1, sa0)"
  shows "parseDiagnosticMessage cb (Some (Some sa1 # Some sa0 # r)) (Some (Some a # Some b # d)) n s =
         Inr (InvalidSourceAddressCode, s)"
  using assms
  by (auto simp: parseDiagnosticMessage_def DiagnosticMessageMinimumLength_def run_simps
      source_address_differs_def rd_def cell_def)

lemma parseDiagnosticMessage_delivers:
  assumes "n = 4 + int (length body)"
  shows "parseDiagnosticMessage cb (Some (Some a # Some b # r))
           (Some (Some a # Some b # Some t1 # Some t0 # body)) n s =
         thn (cb (be16 t1 t0) body (int (length body))) (return ValidDiagnosticMessageCode) s"
  using assms
  by (simp add: parseDiagnosticMessage_def DiagnosticMessageMinimumLength_def run_simps
      source_address_differs_def rd_def cell_def copy_loop_eq Let_def)

lemma preserves_parseDiagnosticMessage [pres]:
  "(\<And>ta m n. preserves I (cb ta m n)) \<Longrightarrow> preserves I (parseDiagnosticMessage cb sa data len)"
  unfolding parseDiagnosticMessage_def Let_def by (intro pres) auto

section \<open>The builders keep the message interface\<close>

interpretation ack_message: recognised_message
  "\<lambda>(ackType, sa, ta, code). createDiagnosticACK ackType sa ta code"
  "\<lambda>(ackType, sa, ta, code). 2 \<le> length ta"
  "\<lambda>(ackType, sa, ta, code). if ackType then DIAGNOSTICPOSITIVEACK else DIAGNOSTICNEGATIVEACK"
  "\<lambda>_. 5"
  by unfold_locales
     (auto simp: createDiagnosticACK_eq type_table.simps split: if_splits)

interpretation diag_message: recognised_message
  "\<lambda>(sa, ta, data, n). createDiagnosticMessage sa (Some ta) data n"
  "\<lambda>(sa, ta, data, n). 2 \<le> length ta \<and> 0 < n \<and> n \<le> int (length data) \<and> n \<le> int_max - 4"
  "\<lambda>_. DIAGNOSTICMESSAGE"
  "\<lambda>(sa, ta, data, n). nat (4 + n)"
proof unfold_locales
  fix x :: "u16 \<times> buffer \<times> buffer \<times> int"
  obtain sa ta data n where x: "x = (sa, ta, data, n)" by (cases x)
  assume "case x of (sa, ta, data, n) \<Rightarrow>
    2 \<le> length ta \<and> 0 < n \<and> n \<le> int (length data) \<and> n \<le> int_max - 4"
  then have v: "2 \<le> length ta" "0 < n" "n \<le> int (length data)" "n \<le> int_max - 4"
    by (auto simp: x)
  show "(case x of (sa, ta, data, n) \<Rightarrow> nat (4 + n)) < 2 ^ 32"
    using v by (simp add: x int_max_def nat_less_iff)
  show "\<exists>t body. wire_type DIAGNOSTICMESSAGE = Some t \<and>
      length body = (case x of (sa, ta, data, n) \<Rightarrow> nat (4 + n)) \<and>
      (case x of (sa, ta, data, n) \<Rightarrow> createDiagnosticMessage sa (Some ta) data n) =
      Inr (map Some (header_bytes t (of_nat (case x of (sa, ta, data, n) \<Rightarrow> nat (4 + n)))) @ body)"
    using v createDiagnosticMessage_eq [of ta n data sa]
    by (auto simp: x nat_add_distrib)
  have "nat (4 + n) < 2 ^ LENGTH(32)" using v by (simp add: int_max_def nat_less_iff)
  then have "unat (of_nat (nat (4 + n)) :: u32) = nat (4 + n)" by (rule of_nat_inverse [OF refl])
  then show "check_payload_length DIAGNOSTICMESSAGE
      (of_nat (case x of (sa, ta, data, n) \<Rightarrow> nat (4 + n))) action = (False, action)" for action
    using v by (simp add: x u32_eq_numeral_iff)
qed (auto simp: type_table.simps)

end
