(* ===== verification/Doip_Routing.thy ===== *)
theory Doip_Routing
  imports Doip_Header
begin

text \<open>
  Routing activation, \<open>libdoipserver/src/RoutingActivationHandler.cpp\<close>: the verdict on a request
  (\<open>parseRoutingActivation\<close>, \<open>checkSourceAddress\<close>) and the response message
  (\<open>createRoutingActivationResponse\<close>).
\<close>

section \<open>Constants (RoutingActivationHandler.h)\<close>

definition ActivationResponseLength :: int where
  "ActivationResponseLength = 9"

definition UnknownSourceAddressCode :: byte where
  "UnknownSourceAddressCode = 0x00"

definition UnsupportedRoutingTypeCode :: byte where
  "UnsupportedRoutingTypeCode = 0x06"

definition SuccessfullyRoutedCode :: byte where
  "SuccessfullyRoutedCode = 0x10"

lemmas routing_consts =
  ActivationResponseLength_def UnknownSourceAddressCode_def UnsupportedRoutingTypeCode_def
  SuccessfullyRoutedCode_def

section \<open>checkSourceAddress\<close>

text \<open>\<open>for(uint32_t i = minAddress; i <= maxAddress; i++) if(address == i) return true;\<close>\<close>

function address_loop :: "u32 \<Rightarrow> u32 \<Rightarrow> bool" where
  "address_loop address i =
     (if i \<le> 4095 then (if address = i then True else address_loop address (i + 1))
      else False)"
  by pat_completeness auto
termination
proof (relation "measure (\<lambda>(address, i). 4096 - unat i)")
  fix address i :: u32
  assume "i \<le> 4095"
  then have "unat i \<le> 4095" by (simp add: word_le_nat_alt)
  then show "((address, i + 1), (address, i)) \<in> measure (\<lambda>(address, i). 4096 - unat i)"
    by (simp add: unat_word_ariths)
qed simp

declare address_loop.simps [simp del]

definition checkSourceAddress :: "u32 \<Rightarrow> bool" where
  "checkSourceAddress address = address_loop address 3584"

section \<open>parseRoutingActivation\<close>

definition parseRoutingActivation :: "buffer \<Rightarrow> byte result" where
  "parseRoutingActivation data =
     rbind (rd data 0) (\<lambda>d0.
     rbind (rd data 1) (\<lambda>d1.
     let address = (0 OR push_bit 8 (ucast d0)) OR ucast d1 :: u32 in
     if \<not> checkSourceAddress address then Inr UnknownSourceAddressCode
     else rbind (rd data 2) (\<lambda>d2.
          if d2 = 0x00 then Inr SuccessfullyRoutedCode
          else if d2 = 0x01 then Inr SuccessfullyRoutedCode
          else Inr UnsupportedRoutingTypeCode)))"

section \<open>createRoutingActivationResponse\<close>

definition createRoutingActivationResponse :: "u16 \<Rightarrow> buffer \<Rightarrow> byte \<Rightarrow> buffer result" where
  "createRoutingActivationResponse sourceAddress clientAddress responseCode =
     rbind (createGenericHeader ROUTINGACTIVATIONRESPONSE (word_of_int ActivationResponseLength))
       (\<lambda>message.
     rbind (copy_loop 2 message 8 clientAddress 0) (\<lambda>message.
     writes
       [(10, byte_at 8 sourceAddress), (11, byte_at 0 sourceAddress),
        (12, responseCode),
        (13, 0x00), (14, 0x00), (15, 0x00), (16, 0x00)] message))"

section \<open>The loop decides an interval\<close>

lemma address_loop_iff:
  "address_loop address i \<longleftrightarrow> i \<le> address \<and> address \<le> 4095"
proof (induction address i rule: address_loop.induct)
  case (1 address i)
  show ?case
  proof (cases "i \<le> 4095")
    case True
    then have next_i: "unat (i + 1) = unat i + 1"
      by (simp add: word_le_nat_alt unat_word_ariths)
    show ?thesis
    proof (cases "address = i")
      case True
      with \<open>i \<le> 4095\<close> show ?thesis by (subst address_loop.simps) simp
    next
      case False
      then have "unat address \<noteq> unat i" by (simp add: word_unat_eq_iff)
      then have "i + 1 \<le> address \<longleftrightarrow> i \<le> address"
        by (auto simp: word_le_nat_alt next_i)
      with False \<open>i \<le> 4095\<close> 1 show ?thesis
        by (simp add: address_loop.simps [of address i])
    qed
  next
    case False
    then show ?thesis
      by (subst address_loop.simps) (auto dest: order_trans)
  qed
qed

lemma checkSourceAddress_iff:
  "checkSourceAddress address \<longleftrightarrow> 3584 \<le> unat address \<and> unat address \<le> 4095"
  by (simp add: checkSourceAddress_def address_loop_iff word_le_nat_alt)

lemma address_word: "(push_bit 8 (ucast a) OR ucast b :: u32) = ucast (be16 a b)"
  by (rule bit_word_eqI) (auto simp: be16_def bit_simps dest: bit_imp_le_length)

lemma parseRoutingActivation_eq:
  "parseRoutingActivation (Some a # Some b # Some t # r) =
   Inr (if \<not> (0x0E00 \<le> be16 a b \<and> be16 a b \<le> 0x0FFF) then UnknownSourceAddressCode
        else if t = 0x00 \<or> t = 0x01 then SuccessfullyRoutedCode
        else UnsupportedRoutingTypeCode)"
proof -
  have "unat (ucast (be16 a b) :: u32) = unat (be16 a b)"
  proof -
    have "unat (be16 a b) < 2 ^ 16" using unsigned_less [of "be16 a b"] by simp
    then show ?thesis by (simp add: unsigned_ucast_eq take_bit_nat_eq_self_iff)
  qed
  then show ?thesis
    by (auto simp: parseRoutingActivation_def rd_def cell_def address_word
        checkSourceAddress_iff word_le_nat_alt Let_def)
qed

lemma createRoutingActivationResponse_eq:
  assumes "2 \<le> length ca"
  shows "createRoutingActivationResponse sa ca code =
         Inr (map Some (header_bytes (0x00, 0x06) 9)
              @ [ca ! 0, ca ! 1]
              @ map Some [byte_at 8 sa, byte_at 0 sa, code, 0x00, 0x00, 0x00, 0x00])"
proof -
  have two: "take 2 ca = [ca ! 0, ca ! 1]"
    using assms by (cases ca; cases "tl ca") auto
  show ?thesis
    using assms
    by (simp add: createRoutingActivationResponse_def ActivationResponseLength_def
        createGenericHeader_eq put_append_right copy_loop_eq two)
qed

interpretation activation_response: unrecognised_message
  "\<lambda>(sa, ca, code). createRoutingActivationResponse sa ca code"
  "\<lambda>(sa, ca, code). 2 \<le> length ca"
  "\<lambda>_. ROUTINGACTIVATIONRESPONSE"
  "\<lambda>_. 9"
  by unfold_locales
     (auto simp: createRoutingActivationResponse_eq type_table.simps)

end
