(* ===== verification/Doip_Connection.thy ===== *)
theory Doip_Connection
  imports Doip_Timer Doip_Diagnostic Doip_Routing
begin

text \<open>
  A TCP or TLS connection with a client, \<open>libdoipserver/src/DoIPConnection.cpp\<close> and the class in
  \<open>DoIPConnection.h\<close>. The record \<open>DoIPConnection\<close> has one field per member (the member
  \<open>aliveCheckTimer\<close> comes from \<open>timed\<close>, the history from \<open>world\<close>) and the state \<open>'a\<close> of the
  application that owns the connection.

  A \<open>std::function\<close> member holds a closure of type \<open>'h\<close>, \<open>None\<close> while it is empty; the record
  \<open>app\<close> says what calling a closure does, and since the application's callbacks use the
  connection, they are programs on its whole state.

  The timer thread runs concurrently. Its steps are interleaved where the receiving thread
  waits, in \<open>recv\<close> and \<open>SSL_read\<close>: the world answers \<open>TimerSlice\<close> with the number of iterations
  of \<open>waitForResponse\<close> that happen before the blocking call returns.
\<close>

section \<open>State (DoIPConnection.h)\<close>

datatype timer_cb = AliveCheckTimeout  \<comment> \<open>\<open>std::bind(&DoIPConnection::aliveCheckTimeout, this)\<close>\<close>

record ('h, 'a) DoIPConnection = "timer_cb timed" +
  client_sock :: int
  diag_callback :: "'h option"
  close_connection :: "'h option"
  notify_application :: "'h option"
  routedClientAddress :: ptr
  logicalGatewayAddress :: u16
  ssl :: "nat option"
  app_state :: 'a

type_synonym ('h, 'a, 'r) conn_prog = "(('h, 'a) DoIPConnection, 'r) prog"

record ('h, 'a) app =
  run_diag :: "'h \<Rightarrow> u16 \<Rightarrow> buffer \<Rightarrow> int \<Rightarrow> ('h, 'a, unit) conn_prog"
  run_notify :: "'h \<Rightarrow> u16 \<Rightarrow> ('h, 'a, bool) conn_prog"
  run_close :: "'h \<Rightarrow> ('h, 'a, unit) conn_prog"

text \<open>The constructor; \<open>ssl\<close> is \<open>nullptr\<close> for plain TCP.\<close>

definition newDoIPConnection ::
  "history \<Rightarrow> 'a \<Rightarrow> int \<Rightarrow> u16 \<Rightarrow> nat option \<Rightarrow> ('h, 'a) DoIPConnection" where
  "newDoIPConnection tr a sock gateway s =
     \<lparr>trace = tr, aliveCheckTimer = newAliveCheckTimer, client_sock = sock,
      diag_callback = None, close_connection = None, notify_application = None,
      routedClientAddress = None, logicalGatewayAddress = gateway, ssl = s, app_state = a\<rparr>"

definition isSocketActive :: "('h, 'a) DoIPConnection \<Rightarrow> bool" where
  "isSocketActive c \<longleftrightarrow> client_sock c \<noteq> 0"

text \<open>Calling a \<open>std::function\<close> member.\<close>

definition call_member ::
  "(('h, 'a) DoIPConnection \<Rightarrow> 'h option) \<Rightarrow> ('h \<Rightarrow> ('h, 'a, 'r) conn_prog) \<Rightarrow>
   ('h, 'a, 'r) conn_prog" where
  "call_member member run =
     bnd (gets member) (\<lambda>h. case h of None \<Rightarrow> fail BadFunctionCall | Some f \<Rightarrow> run f)"

section \<open>Errors of the TLS layer\<close>

definition SSL_ERROR_SSL :: int where "SSL_ERROR_SSL = 1"
definition SSL_ERROR_SYSCALL :: int where "SSL_ERROR_SYSCALL = 5"
definition SSL_ERROR_ZERO_RETURN :: int where "SSL_ERROR_ZERO_RETURN = 6"

lemmas ssl_errors = SSL_ERROR_SSL_def SSL_ERROR_SYSCALL_def SSL_ERROR_ZERO_RETURN_def

definition parseSSLerror :: "env \<Rightarrow> nat \<Rightarrow> int \<Rightarrow> ('h, 'a, int) conn_prog" where
  "parseSSLerror env s r =
     bnd (ext_ret env (SSL_get_error s r)) (\<lambda>err.
     if err = SSL_ERROR_ZERO_RETURN then return SSL_ERROR_ZERO_RETURN
     else if err = SSL_ERROR_SYSCALL then return SSL_ERROR_SYSCALL
     else if err = SSL_ERROR_SSL then return SSL_ERROR_SSL
     else return err)"

section \<open>Closing\<close>

definition shutdown_ssl :: "env \<Rightarrow> nat \<Rightarrow> ('h, 'a, unit) conn_prog" where
  "shutdown_ssl env s =
     bnd (ext_ret env (SSL_shutdown s)) (\<lambda>r.
     bnd (if r = 0 then ext_ret env (SSL_shutdown s) else return r) (\<lambda>r.
     if r = 1 then return () else bnd (parseSSLerror env s r) (\<lambda>_. return ())))"

definition closeSocket :: "env \<Rightarrow> bool \<Rightarrow> ('h, 'a, unit) conn_prog" where
  "closeSocket env skip_shutdown =
     bnd (gets isSocketActive) (\<lambda>on.
     on_cond on
       (thn (bnd (gets ssl) (\<lambda>s. case s of
               None \<Rightarrow> return ()
             | Some h \<Rightarrow>
                 thn (on_cond (\<not> skip_shutdown) (shutdown_ssl env h))
                (thn (ext_do env (SSL_free h))
                     (modify (\<lambda>c. c\<lparr>ssl := None\<rparr>)))))
       (bnd (gets client_sock) (\<lambda>fd.
        thn (ext_do env (CloseFd fd))
            (modify (\<lambda>c. c\<lparr>client_sock := 0\<rparr>))))))"

definition aliveCheckTimeout :: "env \<Rightarrow> ('h, 'a) app \<Rightarrow> ('h, 'a, unit) conn_prog" where
  "aliveCheckTimeout env app =
     thn (closeSocket env False) (call_member close_connection (run_close app))"

primrec run_timer_cb :: "env \<Rightarrow> ('h, 'a) app \<Rightarrow> timer_cb \<Rightarrow> ('h, 'a, unit) conn_prog" where
  "run_timer_cb env app AliveCheckTimeout = aliveCheckTimeout env app"

definition triggerDisconnection :: "('h, 'a) app \<Rightarrow> ('h, 'a, unit) conn_prog" where
  "triggerDisconnection app = call_member close_connection (run_close app)"

section \<open>Sending\<close>

definition message_cells :: "buffer \<Rightarrow> int \<Rightarrow> buffer result" where
  "message_cells message n =
     (if 0 \<le> n \<and> nat n \<le> length message then Inr (take (nat n) message) else Inl OutOfBounds)"

definition sendMessage :: "env \<Rightarrow> buffer \<Rightarrow> int \<Rightarrow> ('h, 'a, int) conn_prog" where
  "sendMessage env message messageLength =
     bnd (gets ssl) (\<lambda>s.
     bnd (lift (message_cells message messageLength)) (\<lambda>m.
     case s of
       None \<Rightarrow> bnd (gets client_sock) (\<lambda>fd. ext_ret env (Write fd m))
     | Some h \<Rightarrow>
         bnd (ext_ret env (SSL_write h m)) (\<lambda>sentBytes.
         if sentBytes \<le> 0
         then bnd (parseSSLerror env h sentBytes) (\<lambda>_. return (-1))
         else return sentBytes)))"

definition sendNegativeAck :: "env \<Rightarrow> byte \<Rightarrow> ('h, 'a, int) conn_prog" where
  "sendNegativeAck env ackCode =
     bnd (lift (createGenericHeader NEGATIVEACK (word_of_int NACKLength))) (\<lambda>message.
     bnd (lift (writes [(8, ackCode)] message)) (\<lambda>message.
     sendMessage env message (GenericHeaderLength + NACKLength)))"

text \<open>The values printed by \<open>sendDiagnosticPayload\<close> are read one by one.\<close>

fun read_all :: "buffer \<Rightarrow> nat \<Rightarrow> nat \<Rightarrow> unit result" where
  "read_all b i 0 = Inr ()"
| "read_all b i (Suc n) = rbind (rd b i) (\<lambda>_. read_all b (i + 1) n)"

definition sendDiagnosticPayload ::
  "env \<Rightarrow> u16 \<Rightarrow> buffer \<Rightarrow> int \<Rightarrow> ('h, 'a, unit) conn_prog" where
  "sendDiagnosticPayload env sourceAddress data len =
     bnd (lift (read_all data 0 (nat len))) (\<lambda>_.
     bnd (gets routedClientAddress) (\<lambda>ta.
     bnd (lift (createDiagnosticMessage sourceAddress ta data len)) (\<lambda>message.
     bnd (lift (add_int (GenericHeaderLength + DiagnosticMessageMinimumLength) len)) (\<lambda>n.
     bnd (sendMessage env message n) (\<lambda>_. return ())))))"

definition sendDiagnosticAck ::
  "env \<Rightarrow> u16 \<Rightarrow> bool \<Rightarrow> byte \<Rightarrow> ('h, 'a, unit) conn_prog" where
  "sendDiagnosticAck env sourceAddress ackType ackCode =
     bnd (gets routedClientAddress) (\<lambda>p.
     bnd (lift (deref p)) (\<lambda>ra.
     bnd (lift (copy_loop 2 (replicate 2 None) 0 ra 0)) (\<lambda>data_TA.
     bnd (lift (createDiagnosticACK ackType sourceAddress data_TA ackCode)) (\<lambda>message.
     bnd (sendMessage env message (GenericHeaderLength + DiagnosticPositiveACKLength))
       (\<lambda>_. return ())))))"

section \<open>Reacting to a message\<close>

text \<open>A successful activation: the address is saved, the timer is started if it never was.\<close>

definition start_once :: "env \<Rightarrow> ('h, 'a, unit) conn_prog" where
  "start_once env =
     bnd (gets aliveCheckTimer) (\<lambda>timer.
     on_cond (\<not> active timer)
       (thn (update_timer (\<lambda>t. t\<lparr>cb := Some AliveCheckTimeout\<rparr>)) (startTimer env)))"

definition activate_client :: "env \<Rightarrow> buffer \<Rightarrow> ('h, 'a, unit) conn_prog" where
  "activate_client env payload =
     bnd (lift (copy_loop 2 (replicate 2 None) 0 payload 0)) (\<lambda>address.
     thn (modify (\<lambda>c. c\<lparr>routedClientAddress := Some address\<rparr>))
         (start_once env))"

text \<open>\<open>parseDiagnosticMessage(diag_callback, routedClientAddress, payload, payloadLength);\<close>\<close>

definition pass_to_application ::
  "('h, 'a) app \<Rightarrow> ptr \<Rightarrow> u64 \<Rightarrow> ('h, 'a, unit) conn_prog" where
  "pass_to_application app payload payloadLength =
     bnd (gets diag_callback) (\<lambda>dc.
     bnd (gets routedClientAddress) (\<lambda>ra.
     bnd (parseDiagnosticMessage
            (\<lambda>ta m n. case dc of None \<Rightarrow> fail BadFunctionCall | Some h \<Rightarrow> run_diag app h ta m n)
            ra payload (u64_to_int payloadLength))
       (\<lambda>_. return ())))"

definition reactOnReceivedTcpMessage ::
  "env \<Rightarrow> ('h, 'a) app \<Rightarrow> GenericHeaderAction \<Rightarrow> u64 \<Rightarrow> ptr \<Rightarrow> ('h, 'a, int) conn_prog" where
  "reactOnReceivedTcpMessage env app action payloadLength payload =
     bnd (lift (determinate (action_type action))) (\<lambda>t.
     case t of
       NEGATIVEACK \<Rightarrow>
         bnd (lift (determinate (action_value action))) (\<lambda>v.
         bnd (sendNegativeAck env v) (\<lambda>sentBytes.
         if v = IncorrectPatternFormatCode \<or> v = InvalidPayloadLengthCode
         then thn (closeSocket env False) (return (-1))
         else return sentBytes))
     | ROUTINGACTIVATIONREQUEST \<Rightarrow>
         bnd (lift (deref payload)) (\<lambda>p.
         bnd (lift (parseRoutingActivation p)) (\<lambda>res.
         bnd (lift (copy_loop 2 (replicate 2 None) 0 p 0)) (\<lambda>clientAddress.
         bnd (gets logicalGatewayAddress) (\<lambda>gateway.
         bnd (lift (createRoutingActivationResponse gateway clientAddress res)) (\<lambda>message.
         bnd (sendMessage env message (GenericHeaderLength + ActivationResponseLength))
           (\<lambda>sentBytes.
         if res = UnknownSourceAddressCode \<or> res = UnsupportedRoutingTypeCode
         then thn (closeSocket env False) (return (-1))
         else
           thn (activate_client env p) (return sentBytes)))))))
     | ALIVECHECKRESPONSE \<Rightarrow> return 0
     | DIAGNOSTICMESSAGE \<Rightarrow>
         bnd (lift (deref payload)) (\<lambda>p.
         bnd (lift (rd p 2)) (\<lambda>d2.
         bnd (lift (rd p 3)) (\<lambda>d3.
         bnd (call_member notify_application (\<lambda>h. run_notify app h (be16 d2 d3))) (\<lambda>ack.
         thn (on_cond ack (pass_to_application app payload payloadLength)) (return (-1))))))
     | _ \<Rightarrow> return (-1))"

section \<open>Receiving\<close>

definition handle_SSL_read_error :: "env \<Rightarrow> nat \<Rightarrow> int \<Rightarrow> ('h, 'a, int) conn_prog" where
  "handle_SSL_read_error env s readBytes =
     bnd (parseSSLerror env s readBytes) (\<lambda>err.
     if err = SSL_ERROR_ZERO_RETURN then return 0
     else if err = SSL_ERROR_SYSCALL \<or> err = SSL_ERROR_SSL
     then thn (closeSocket env True) (return (-1))
     else return (-1))"

text \<open>The timer thread's share while the calling thread is blocked.\<close>

definition timer_slice :: "env \<Rightarrow> ('h, 'a) app \<Rightarrow> ('h, 'a, unit) conn_prog" where
  "timer_slice env app =
     bnd (gets aliveCheckTimer) (\<lambda>t.
     on_cond (0 < timerThreads t)
       (bnd (ext_ret env TimerSlice) (\<lambda>n.
        bnd (waitForResponse (nat n) env (run_timer_cb env app)) (\<lambda>_. return ()))))"

text \<open>
  One blocking read: the pointer or the descriptor is evaluated, the thread waits, the call
  returns. \<open>SSL_read\<close> takes the length as an \<open>int\<close>. If the timer thread has released the TLS
  object in the meantime, the call runs on a released object.
\<close>

definition blocking_read :: "env \<Rightarrow> ('h, 'a) app \<Rightarrow> u64 \<Rightarrow> ('h, 'a, answer) conn_prog" where
  "blocking_read env app remainingPayload =
     bnd (gets ssl) (\<lambda>s. case s of
       Some h \<Rightarrow>
         thn (timer_slice env app)
        (bnd (gets ssl) (\<lambda>s'.
         if s' = Some h then ext_call env (SSL_read h (u64_to_int remainingPayload))
         else fail UseAfterFree))
     | None \<Rightarrow>
         bnd (gets client_sock) (\<lambda>fd.
         thn (timer_slice env app) (ext_call env (Recv fd remainingPayload))))"

text \<open>
  The documented contract of a read that returns a positive number \<open>r\<close>: it has stored \<open>r\<close> bytes,
  no more than asked for.
\<close>

definition read_contract :: "u64 \<Rightarrow> answer \<Rightarrow> bool" where
  "read_contract n a \<longleftrightarrow> ret a = int (length (bytes a)) \<and> ret a \<le> uint n \<and> ret a \<le> int_max"

lemma read_decreases:
  assumes "0 < ret a" and "read_contract n a"
  shows "unat (word_of_int (ret a) :: u64) = nat (ret a)"
    and "nat (ret a) \<le> unat n"
    and "unat (n - word_of_int (ret a)) = unat n - nat (ret a)"
proof -
  show r: "unat (word_of_int (ret a) :: u64) = nat (ret a)"
    using assms by (intro unat_word_of_int) (auto simp: read_contract_def int_max_def)
  have "ret a \<le> uint n" using assms(2) by (simp add: read_contract_def)
  then have "nat (ret a) \<le> nat (uint n)" by (rule nat_mono)
  then show le: "nat (ret a) \<le> unat n" by simp
  show "unat (n - word_of_int (ret a)) = unat n - nat (ret a)"
    using r le by (simp add: unat_sub word_le_nat_alt)
qed

text \<open>
  The loop of \<open>receiveFixedNumberOfBytesFromTcpOrTls\<close>; it returns the number of bytes and the
  array. Results of \<open>int\<close> type are converted to \<open>unsigned long\<close>.
\<close>

function receive_loop ::
  "env \<Rightarrow> ('h, 'a) app \<Rightarrow> u64 \<Rightarrow> u64 \<Rightarrow> buffer \<Rightarrow> ('h, 'a, u64 \<times> buffer) conn_prog" where
  "receive_loop env app remainingPayload payloadPos receivedData =
     (if 0 < remainingPayload then
        bnd (blocking_read env app remainingPayload) (\<lambda>a.
        if ret a \<le> 0 then
          bnd (gets ssl) (\<lambda>s. case s of
            Some h \<Rightarrow> bnd (handle_SSL_read_error env h (ret a)) (\<lambda>r.
                        return (word_of_int r, receivedData))
          | None \<Rightarrow> return (payloadPos, receivedData))
        else if \<not> read_contract remainingPayload a then fail EnvContract
        else bnd (lift (put_bytes receivedData (unat payloadPos) (bytes a))) (\<lambda>receivedData'.
             receive_loop env app (remainingPayload - word_of_int (ret a))
               (payloadPos + word_of_int (ret a)) receivedData'))
      else return (payloadPos, receivedData))"
  by pat_completeness auto
termination
  by (relation "measure (\<lambda>(env, app, remainingPayload, payloadPos, receivedData).
        unat remainingPayload)")
     (auto simp: read_decreases word_less_nat_alt)

declare receive_loop.simps [simp del]

definition receiveFixedNumberOfBytesFromTcpOrTls ::
  "env \<Rightarrow> ('h, 'a) app \<Rightarrow> u64 \<Rightarrow> buffer \<Rightarrow> ('h, 'a, u64 \<times> buffer) conn_prog" where
  "receiveFixedNumberOfBytesFromTcpOrTls env app payloadLength receivedData =
     receive_loop env app payloadLength 0 receivedData"

text \<open>
  The payload of a message: \<open>nullptr\<close> if none is announced, \<open>None\<close> if the number of received
  bytes, cut to \<open>unsigned int\<close>, is not the announced one.
\<close>

definition receive_payload :: "env \<Rightarrow> ('h, 'a) app \<Rightarrow> u64 \<Rightarrow> ('h, 'a, ptr option) conn_prog" where
  "receive_payload env app payloadLength =
     (if 0 < payloadLength then
        bnd (ext_ret env (NewArray payloadLength)) (\<lambda>ok.
        if ok < 0 then fail BadAlloc
        else
          bnd (receiveFixedNumberOfBytesFromTcpOrTls env app payloadLength
                 (replicate (unat payloadLength) None)) (\<lambda>(n, payload).
          let receivedPayloadBytes = ucast n :: u32
          in if (ucast receivedPayloadBytes :: u64) \<noteq> payloadLength then return None
             else return (Some (Some payload))))
      else return (Some None))"

definition receiveTcpOrTlsMessage :: "env \<Rightarrow> ('h, 'a) app \<Rightarrow> ('h, 'a, int) conn_prog" where
  "receiveTcpOrTlsMessage env app =
     bnd (receiveFixedNumberOfBytesFromTcpOrTls env app (word_of_int GenericHeaderLength)
            (replicate (nat GenericHeaderLength) None)) (\<lambda>(n, genericHeader).
     bnd (gets aliveCheckTimer) (\<lambda>timer.
     let readBytes = ucast n :: u32 in
     if readBytes = word_of_int GenericHeaderLength \<and> \<not> timeout timer then
       bnd (lift (parseGenericHeader genericHeader GenericHeaderLength)) (\<lambda>doipHeaderAction.
       bnd (lift (determinate (action_payloadLength doipHeaderAction))) (\<lambda>payloadLength.
       bnd (receive_payload env app payloadLength) (\<lambda>r. case r of
         None \<Rightarrow> thn (closeSocket env False) (return 0)
       | Some payload \<Rightarrow>
           bnd (gets aliveCheckTimer) (\<lambda>timer.
           thn (on_cond (active timer) (resetTimer env))
               (reactOnReceivedTcpMessage env app doipHeaderAction payloadLength payload)))))
     else thn (closeSocket env False) (return 0)))"

section \<open>Configuration and destruction\<close>

definition setGeneralInactivityTime :: "u16 \<Rightarrow> ('h, 'a, unit) conn_prog" where
  "setGeneralInactivityTime seconds =
     (if 0 < seconds then setTimer seconds
      else update_timer (\<lambda>t. t\<lparr>disabled := True\<rparr>))"

definition setCallback :: "'h \<Rightarrow> 'h \<Rightarrow> 'h \<Rightarrow> ('h, 'a, unit) conn_prog" where
  "setCallback dc dmn ccb =
     modify (\<lambda>c. c\<lparr>diag_callback := Some dc, notify_application := Some dmn,
                   close_connection := Some ccb\<rparr>)"

end
