(* ===== verification/Doip_Connection_Ops.thy ===== *)
theory Doip_Connection_Ops
  imports Doip_Connection
begin

text \<open>
  What each operation of a connection does, case by case: the effect on the members, the
  messages written, and what reaches the application.
\<close>

section \<open>Updates in a canonical order\<close>

text \<open>The history first, then the timer, then the members in the order of the record.\<close>

lemma conn_update_order [simp]:
  "c\<lparr>aliveCheckTimer := t, trace := h\<rparr> = c\<lparr>trace := h, aliveCheckTimer := t\<rparr>"
  "c\<lparr>client_sock := fd, trace := h\<rparr> = c\<lparr>trace := h, client_sock := fd\<rparr>"
  "c\<lparr>routedClientAddress := p, trace := h\<rparr> = c\<lparr>trace := h, routedClientAddress := p\<rparr>"
  "c\<lparr>ssl := s, trace := h\<rparr> = c\<lparr>trace := h, ssl := s\<rparr>"
  "c\<lparr>app_state := a, trace := h\<rparr> = c\<lparr>trace := h, app_state := a\<rparr>"
  "c\<lparr>client_sock := fd, aliveCheckTimer := t\<rparr> = c\<lparr>aliveCheckTimer := t, client_sock := fd\<rparr>"
  "c\<lparr>routedClientAddress := p, aliveCheckTimer := t\<rparr> =
   c\<lparr>aliveCheckTimer := t, routedClientAddress := p\<rparr>"
  "c\<lparr>ssl := s, aliveCheckTimer := t\<rparr> = c\<lparr>aliveCheckTimer := t, ssl := s\<rparr>"
  "c\<lparr>app_state := a, aliveCheckTimer := t\<rparr> = c\<lparr>aliveCheckTimer := t, app_state := a\<rparr>"
  "c\<lparr>ssl := s, client_sock := fd\<rparr> = c\<lparr>client_sock := fd, ssl := s\<rparr>"
  "c\<lparr>ssl := s, routedClientAddress := p\<rparr> = c\<lparr>routedClientAddress := p, ssl := s\<rparr>"
  "c\<lparr>app_state := a, ssl := s\<rparr> = c\<lparr>ssl := s, app_state := a\<rparr>"
  "c\<lparr>app_state := a, client_sock := fd\<rparr> = c\<lparr>client_sock := fd, app_state := a\<rparr>"
  for c :: "('h, 'a) DoIPConnection"
  by (rule DoIPConnection.equality; simp)+

lemma ssl_unchanged: "ssl c = s \<Longrightarrow> c\<lparr>ssl := s\<rparr> = (c :: ('h, 'a) DoIPConnection)"
  by (rule DoIPConnection.equality) simp_all

section \<open>Effects on the history\<close>

text \<open>A piece of history in which nothing is read from the peer and only \<open>ms\<close> is written.\<close>

definition only_writes :: "buffer list \<Rightarrow> history \<Rightarrow> bool" where
  "only_writes ms tr \<longleftrightarrow> received tr = [] \<and> written tr = ms"

lemma only_writes_append:
  "only_writes ms tr \<Longrightarrow> only_writes ms' tr' \<Longrightarrow> only_writes (ms @ ms') (tr @ tr')"
  by (simp add: only_writes_def)

lemma parseSSLerror_run [run_simps]:
  "parseSSLerror env h r c =
   Inr (ret (env (trace c) (SSL_get_error h r)),
        c\<lparr>trace := trace c @ [(SSL_get_error h r, env (trace c) (SSL_get_error h r))]\<rparr>)"
  by (simp add: parseSSLerror_def run_simps ssl_errors)

lemma bnd_parseSSLerror_run [run_simps]:
  "bnd (parseSSLerror env h r) f c =
   f (ret (env (trace c) (SSL_get_error h r)))
     (c\<lparr>trace := trace c @ [(SSL_get_error h r, env (trace c) (SSL_get_error h r))]\<rparr>)"
  by (simp add: bnd_def parseSSLerror_run)

lemma shutdown_ssl_run:
  "\<exists>tr. shutdown_ssl env h c = Inr ((), c\<lparr>trace := trace c @ tr\<rparr>) \<and> only_writes [] tr"
  by (auto simp: shutdown_ssl_def run_simps only_writes_def received_def written_def)

lemma closeSocket_inactive: "client_sock c = 0 \<Longrightarrow> closeSocket env skip c = Inr ((), c)"
  by (simp add: closeSocket_def run_simps isSocketActive_def)

lemma closeSocket_plain:
  assumes "client_sock c \<noteq> 0" and "ssl c = None"
  shows "closeSocket env skip c =
         Inr ((), c\<lparr>trace := trace c @ [(CloseFd (client_sock c),
                                        env (trace c) (CloseFd (client_sock c)))],
                    client_sock := 0\<rparr>)"
  using assms by (simp add: closeSocket_def run_simps isSocketActive_def)

lemma closeSocket_skip:
  assumes "client_sock c \<noteq> 0" and "ssl c = Some h"
  shows "\<exists>a b. closeSocket env True c =
         Inr ((), c\<lparr>trace := trace c @ [(SSL_free h, a), (CloseFd (client_sock c), b)],
                    client_sock := 0, ssl := None\<rparr>)"
  using assms by (auto simp: closeSocket_def run_simps isSocketActive_def)

lemma shutdown_ssl_calls:
  "\<exists>pre. shutdown_ssl env h c = Inr ((), c\<lparr>trace := trace c @ pre\<rparr>) \<and>
         hd (calls_of pre) = SSL_shutdown h \<and> length pre \<in> {1, 2, 3} \<and>
         set (calls_of pre) \<subseteq> {SSL_shutdown h} \<union> range (SSL_get_error h)"
  by (auto simp: shutdown_ssl_def run_simps)

text \<open>Closing a connection over TLS: the shutdown, then the release, then the descriptor.\<close>

lemma closeSocket_tls:
  assumes "client_sock c \<noteq> 0" and "ssl c = Some h"
  shows "\<exists>tr pre. closeSocket env False c =
           Inr ((), c\<lparr>trace := trace c @ tr, client_sock := 0, ssl := None\<rparr>) \<and>
         calls_of tr = pre @ [SSL_free h, CloseFd (client_sock c)] \<and>
         hd pre = SSL_shutdown h \<and> length pre \<in> {1, 2, 3} \<and>
         set pre \<subseteq> {SSL_shutdown h} \<union> range (SSL_get_error h)"
proof -
  obtain pre where "shutdown_ssl env h c = Inr ((), c\<lparr>trace := trace c @ pre\<rparr>)"
    and pre: "hd (calls_of pre) = SSL_shutdown h" "length pre \<in> {1, 2, 3}"
      "set (calls_of pre) \<subseteq> {SSL_shutdown h} \<union> range (SSL_get_error h)"
    using shutdown_ssl_calls [of env h c] by blast
  with assms obtain a b where
    "closeSocket env False c = Inr ((), c\<lparr>trace := trace c @ pre @ [(SSL_free h, a), (CloseFd (client_sock c), b)],
                client_sock := 0, ssl := None\<rparr>)"
    by (auto simp: closeSocket_def run_simps isSocketActive_def)
  with pre show ?thesis
    by (intro exI [of _ "pre @ [(SSL_free h, a), (CloseFd (client_sock c), b)]"]
        exI [of _ "calls_of pre"]) (simp, simp add: calls_of_def)
qed

text \<open>The timer's share of a wait during which it does not expire: it only looks at the clock.\<close>

lemma timer_slice_waits:
  assumes "armed (aliveCheckTimer c) start limit k" and "0 < timerThreads (aliveCheckTimer c)"
    and "e = (TimerSlice, env (trace c) TimerSlice)" and "n = nat (ret (snd e))"
    and "\<not> expires_within env start limit n (trace c @ [e])"
  shows "\<exists>tr. timer_slice env app c = Inr ((), c\<lparr>trace := trace c @ tr\<rparr>) \<and>
              calls_of tr = TimerSlice # replicate n Clock"
proof -
  have "\<exists>tr. waitForResponse n env (run_timer_cb env app) (c\<lparr>trace := trace c @ [e]\<rparr>) =
        Inr (False, (c\<lparr>trace := trace c @ [e]\<rparr>)\<lparr>trace := trace (c\<lparr>trace := trace c @ [e]\<rparr>) @ tr\<rparr>) \<and>
      calls_of tr = replicate n Clock"
    by (rule waitForResponse_waits) (use assms(1,5) in simp_all)
  then obtain tr where "waitForResponse n env (run_timer_cb env app) (c\<lparr>trace := trace c @ [e]\<rparr>) =
        Inr (False, c\<lparr>trace := trace c @ e # tr\<rparr>)" and "calls_of tr = replicate n Clock" by auto
  then show ?thesis
    using assms(2-4) by (intro exI [of _ "e # tr"]) (simp add: timer_slice_def run_simps bnd_def)
qed

lemma closeSocket_run:
  assumes "client_sock c \<noteq> 0"
  shows "\<exists>tr. closeSocket env skip c =
              Inr ((), c\<lparr>trace := trace c @ tr, client_sock := 0, ssl := None\<rparr>) \<and>
              only_writes [] tr"
proof (cases "ssl c")
  case None
  let ?close = "(CloseFd (client_sock c), env (trace c) (CloseFd (client_sock c)))"
  have "c\<lparr>trace := t, client_sock := 0, ssl := None\<rparr> = c\<lparr>trace := t, client_sock := 0\<rparr>" for t
    using None by (intro ssl_unchanged) simp
  with assms None show ?thesis
    by (intro exI [of _ "[?close]"])
       (simp add: closeSocket_plain only_writes_def received_def written_def)
next
  case (Some h)
  show ?thesis
  proof (cases skip)
    case True
    obtain a b where "closeSocket env True c =
        Inr ((), c\<lparr>trace := trace c @ [(SSL_free h, a), (CloseFd (client_sock c), b)],
                   client_sock := 0, ssl := None\<rparr>)"
      using closeSocket_skip [OF assms Some] by blast
    moreover have "only_writes [] [(SSL_free h, a), (CloseFd (client_sock c), b)]"
      by (simp add: only_writes_def received_def written_def)
    moreover have "skip = True" using True by simp
    ultimately show ?thesis by blast
  next
    case False
    obtain tr where tr: "shutdown_ssl env h c = Inr ((), c\<lparr>trace := trace c @ tr\<rparr>)"
      and quiet: "only_writes [] tr"
      using shutdown_ssl_run by blast
    from assms Some False tr obtain a b where run:
      "closeSocket env skip c =
         Inr ((), c\<lparr>trace := trace c @ tr @ [(SSL_free h, a), (CloseFd (client_sock c), b)],
                    client_sock := 0, ssl := None\<rparr>)"
      by (auto simp: closeSocket_def run_simps isSocketActive_def)
    have "only_writes [] (tr @ [(SSL_free h, a), (CloseFd (client_sock c), b)])"
      using quiet by (simp add: only_writes_def received_def written_def)
    with run show ?thesis by blast
  qed
qed

lemma message_cells_all: "n = int (length m) \<Longrightarrow> message_cells m n = Inr m"
  by (simp add: message_cells_def)

lemma sendMessage_run:
  assumes "n = int (length m)"
  shows "\<exists>r tr. sendMessage env m n c = Inr (r, c\<lparr>trace := trace c @ tr\<rparr>) \<and> only_writes [m] tr"
proof (cases "ssl c")
  case None
  with assms show ?thesis
    by (simp add: sendMessage_def run_simps message_cells_all only_writes_def received_def
        written_def)
next
  case (Some h)
  let ?a = "env (trace c) (SSL_write h m)"
  let ?e = "(SSL_get_error h (ret ?a), env (trace c @ [(SSL_write h m, ?a)]) (SSL_get_error h (ret ?a)))"
  have "only_writes [m] [(SSL_write h m, ?a)]" "only_writes [m] [(SSL_write h m, ?a), ?e]"
    by (simp_all add: only_writes_def received_def written_def)
  with assms Some show ?thesis
    by (simp add: sendMessage_def run_simps message_cells_all)
qed

section \<open>Messages the library sends by itself\<close>

definition nack_message :: "byte \<Rightarrow> byte list" where
  "nack_message code = header_bytes (0x00, 0x00) 1 @ [code]"

definition activation_message :: "u16 \<Rightarrow> byte \<Rightarrow> byte \<Rightarrow> byte \<Rightarrow> byte list" where
  "activation_message gateway a b code =
     header_bytes (0x00, 0x06) 9 @
     [a, b, byte_at 8 gateway, byte_at 0 gateway, code, 0x00, 0x00, 0x00, 0x00]"

definition ack_message :: "bool \<Rightarrow> u16 \<Rightarrow> byte \<Rightarrow> byte \<Rightarrow> byte \<Rightarrow> byte list" where
  "ack_message positive sa a b code =
     header_bytes (0x80, if positive then 0x02 else 0x03) 5 @
     [byte_at 8 sa, byte_at 0 sa, a, b, code]"

definition diagnostic_message :: "u16 \<Rightarrow> byte \<Rightarrow> byte \<Rightarrow> byte list \<Rightarrow> byte list" where
  "diagnostic_message sa a b data =
     header_bytes (0x80, 0x01) (word_of_int (4 + int (length data))) @
     [byte_at 8 sa, byte_at 0 sa, a, b] @ data"

lemma sendNegativeAck_run:
  "\<exists>r tr. sendNegativeAck env code c = Inr (r, c\<lparr>trace := trace c @ tr\<rparr>) \<and>
          only_writes [map Some (nack_message code)] tr"
proof -
  have "createGenericHeader NEGATIVEACK (word_of_int NACKLength) =
      Inr (map Some (header_bytes (0x00, 0x00) 1) @ [None])"
    by (simp add: createGenericHeader_eq NACKLength_def)
  then have "sendNegativeAck env code c = sendMessage env (map Some (nack_message code)) 9 c"
    by (simp add: sendNegativeAck_def run_simps put_append_right nack_message_def
        GenericHeaderLength_def NACKLength_def del: word_of_int_1)
  then show ?thesis
    using sendMessage_run [of 9 "map Some (nack_message code)" env c]
    by (simp add: nack_message_def)
qed

lemma copy_two:
  "copy_loop 2 [None, None] 0 (x # y # r) 0 = Inr [x, y]"
  "copy_loop 2 (replicate 2 None) 0 (x # y # r) 0 = Inr [x, y]"
  by (simp_all add: copy_loop_eq)

lemma sendDiagnosticAck_run:
  assumes "routedClientAddress c = Some [Some a, Some b]"
  shows "\<exists>tr. sendDiagnosticAck env sa positive code c = Inr ((), c\<lparr>trace := trace c @ tr\<rparr>) \<and>
              only_writes [map Some (ack_message positive sa a b code)] tr"
proof -
  let ?m = "map Some (ack_message positive sa a b code)"
  have m: "createDiagnosticACK positive sa [Some a, Some b] code = Inr ?m"
    by (simp add: createDiagnosticACK_eq ack_message_def)
  obtain r tr where "sendMessage env ?m 13 c = Inr (r, c\<lparr>trace := trace c @ tr\<rparr>)"
    and "only_writes [?m] tr"
    using sendMessage_run [of 13 ?m env c] by (auto simp: ack_message_def)
  then show ?thesis
    by (auto simp: sendDiagnosticAck_def assms run_simps copy_two m bnd_def
        GenericHeaderLength_def DiagnosticPositiveACKLength_def)
qed

lemma sendDiagnosticAck_unrouted:
  "routedClientAddress c = None \<Longrightarrow> sendDiagnosticAck env sa positive code c = Inl BadPointer"
  by (simp add: sendDiagnosticAck_def run_simps)

lemma read_all_initialised: "i + n \<le> length bs \<Longrightarrow> read_all (map Some bs) i n = Inr ()"
  by (induction n arbitrary: i) simp_all

lemma sendDiagnosticPayload_run:
  assumes "routedClientAddress c = Some [Some a, Some b]"
    and "int (length data) \<le> int_max - 12"
  shows "\<exists>tr. sendDiagnosticPayload env sa (map Some data) (int (length data)) c =
              Inr ((), c\<lparr>trace := trace c @ tr\<rparr>) \<and>
              only_writes [map Some (diagnostic_message sa a b data)] tr"
proof -
  let ?m = "map Some (diagnostic_message sa a b data)"
  have m: "createDiagnosticMessage sa (Some [Some a, Some b]) (map Some data) (int (length data))
      = Inr ?m"
    using assms(2) createDiagnosticMessage_eq [of "[Some a, Some b]" "int (length data)"
        "map Some data" sa]
    by (simp add: diagnostic_message_def int_max_def)
  have n: "add_int (GenericHeaderLength + DiagnosticMessageMinimumLength) (int (length data)) =
      Inr (12 + int (length data))"
    using assms(2) by (simp add: add_int_def int_max_def int_min_def GenericHeaderLength_def
        DiagnosticMessageMinimumLength_def)
  obtain r tr where "sendMessage env ?m (12 + int (length data)) c =
      Inr (r, c\<lparr>trace := trace c @ tr\<rparr>)" and "only_writes [?m] tr"
    using sendMessage_run [of "12 + int (length data)" ?m env c]
    by (auto simp: diagnostic_message_def)
  then show ?thesis
    by (auto simp: sendDiagnosticPayload_def assms(1) run_simps read_all_initialised m n bnd_def)
qed

section \<open>Reacting, branch by branch\<close>

lemma react_nack:
  assumes "action_type action = Some NEGATIVEACK" and "action_value action = Some v"
    and "client_sock c \<noteq> 0"
  shows "\<exists>r tr s' fd.
           reactOnReceivedTcpMessage env app action n payload c =
           Inr (r, c\<lparr>trace := trace c @ tr, ssl := s', client_sock := fd\<rparr>) \<and>
           only_writes [map Some (nack_message v)] tr \<and>
           (if v = IncorrectPatternFormatCode \<or> v = InvalidPayloadLengthCode
            then fd = 0 \<and> s' = None \<and> r = -1
            else fd = client_sock c \<and> s' = ssl c)"
proof -
  obtain r tr where s: "sendNegativeAck env v c = Inr (r, c\<lparr>trace := trace c @ tr\<rparr>)"
    and w: "only_writes [map Some (nack_message v)] tr"
    using sendNegativeAck_run by blast
  obtain tr' where k: "closeSocket env False (c\<lparr>trace := trace c @ tr\<rparr>) =
      Inr ((), c\<lparr>trace := trace c @ tr @ tr', client_sock := 0, ssl := None\<rparr>)"
    and q: "only_writes [] tr'"
    using closeSocket_run [of "c\<lparr>trace := trace c @ tr\<rparr>" env False] assms(3) by auto
  have both: "only_writes [map Some (nack_message v)] (tr @ tr')"
    using only_writes_append [OF w q] by simp
  show ?thesis
  proof (cases "v = IncorrectPatternFormatCode \<or> v = InvalidPayloadLengthCode")
    case True
    with assms s k both show ?thesis
      by (auto simp: reactOnReceivedTcpMessage_def run_simps bnd_def thn_def)
  next
    case False
    with assms s w show ?thesis
      by (auto simp: reactOnReceivedTcpMessage_def run_simps bnd_def
          intro!: exI [of _ tr] exI [of _ "ssl c"] exI [of _ "client_sock c"])
  qed
qed

text \<open>The answer to a routing activation request, as a function of its first three bytes.\<close>

definition activation_code :: "byte \<Rightarrow> byte \<Rightarrow> byte \<Rightarrow> byte" where
  "activation_code a b t =
     (if \<not> (0x0E00 \<le> be16 a b \<and> be16 a b \<le> 0x0FFF) then UnknownSourceAddressCode
      else if t = 0x00 \<or> t = 0x01 then SuccessfullyRoutedCode
      else UnsupportedRoutingTypeCode)"

lemma activation_code_cases:
  "activation_code a b t = SuccessfullyRoutedCode \<or>
   activation_code a b t = UnknownSourceAddressCode \<or>
   activation_code a b t = UnsupportedRoutingTypeCode"
  by (simp add: activation_code_def)

lemma routing_codes_distinct [simp]:
  "SuccessfullyRoutedCode \<noteq> UnknownSourceAddressCode"
  "SuccessfullyRoutedCode \<noteq> UnsupportedRoutingTypeCode"
  by (simp_all add: routing_consts)

text \<open>The timer before and after an activation.\<close>

definition started :: "timer_cb AliveCheckTimer \<Rightarrow> timer_cb AliveCheckTimer \<Rightarrow> bool" where
  "started t t' \<longleftrightarrow>
     (if active t then t' = t
      else if disabled t then t' = t\<lparr>cb := Some AliveCheckTimeout\<rparr>
      else \<exists>now. t' = t\<lparr>cb := Some AliveCheckTimeout, startTime := Some now, active := True,
                        timerThreads := Suc (timerThreads t)\<rparr>)"

lemma start_once_run:
  "\<exists>tr t. start_once env c = Inr ((), c\<lparr>trace := trace c @ tr, aliveCheckTimer := t\<rparr>) \<and>
          only_writes [] tr \<and> started (aliveCheckTimer c) t"
proof -
  let ?t = "aliveCheckTimer c"
  let ?a = "env (trace c) Clock"
  have same: "c\<lparr>trace := trace c @ [], aliveCheckTimer := ?t\<rparr> = c"
    by (rule DoIPConnection.equality) simp_all
  have quiet: "only_writes [] [(Clock, ?a)]" "only_writes [] []"
    by (simp_all add: only_writes_def received_def written_def)
  show ?thesis
  proof (cases "active ?t")
    case True
    then have "start_once env c = Inr ((), c)"
      by (simp add: start_once_def run_simps)
    with True same quiet(2) show ?thesis
      by (intro exI [of _ "[]"] exI [of _ ?t]) (simp add: started_def)
  next
    case False
    show ?thesis
    proof (cases "disabled ?t")
      case True
      have "start_once env c = Inr ((), c\<lparr>aliveCheckTimer := ?t\<lparr>cb := Some AliveCheckTimeout\<rparr>\<rparr>)"
        using False True by (simp add: start_once_def startTimer_def run_simps)
      then show ?thesis
        using False True quiet(2)
        by (intro exI [of _ "[]"] exI [of _ "?t\<lparr>cb := Some AliveCheckTimeout\<rparr>"])
           (simp add: started_def)
    next
      case enabled: False
      have "start_once env c =
          Inr ((), c\<lparr>trace := trace c @ [(Clock, ?a)],
                     aliveCheckTimer := ?t\<lparr>cb := Some AliveCheckTimeout,
                       startTime := Some (ret ?a), active := True,
                       timerThreads := Suc (timerThreads ?t)\<rparr>\<rparr>)"
        using False enabled
        by (simp add: start_once_def startTimer_def resetTimer_def run_simps)
      moreover have "started ?t (?t\<lparr>cb := Some AliveCheckTimeout, startTime := Some (ret ?a),
          active := True, timerThreads := Suc (timerThreads ?t)\<rparr>)"
        using False enabled by (auto simp: started_def)
      ultimately show ?thesis using quiet(1) by blast
    qed
  qed
qed

lemma activate_client_eq:
  "activate_client env (x # y # r) =
   thn (modify (\<lambda>c. c\<lparr>routedClientAddress := Some [x, y]\<rparr>)) (start_once env)"
  by (simp add: activate_client_def copy_two bnd_lift_Inr)

text \<open>The request reduces to sending the response and then closing or activating.\<close>

lemma react_activation_run:
  assumes "action_type action = Some ROUTINGACTIVATIONREQUEST"
    and "code = activation_code a b t"
  shows "reactOnReceivedTcpMessage env app action n (Some (Some a # Some b # Some t # r)) c =
         bnd (sendMessage env
                (map Some (activation_message (logicalGatewayAddress c) a b code)) 17)
           (\<lambda>sentBytes.
            if code \<noteq> SuccessfullyRoutedCode then thn (closeSocket env False) (return (-1))
            else thn (activate_client env (Some a # Some b # Some t # r)) (return sentBytes)) c"
proof -
  let ?m = "map Some (activation_message (logicalGatewayAddress c) a b code)"
  have parse: "parseRoutingActivation (Some a # Some b # Some t # r) = Inr code"
    by (simp add: parseRoutingActivation_eq assms(2) activation_code_def)
  have build: "createRoutingActivationResponse (logicalGatewayAddress c) [Some a, Some b] code
      = Inr ?m"
    by (simp add: createRoutingActivationResponse_eq activation_message_def)
  have rejected: "code = UnknownSourceAddressCode \<or> code = UnsupportedRoutingTypeCode \<longleftrightarrow>
      code \<noteq> SuccessfullyRoutedCode"
    using activation_code_cases [of a b t] routing_codes_distinct unfolding assms(2) by metis
  show ?thesis
    using assms(1)
    by (simp add: reactOnReceivedTcpMessage_def run_simps parse build copy_two rejected
        GenericHeaderLength_def ActivationResponseLength_def cong: if_cong)
qed

lemma react_activation_refused:
  assumes "action_type action = Some ROUTINGACTIVATIONREQUEST"
    and "code = activation_code a b t" and "code \<noteq> SuccessfullyRoutedCode"
    and "client_sock c \<noteq> 0"
  shows "\<exists>tr. reactOnReceivedTcpMessage env app action n (Some (Some a # Some b # Some t # r)) c =
              Inr (-1, c\<lparr>trace := trace c @ tr, client_sock := 0, ssl := None\<rparr>) \<and>
              only_writes [map Some (activation_message (logicalGatewayAddress c) a b code)] tr"
proof -
  let ?m = "map Some (activation_message (logicalGatewayAddress c) a b code)"
  obtain q tr where s: "sendMessage env ?m 17 c = Inr (q, c\<lparr>trace := trace c @ tr\<rparr>)"
    and w: "only_writes [?m] tr"
    using sendMessage_run [of 17 ?m env c] by (auto simp: activation_message_def)
  obtain tr' where k: "closeSocket env False (c\<lparr>trace := trace c @ tr\<rparr>) =
      Inr ((), c\<lparr>trace := trace c @ tr @ tr', client_sock := 0, ssl := None\<rparr>)"
    and q: "only_writes [] tr'"
    using closeSocket_run [of "c\<lparr>trace := trace c @ tr\<rparr>" env False] assms(4) by auto
  from only_writes_append [OF w q] have "only_writes [?m] (tr @ tr')" by simp
  moreover have "reactOnReceivedTcpMessage env app action n
      (Some (Some a # Some b # Some t # r)) c =
      Inr (-1, c\<lparr>trace := trace c @ tr @ tr', client_sock := 0, ssl := None\<rparr>)"
    using assms(3)
    by (simp add: react_activation_run [OF assms(1,2)] bnd_def thn_def s k return_def)
  ultimately show ?thesis by blast
qed

lemma react_activation_accepted:
  assumes "action_type action = Some ROUTINGACTIVATIONREQUEST"
    and "activation_code a b t = SuccessfullyRoutedCode"
  shows "\<exists>q tr tm.
           reactOnReceivedTcpMessage env app action n (Some (Some a # Some b # Some t # r)) c =
           Inr (q, c\<lparr>trace := trace c @ tr, aliveCheckTimer := tm,
                     routedClientAddress := Some [Some a, Some b]\<rparr>) \<and>
           only_writes [map Some (activation_message (logicalGatewayAddress c) a b
                                    SuccessfullyRoutedCode)] tr \<and>
           started (aliveCheckTimer c) tm"
proof -
  let ?m = "map Some (activation_message (logicalGatewayAddress c) a b SuccessfullyRoutedCode)"
  let ?route = "\<lambda>c. c\<lparr>routedClientAddress := Some [Some a, Some b]\<rparr>"
  obtain q tr where s: "sendMessage env ?m 17 c = Inr (q, c\<lparr>trace := trace c @ tr\<rparr>)"
    and w: "only_writes [?m] tr"
    using sendMessage_run [of 17 ?m env c] by (auto simp: activation_message_def)
  let ?c = "?route (c\<lparr>trace := trace c @ tr\<rparr>)"
  obtain tr' tm where k: "start_once env ?c =
      Inr ((), ?c\<lparr>trace := trace ?c @ tr', aliveCheckTimer := tm\<rparr>)"
    and quiet: "only_writes [] tr'" and st: "started (aliveCheckTimer c) tm"
    using start_once_run [of env ?c] by auto
  from only_writes_append [OF w quiet] have "only_writes [?m] (tr @ tr')" by simp
  moreover have "reactOnReceivedTcpMessage env app action n
      (Some (Some a # Some b # Some t # r)) c =
      Inr (q, c\<lparr>trace := trace c @ tr @ tr', aliveCheckTimer := tm,
                routedClientAddress := Some [Some a, Some b]\<rparr>)"
    using k
    by (simp add: react_activation_run [OF assms(1) refl] assms(2) activate_client_eq
        bnd_def thn_def modify_def return_def s)
  ultimately show ?thesis using st by blast
qed

text \<open>A diagnostic message goes to the application first.\<close>

lemma react_diagnostic:
  assumes "action_type action = Some DIAGNOSTICMESSAGE"
    and "notify_application c = Some h"
    and "payload = Some (map Some (a # b # t1 # t0 # body))"
  shows "reactOnReceivedTcpMessage env app action n payload c =
         bnd (run_notify app h (be16 t1 t0))
           (\<lambda>ack. thn (on_cond ack (pass_to_application app payload n)) (return (-1))) c"
  using assms
  by (simp add: reactOnReceivedTcpMessage_def run_simps call_member_def rd_def cell_def bnd_def
      split: sum.splits)

lemma u64_to_int_small:
  assumes "n < 2 ^ 31"
  shows "u64_to_int (of_nat n) = int n"
proof -
  have "take_bit 64 n = n" using assms by (intro take_bit_nat_eq_self) simp
  then have "(ucast (of_nat n :: u64) :: u32) = of_nat n" by (simp add: unsigned_of_nat)
  moreover have "sint (of_nat n :: u32) = int n"
    using assms by (simp add: signed_of_nat signed_take_bit_int_eq_self_iff)
  ultimately show ?thesis by (simp add: u64_to_int_def)
qed

lemma u64_to_int_large:
  assumes "2 ^ 31 \<le> unat w" and "unat w < 2 ^ 32"
  shows "u64_to_int w < 0"
proof -
  have "unat w div 2 ^ 31 = 1" using assms by (intro div_nat_eqI) simp_all
  then have "bit (unat w) 31" by (simp add: bit_iff_odd)
  then have "bit w 31" by (simp add: bit_unsigned_iff)
  then have "bit (uint (ucast w :: u32)) 31"
    by (simp add: bit_simps)
  then show ?thesis
    by (simp add: u64_to_int_def sint_uint signed_take_bit_negative_iff)
qed

lemma u64_to_int_minimum:
  assumes "unat w < 2 ^ 32" and "0 \<le> u64_to_int w"
  shows "u64_to_int w = int (unat w)"
  using assms u64_to_int_large [of w] u64_to_int_small [of "unat w"]
  by (cases "unat w < 2 ^ 31") simp_all

lemma pass_to_application_match:
  assumes "routedClientAddress c = Some [Some a, Some b]" and "diag_callback c = Some h"
    and "payload = Some (map Some (a # b # t1 # t0 # body))"
    and "n = of_nat (4 + length body)" and "length body < 2 ^ 31 - 4"
  shows "pass_to_application app payload n c =
         run_diag app h (be16 t1 t0) (map Some body) (int (length body)) c"
proof -
  have n: "u64_to_int n = 4 + int (length (map Some body))"
    using u64_to_int_small [of "4 + length body"] assms(4,5) by simp
  show ?thesis
    using assms(1-3)
    by (simp add: pass_to_application_def run_simps parseDiagnosticMessage_delivers [OF n]
        thn_def bnd_def return_def split: sum.splits)
qed

lemma pass_to_application_other:
  assumes "routedClientAddress c = Some (Some ra # Some rb # x)" and "(a, b) \<noteq> (ra, rb)"
    and "payload = Some (map Some (a # b # rest))" and "4 \<le> u64_to_int n"
  shows "pass_to_application app payload n c = Inr ((), c)"
  using assms(1,3)
  by (simp add: pass_to_application_def run_simps bnd_def return_def
      parseDiagnosticMessage_other_address [OF assms(4,2)])

lemma pass_to_application_short:
  "u64_to_int n < 4 \<Longrightarrow> pass_to_application app payload n c = Inr ((), c)"
  by (simp add: pass_to_application_def run_simps parseDiagnosticMessage_short)

lemma pass_to_application_unrouted:
  assumes "routedClientAddress c = None" and "4 \<le> u64_to_int n"
  shows "pass_to_application app (Some p) n c = Inl BadPointer"
  using assms(1)
  by (simp add: pass_to_application_def run_simps bnd_def
      parseDiagnosticMessage_no_address [OF assms(2)])

lemma react_other:
  assumes "action_type action = Some t"
    and "t \<notin> {NEGATIVEACK, ROUTINGACTIVATIONREQUEST, DIAGNOSTICMESSAGE}"
  shows "\<exists>q. reactOnReceivedTcpMessage env app action n payload c = Inr (q, c)"
  using assms by (cases t) (simp_all add: reactOnReceivedTcpMessage_def run_simps)

section \<open>The protocol of a connection\<close>

text \<open>
  What a client sees of a connection: whether it is open, and which address it has activated.
\<close>

datatype peer = Closed | Unrouted | Routed byte byte

definition peer_of :: "('h, 'a) DoIPConnection \<Rightarrow> peer" where
  "peer_of c =
     (if client_sock c = 0 then Closed
      else case routedClientAddress c of
             Some [Some a, Some b] \<Rightarrow> Routed a b
           | _ \<Rightarrow> Unrouted)"

text \<open>What the library itself answers to a message, and the state after it.\<close>

fun library_reply :: "u16 \<Rightarrow> verdict \<Rightarrow> byte list \<Rightarrow> byte list list" where
  "library_reply gateway (Rejected code n) p = [nack_message code]"
| "library_reply gateway (Accepted t n) p =
     (if t = ROUTINGACTIVATIONREQUEST
      then [activation_message gateway (p ! 0) (p ! 1) (activation_code (p ! 0) (p ! 1) (p ! 2))]
      else [])"

fun next_peer :: "verdict \<Rightarrow> byte list \<Rightarrow> peer \<Rightarrow> peer" where
  "next_peer (Rejected code n) p s =
     (if code = IncorrectPatternFormatCode \<or> code = InvalidPayloadLengthCode then Closed else s)"
| "next_peer (Accepted t n) p s =
     (if t = ROUTINGACTIVATIONREQUEST
      then (if activation_code (p ! 0) (p ! 1) (p ! 2) = SuccessfullyRoutedCode
            then Routed (p ! 0) (p ! 1) else Closed)
      else s)"

text \<open>Messages that the library handles alone.\<close>

definition library_message :: "verdict \<Rightarrow> byte list \<Rightarrow> bool" where
  "library_message v p =
     (case v of Rejected code n \<Rightarrow> True
      | Accepted t n \<Rightarrow>
          t \<noteq> DIAGNOSTICMESSAGE \<and> (t = ROUTINGACTIVATIONREQUEST \<longrightarrow> 3 \<le> length p))"

text \<open>The step of the code simulates the step of the protocol.\<close>

definition implements ::
  "u16 \<Rightarrow> verdict \<Rightarrow> byte list \<Rightarrow> ('h, 'a) DoIPConnection \<Rightarrow> ('h, 'a) DoIPConnection \<Rightarrow> bool" where
  "implements gateway v p c c' \<longleftrightarrow>
     peer_of c' = next_peer v p (peer_of c) \<and>
     (\<exists>tr. trace c' = trace c @ tr \<and>
           only_writes (map (map Some) (library_reply gateway v p)) tr) \<and>
     app_state c' = app_state c \<and>
     logicalGatewayAddress c' = logicalGatewayAddress c"

lemma implementsI:
  assumes "peer_of c' = next_peer v p (peer_of c)" and "trace c' = trace c @ tr"
    and "only_writes (map (map Some) (library_reply gateway v p)) tr"
    and "app_state c' = app_state c" and "logicalGatewayAddress c' = logicalGatewayAddress c"
  shows "implements gateway v p c c'"
  using assms by (auto simp: implements_def)

lemma verdict_ofE:
  assumes "verdict_of action = Some v"
  obtains (rejected) code n where "v = Rejected code n"
      "action_type action = Some NEGATIVEACK" "action_value action = Some code"
  | (accepted) t n where "v = Accepted t n" "action_type action = Some t" "t \<noteq> NEGATIVEACK"
  using assms
  by (auto simp: verdict_of_def split: option.splits if_splits)

lemma nack_implements:
  assumes "action_type action = Some NEGATIVEACK" and "action_value action = Some code"
    and on: "client_sock c \<noteq> 0"
  shows "\<exists>q c'. reactOnReceivedTcpMessage env app action n payload c = Inr (q, c') \<and>
                implements (logicalGatewayAddress c) (Rejected code m) p c c'"
proof -
  from react_nack [OF assms, of env app n payload] obtain q tr s' fd where
    run: "reactOnReceivedTcpMessage env app action n payload c =
      Inr (q, c\<lparr>trace := trace c @ tr, client_sock := fd, ssl := s'\<rparr>)"
    and w: "only_writes [map Some (nack_message code)] tr"
    and e: "if code = IncorrectPatternFormatCode \<or> code = InvalidPayloadLengthCode
            then fd = 0 \<and> s' = None \<and> q = -1 else fd = client_sock c \<and> s' = ssl c"
    by auto
  have "implements (logicalGatewayAddress c) (Rejected code m) p c
      (c\<lparr>trace := trace c @ tr, client_sock := fd, ssl := s'\<rparr>)"
    using w e on by (intro implementsI [where tr = tr]) (auto simp: peer_of_def split: if_splits)
  with run show ?thesis by blast
qed

lemma activation_implements:
  assumes ty: "action_type action = Some ROUTINGACTIVATIONREQUEST" and "3 \<le> length p"
    and on: "client_sock c \<noteq> 0"
  shows "\<exists>q c'. reactOnReceivedTcpMessage env app action n (Some (map Some p)) c = Inr (q, c') \<and>
                implements (logicalGatewayAddress c) (Accepted ROUTINGACTIVATIONREQUEST m) p c c'"
proof -
  obtain a b x r where p: "p = a # b # x # r"
    using assms(2) by (metis One_nat_def Suc_1 Suc_le_length_iff numeral_3_eq_3)
  show ?thesis
  proof (cases "activation_code a b x = SuccessfullyRoutedCode")
    case ok: True
    from react_activation_accepted [OF ty ok, of env app n "map Some r" c] obtain q tr tm where
      run: "reactOnReceivedTcpMessage env app action n (Some (map Some p)) c =
        Inr (q, c\<lparr>trace := trace c @ tr, aliveCheckTimer := tm,
                 routedClientAddress := Some [Some a, Some b]\<rparr>)"
      and w: "only_writes [map Some (activation_message (logicalGatewayAddress c) a b
                                       SuccessfullyRoutedCode)] tr"
      unfolding p list.map by blast
    have "implements (logicalGatewayAddress c) (Accepted ROUTINGACTIVATIONREQUEST m) p c
        (c\<lparr>trace := trace c @ tr, aliveCheckTimer := tm, routedClientAddress := Some [Some a, Some b]\<rparr>)"
      using w on by (intro implementsI [where tr = tr]) (auto simp: p ok peer_of_def)
    with run show ?thesis by blast
  next
    case no: False
    from react_activation_refused [OF ty refl no on, of env app n "map Some r"] obtain tr where
      run: "reactOnReceivedTcpMessage env app action n (Some (map Some p)) c =
        Inr (-1, c\<lparr>trace := trace c @ tr, client_sock := 0, ssl := None\<rparr>)"
      and w: "only_writes [map Some (activation_message (logicalGatewayAddress c) a b
                                       (activation_code a b x))] tr"
      unfolding p list.map by blast
    have "implements (logicalGatewayAddress c) (Accepted ROUTINGACTIVATIONREQUEST m) p c
        (c\<lparr>trace := trace c @ tr, client_sock := 0, ssl := None\<rparr>)"
      using w no by (intro implementsI [where tr = tr]) (auto simp: p peer_of_def)
    with run show ?thesis by blast
  qed
qed

lemma react_implements:
  assumes v: "verdict_of action = Some v" and lib: "library_message v p"
    and payload: "p \<noteq> [] \<Longrightarrow> payload = Some (map Some p)"
    and on: "client_sock c \<noteq> 0" and gateway: "gateway = logicalGatewayAddress c"
  shows "\<exists>q c'. reactOnReceivedTcpMessage env app action n payload c = Inr (q, c') \<and>
                implements gateway v p c c'"
  using v
proof (cases rule: verdict_ofE)
  case (rejected code m)
  then show ?thesis using nack_implements [OF rejected(2,3) on] by (simp add: gateway)
next
  case (accepted t m)
  show ?thesis
  proof (cases "t = ROUTINGACTIVATIONREQUEST")
    case False
    with lib accepted(1) have "t \<noteq> DIAGNOSTICMESSAGE" by (simp add: library_message_def)
    with False accepted react_other [OF accepted(2), of env app n payload c]
    obtain q where "reactOnReceivedTcpMessage env app action n payload c = Inr (q, c)" by auto
    moreover have "implements gateway v p c c"
      using False by (intro implementsI [where tr = "[]"])
        (simp_all add: accepted(1) only_writes_def)
    ultimately show ?thesis by blast
  next
    case True
    with lib accepted(1) have len: "3 \<le> length p" by (simp add: library_message_def)
    then have "payload = Some (map Some p)" by (intro payload) auto
    with True activation_implements [OF _ len on] accepted show ?thesis by (simp add: gateway)
  qed
qed

end
