(* ===== verification/Doip_Connection_Inv.thy ===== *)
theory Doip_Connection_Inv
  imports Doip_Connection_Ops
begin

text \<open>
  What holds of a connection however long it runs. The library calls back into the application,
  and the timer thread calls back into the library, so the statements rest on three interfaces:
  \<open>slice_invariant\<close> is what the timer thread's share of a blocking call must keep,
  \<open>blocking_invariant\<close> adds what a read must keep, \<open>reading_invariant\<close> what the treatment of a
  failed read must keep, and \<open>connection_invariant\<close> what the reaction
  to a message and the application's callbacks must keep. The routines of each stage are then
  shown, once, to keep any such predicate.
\<close>

section \<open>Interfaces\<close>

locale slice_invariant =
  fixes env :: env
    and app :: "('h, 'a) app"
    and I :: "('h, 'a) DoIPConnection \<Rightarrow> bool"
  assumes slice_clock: "preserves I (ext_ret env Clock)"
    and slice_sched: "preserves I (ext_ret env TimerSlice)"
    and slice_fire: "I c \<Longrightarrow> \<not> disabled (aliveCheckTimer c) \<Longrightarrow>
      run_timer_cb env app k
        (c\<lparr>aliveCheckTimer := (aliveCheckTimer c)\<lparr>disabled := True, timeout := True\<rparr>\<rparr>) =
      Inr (x, c') \<Longrightarrow> I c'"
begin

lemma inv_timer_iteration:
  assumes "timer_iteration env (run_timer_cb env app) c = Inr (x, c')"
    and "I c" and "\<not> disabled (aliveCheckTimer c)"
  shows "I c'"
proof -
  let ?c = "c\<lparr>trace := trace c @ [(Clock, env (trace c) Clock)]\<rparr>"
  have I: "I ?c" using slice_clock assms(2) by (auto simp: preserves_def ext_ret_run)
  from assms(1) show ?thesis
  proof (cases rule: timer_iteration_cases)
    case waits
    with I show ?thesis by simp
  next
    case (fires k)
    from slice_fire [OF I, of k x c'] fires(2) assms(3) show ?thesis by simp
  qed
qed

lemma inv_timer_thread: "preserves I (waitForResponse n env (run_timer_cb env app))"
proof (induction n)
  case 0
  show ?case by (simp add: pres)
next
  case (Suc n)
  show ?case
    by (rule preservesI)
       (auto simp: prog_eq_Inr split: if_splits
         intro: preservesD [OF Suc] dest: inv_timer_iteration)
qed

lemma inv_timer_slice: "preserves I (timer_slice env app)"
  unfolding timer_slice_def by (intro pres slice_sched inv_timer_thread)

end

locale blocking_invariant = slice_invariant +
  assumes inv_recv: "preserves I (ext_call env (Recv fd k))"
    and inv_ssl_read: "I c \<Longrightarrow> ssl c = Some s \<Longrightarrow> I (c\<lparr>trace := trace c @ [(SSL_read s i, a)]\<rparr>)"
    and inv_alloc: "preserves I (ext_ret env (NewArray k))"
begin

lemma inv_blocking_read: "preserves I (blocking_read env app k)"
proof (rule preservesI)
  fix c a c'
  assume I: "I c" and run: "blocking_read env app k c = Inr (a, c')"
  show "I c'"
  proof (cases "ssl c")
    case None
    have "preserves I (thn (timer_slice env app) (ext_call env (Recv (client_sock c) k)))"
      by (intro pres inv_timer_slice inv_recv)
    with None I run show ?thesis
      by (auto simp: blocking_read_def run_simps dest: preservesD)
  next
    case (Some s)
    with run obtain c1 where c1: "timer_slice env app c = Inr ((), c1)" and "ssl c1 = Some s"
      and c': "c' = c1\<lparr>trace := trace c1 @ [(SSL_read s (u64_to_int k),
                                            env (trace c1) (SSL_read s (u64_to_int k)))]\<rparr>"
      by (auto simp: blocking_read_def prog_eq_Inr ext_call_run fail_def split: if_splits)
    from preservesD [OF inv_timer_slice c1 I] \<open>ssl c1 = Some s\<close> show ?thesis
      unfolding c' by (rule inv_ssl_read)
  qed
qed

end

locale reading_invariant = blocking_invariant +
  assumes inv_read_error: "I c \<Longrightarrow> ssl c = Some s \<Longrightarrow>
      handle_SSL_read_error env s i c = Inr (x, c') \<Longrightarrow> I c'"
begin

lemma inv_read_failed:
  "preserves I (bnd (gets ssl) (\<lambda>s. case s of
     Some h \<Rightarrow> bnd (handle_SSL_read_error env h r) (\<lambda>q. return (f q))
   | None \<Rightarrow> return x))"
  by (rule preservesI)
     (auto simp: prog_eq_Inr dest: inv_read_error split: option.splits)

lemma inv_receive_loop: "preserves I (receive_loop env app k pos b)"
proof (induction "unat k" arbitrary: k pos b rule: less_induct)
  case less
  have next_read: "preserves I (if \<not> read_contract k a then fail EnvContract
      else bnd (lift (put_bytes b (unat pos) (bytes a))) (\<lambda>b'.
        receive_loop env app (k - word_of_int (ret a)) (pos + word_of_int (ret a)) b'))"
    if "0 < k" "0 < ret a" for a
  proof (cases "read_contract k a")
    case True
    with that have "unat (k - word_of_int (ret a)) < unat k"
      by (auto simp: read_decreases word_less_nat_alt)
    with True show ?thesis by (simp add: less pres)
  qed (simp add: pres)
  show ?case
    unfolding receive_loop.simps [of env app k pos b]
    by (auto intro!: pres inv_blocking_read inv_read_failed next_read)
qed

lemma inv_receive_payload: "preserves I (receive_payload env app n)"
  unfolding receive_payload_def receiveFixedNumberOfBytesFromTcpOrTls_def Let_def
  by (intro pres inv_alloc inv_receive_loop)

end

locale connection_invariant = reading_invariant +
  assumes inv_send: "preserves I (sendMessage env m n)"
    and inv_close: "preserves I (closeSocket env False)"
    and inv_reset: "I c \<Longrightarrow> active (aliveCheckTimer c) \<Longrightarrow>
      I (c\<lparr>trace := trace c @ [(Clock, a)],
           aliveCheckTimer := (aliveCheckTimer c)\<lparr>startTime := Some t, active := True\<rparr>\<rparr>)"
    and inv_activate: "preserves I (activate_client env p)"
    and inv_diag: "preserves I (run_diag app h ta m i)"
    and inv_notify: "preserves I (run_notify app h ta)"
begin

lemma inv_negative_ack: "preserves I (sendNegativeAck env code)"
  unfolding sendNegativeAck_def by (intro pres inv_send)

lemma inv_pass_to_application: "preserves I (pass_to_application app p n)"
  unfolding pass_to_application_def by (intro pres inv_diag)

lemma inv_react: "preserves I (reactOnReceivedTcpMessage env app action n payload)"
proof -
  have "preserves I (call_member notify_application (\<lambda>h. run_notify app h ta))" for ta
    unfolding call_member_def by (intro pres inv_notify)
  then show ?thesis
    unfolding reactOnReceivedTcpMessage_def
    by (intro pres; auto split: PayloadType.split
        intro!: pres inv_close inv_negative_ack inv_send inv_activate inv_pass_to_application)
qed

lemma inv_reset_timer:
  "preserves I (bnd (gets aliveCheckTimer) (\<lambda>timer. thn (on_cond (active timer) (resetTimer env)) m))"
  if "preserves I m"
  using that
  by (intro preservesI)
     (auto simp: prog_eq_Inr resetTimer_def run_simps split: if_splits
       dest: inv_reset preservesD)

text \<open>The receiving thread keeps \<open>I\<close>, whatever the peer sends and however it is interleaved.\<close>

lemma inv_receive: "preserves I (receiveTcpOrTlsMessage env app)"
  unfolding receiveTcpOrTlsMessage_def receiveFixedNumberOfBytesFromTcpOrTls_def Let_def
  by (intro pres inv_receive_loop inv_receive_payload inv_reset_timer inv_react inv_close)

end

section \<open>The members stay consistent\<close>

text \<open>
  The application's side of the bargain: its callbacks keep what the library keeps. A callback
  that uses the connection through the library's methods does (\<open>sends_keep\<close> below).
\<close>

definition app_keeps :: "('h, 'a) app \<Rightarrow> (('h, 'a) DoIPConnection \<Rightarrow> bool) \<Rightarrow> bool" where
  "app_keeps app I \<longleftrightarrow>
     (\<forall>h ta m n. preserves I (run_diag app h ta m n)) \<and>
     (\<forall>h ta. preserves I (run_notify app h ta)) \<and>
     (\<forall>h. preserves I (run_close app h))"

lemma app_keepsD:
  assumes "app_keeps app I"
  shows "preserves I (run_diag app h ta m n)" "preserves I (run_notify app h' ta')"
    "preserves I (run_close app h'')"
  using assms by (simp_all add: app_keeps_def)

text \<open>
  The timer has a thread exactly when it is active, so there is never a second one; an active
  timer has its callback and its client; and a closed socket has no TLS object left.
\<close>

definition timer_of_client :: "timer_cb AliveCheckTimer \<Rightarrow> ptr \<Rightarrow> bool" where
  "timer_of_client t client \<longleftrightarrow>
     timer_inv t \<and> timerThreads t = (if active t then 1 else 0) \<and>
     (active t \<longrightarrow> cb t = Some AliveCheckTimeout \<and> client \<noteq> None)"

definition conn_ok :: "('h, 'a) DoIPConnection \<Rightarrow> bool" where
  "conn_ok c \<longleftrightarrow>
     timer_of_client (aliveCheckTimer c) (routedClientAddress c) \<and>
     (client_sock c = 0 \<longrightarrow> ssl c = None)"

lemma timer_of_client_started:
  "timer_of_client t p \<Longrightarrow> started t t' \<Longrightarrow> timer_of_client t' (Some a)"
  by (auto simp: timer_of_client_def started_def timer_inv_def split: if_splits)

lemma conn_ok_trace [simp]: "conn_ok (c\<lparr>trace := tr\<rparr>) = conn_ok c"
  by (simp add: conn_ok_def)

lemma conn_ok_app_state [simp]: "conn_ok (c\<lparr>app_state := a\<rparr>) = conn_ok c"
  by (simp add: conn_ok_def)

lemma conn_ok_calls [pres]:
  "preserves conn_ok (ext_call env k)"
  "preserves conn_ok (ext_ret env k)"
  "preserves conn_ok (ext_do env k)"
  by (simp_all add: preserves_def run_simps)

lemma conn_ok_parseSSLerror [pres]: "preserves conn_ok (parseSSLerror env h r)"
  unfolding parseSSLerror_def by (intro pres)

lemma conn_ok_sendMessage [pres]: "preserves conn_ok (sendMessage env m n)"
  unfolding sendMessage_def by (intro pres)

lemma conn_ok_sendDiagnosticAck [pres]: "preserves conn_ok (sendDiagnosticAck env sa ack code)"
  unfolding sendDiagnosticAck_def by (intro pres)

lemma conn_ok_sendDiagnosticPayload [pres]:
  "preserves conn_ok (sendDiagnosticPayload env sa data n)"
  unfolding sendDiagnosticPayload_def by (intro pres)

lemma closeSocket_cases:
  "\<exists>tr. closeSocket env skip c =
        Inr ((), if client_sock c = 0 then c
                 else c\<lparr>trace := trace c @ tr, client_sock := 0, ssl := None\<rparr>) \<and>
        only_writes [] tr"
  using closeSocket_run [of c env skip] closeSocket_inactive [of c env skip]
  by (cases "client_sock c = 0") (auto intro: exI [of _ "[]"] simp: only_writes_def)

lemma closeSocketE:
  assumes "closeSocket env skip c = Inr (x, c')"
  obtains tr where "only_writes [] tr"
    and "c' = (if client_sock c = 0 then c
               else c\<lparr>trace := trace c @ tr, client_sock := 0, ssl := None\<rparr>)"
  using closeSocket_cases [of env skip c] assms by auto

lemma conn_ok_closeSocket [pres]: "preserves conn_ok (closeSocket env skip)"
proof (rule preservesI)
  fix c x c'
  assume "conn_ok c" and "closeSocket env skip c = Inr (x, c')"
  then show "conn_ok c'"
    using closeSocket_cases [of env skip c] by (auto simp: conn_ok_def split: if_splits)
qed

lemma activate_client_split:
  assumes "activate_client env p c = Inr (x, c')"
  obtains a tr t where "c' = c\<lparr>trace := trace c @ tr, aliveCheckTimer := t,
                              routedClientAddress := Some a\<rparr>"
    and "only_writes [] tr" and "started (aliveCheckTimer c) t"
proof -
  from assms obtain a where
    s: "start_once env (c\<lparr>routedClientAddress := Some a\<rparr>) = Inr (x, c')"
    by (auto simp: activate_client_def prog_eq_Inr)
  with start_once_run [of env "c\<lparr>routedClientAddress := Some a\<rparr>"] that show ?thesis by auto
qed

lemma conn_ok_activate [pres]: "preserves conn_ok (activate_client env p)"
proof (rule preservesI)
  fix c x c'
  assume "conn_ok c" and "activate_client env p c = Inr (x, c')"
  then show "conn_ok c'"
    by (auto elim!: activate_client_split simp: conn_ok_def intro: timer_of_client_started)
qed

text \<open>A predicate that knows nothing of the timer's flags survives the firing of the timer.\<close>

lemma slice_fireI:
  assumes "preserves I (closeSocket env False)" and "\<And>h. preserves I (run_close app h)"
    and "I (c\<lparr>aliveCheckTimer := (aliveCheckTimer c)\<lparr>disabled := True, timeout := True\<rparr>\<rparr>)"
    and "run_timer_cb env app k
           (c\<lparr>aliveCheckTimer := (aliveCheckTimer c)\<lparr>disabled := True, timeout := True\<rparr>\<rparr>) =
         Inr (x, c')"
  shows "I c'"
proof -
  have "preserves I (run_timer_cb env app k)"
    unfolding call_member_def
    by (cases k) (auto simp: aliveCheckTimeout_def call_member_def
        intro!: pres assms(1,2))
  with assms(3,4) show ?thesis by (auto dest: preservesD)
qed

lemma conn_ok_invariant:
  assumes "app_keeps app conn_ok"
  shows "connection_invariant env app conn_ok"
proof unfold_locales
  note app = app_keepsD [OF assms]
  show "conn_ok c'"
    if "conn_ok c" and fire: "run_timer_cb env app k
      (c\<lparr>aliveCheckTimer := aliveCheckTimer c\<lparr>disabled := True, timeout := True\<rparr>\<rparr>) = Inr (x, c')"
    for c k x c'
    using conn_ok_closeSocket app(3) _ fire
    by (rule slice_fireI) (use that(1) in \<open>auto simp: conn_ok_def timer_of_client_def timer_inv_def\<close>)
  show "conn_ok (c\<lparr>trace := trace c @ [(Clock, a)],
      aliveCheckTimer := (aliveCheckTimer c)\<lparr>startTime := Some t, active := True\<rparr>\<rparr>)"
    if "conn_ok c" "active (aliveCheckTimer c)" for c a t
    using that by (auto simp: conn_ok_def timer_of_client_def timer_inv_def)
  show "conn_ok c'" if "conn_ok c" "ssl c = Some s" "handle_SSL_read_error env s i c = Inr (x, c')"
    for c s i x c'
  proof -
    have "preserves conn_ok (handle_SSL_read_error env s i)"
      unfolding handle_SSL_read_error_def by (intro pres)
    with that show ?thesis by (auto dest: preservesD)
  qed
qed (auto intro!: pres app_keepsD [OF assms])

section \<open>TLS objects are not released twice\<close>

text \<open>
  The TLS object a call uses, and histories that use none after \<open>SSL_free\<close>. Every call on a TLS
  object counts but \<open>SSL_read\<close>, which can block while the timer thread releases its object.
\<close>

fun tls_use :: "ext \<Rightarrow> nat option" where
  "tls_use (SSL_write h m) = Some h"
| "tls_use (SSL_get_error h r) = Some h"
| "tls_use (SSL_shutdown h) = Some h"
| "tls_use (SSL_free h) = Some h"
| "tls_use (SSL_set_fd h fd) = Some h"
| "tls_use (SSL_accept h) = Some h"
| "tls_use _ = None"

fun tls_freed :: "ext list \<Rightarrow> nat list" where
  "tls_freed [] = []"
| "tls_freed (SSL_free h # ks) = h # tls_freed ks"
| "tls_freed (_ # ks) = tls_freed ks"

fun tls_safe_from :: "nat set \<Rightarrow> ext list \<Rightarrow> bool" where
  "tls_safe_from freed [] = True"
| "tls_safe_from freed (k # ks) =
     ((case tls_use k of None \<Rightarrow> True | Some h \<Rightarrow> h \<notin> freed) \<and>
      tls_safe_from (freed \<union> set (tls_freed [k])) ks)"

definition tls_safe :: "history \<Rightarrow> bool" where
  "tls_safe tr \<longleftrightarrow> tls_safe_from {} (calls_of tr)"

definition tls_released :: "history \<Rightarrow> nat set" where
  "tls_released tr = set (tls_freed (calls_of tr))"

lemma tls_freed_append: "tls_freed (ks @ ks') = tls_freed ks @ tls_freed ks'"
  by (induction ks rule: tls_freed.induct) simp_all

lemma tls_safe_from_append:
  "tls_safe_from freed (ks @ ks') \<longleftrightarrow>
   tls_safe_from freed ks \<and> tls_safe_from (freed \<union> set (tls_freed ks)) ks'"
proof (induction ks arbitrary: freed)
  case (Cons k ks)
  have "tls_freed (k # ks) = tls_freed [k] @ tls_freed ks"
    using tls_freed_append [of "[k]" ks] by simp
  with Cons show ?case by (auto simp: Un_assoc)
qed simp

lemma tls_safe_append [simp]:
  "tls_safe (tr @ tr') \<longleftrightarrow> tls_safe tr \<and> tls_safe_from (tls_released tr) (calls_of tr')"
  by (simp add: tls_safe_def tls_released_def tls_safe_from_append)

lemma tls_released_append [simp]:
  "tls_released (tr @ tr') = tls_released tr \<union> set (tls_freed (calls_of tr'))"
  by (simp add: tls_released_def tls_freed_append)

definition tls_ok :: "('h, 'a) DoIPConnection \<Rightarrow> bool" where
  "tls_ok c \<longleftrightarrow>
     tls_safe (trace c) \<and> (\<forall>h. ssl c = Some h \<longrightarrow> h \<notin> tls_released (trace c))"

text \<open>A call on the connection's own object, or on none.\<close>

definition own_call :: "('h, 'a) DoIPConnection \<Rightarrow> ext \<Rightarrow> bool" where
  "own_call c k \<longleftrightarrow>
     tls_freed [k] = [] \<and> (case tls_use k of None \<Rightarrow> True | Some h \<Rightarrow> ssl c = Some h)"

lemma tls_ok_call: "own_call c k \<Longrightarrow> tls_ok c \<Longrightarrow> tls_ok (c\<lparr>trace := trace c @ [(k, a)]\<rparr>)"
  by (auto simp: tls_ok_def own_call_def split: option.splits)

lemma wp_parseSSLerror [wp]:
  "hoare (\<lambda>c. let a = env (trace c) (SSL_get_error h r) in
              Q (ret a) (c\<lparr>trace := trace c @ [(SSL_get_error h r, a)]\<rparr>))
     E (parseSSLerror env h r) Q"
  by (simp add: hoare_def parseSSLerror_run Let_def)

lemma tls_ok_sendMessage [pres]: "preserves tls_ok (sendMessage env m n)"
proof (rule preserves_hoare [where E = UNIV])
  show "hoare tls_ok UNIV (sendMessage env m n) (\<lambda>_. tls_ok)"
    unfolding sendMessage_def
    by (rule hoare_pre, (rule wp)+)
       (auto simp: Let_def tls_ok_def split: sum.splits option.splits)
qed

lemma tls_ok_closeSocket [pres]: "preserves tls_ok (closeSocket env skip)"
proof (rule preserves_hoare [where E = UNIV])
  show "hoare tls_ok UNIV (closeSocket env skip) (\<lambda>_. tls_ok)"
    unfolding closeSocket_def shutdown_ssl_def
    by (rule hoare_pre, (rule wp)+)
       (auto simp: Let_def tls_ok_def split: sum.splits option.splits)
qed

lemma tls_ok_other_call: "tls_use k = None \<Longrightarrow> preserves tls_ok (ext_ret env k)"
  by (rule preservesI) (cases k; auto simp: tls_ok_def run_simps)

lemma tls_ok_unread [simp]:
  "tls_ok (c\<lparr>routedClientAddress := p\<rparr>) = tls_ok c"
  "tls_ok (c\<lparr>aliveCheckTimer := t\<rparr>) = tls_ok c"
  "tls_ok (c\<lparr>app_state := a\<rparr>) = tls_ok c"
  by (simp_all add: tls_ok_def)

lemma tls_ok_activate [pres]: "preserves tls_ok (activate_client env p)"
  unfolding activate_client_def start_once_def startTimer_def resetTimer_def
  by (intro pres preserves_update_timer preserves_modify tls_ok_other_call) simp_all

lemma tls_ok_sendDiagnosticAck [pres]: "preserves tls_ok (sendDiagnosticAck env sa ack code)"
  unfolding sendDiagnosticAck_def by (intro pres)

lemma tls_ok_sendDiagnosticPayload [pres]: "preserves tls_ok (sendDiagnosticPayload env sa data n)"
  unfolding sendDiagnosticPayload_def by (intro pres)

lemma tls_ok_read_error:
  "hoare (\<lambda>c. tls_ok c \<and> ssl c = Some h) UNIV (handle_SSL_read_error env h r) (\<lambda>_. tls_ok)"
  unfolding handle_SSL_read_error_def
  by (rule hoare_pre, (rule wp hoare_preserves [OF tls_ok_closeSocket])+)
     (auto simp: tls_ok_def Let_def)

lemma tls_ok_invariant:
  assumes "app_keeps app tls_ok"
  shows "connection_invariant env app tls_ok"
proof unfold_locales
  show "tls_ok c'"
    if "tls_ok c" and fire: "run_timer_cb env app k
      (c\<lparr>aliveCheckTimer := aliveCheckTimer c\<lparr>disabled := True, timeout := True\<rparr>\<rparr>) = Inr (x, c')"
    for c k x c'
    using tls_ok_closeSocket app_keepsD(3) [OF assms] _ fire
    by (rule slice_fireI) (use that(1) in simp)
  show "preserves tls_ok (ext_call env (Recv fd k))" for fd k
    by (rule preservesI) (auto simp: run_simps tls_ok_def)
  show "tls_ok (c\<lparr>trace := trace c @ [(SSL_read s i, a)]\<rparr>)"
    if "tls_ok c" "ssl c = Some s" for c s i a
    using that by (simp add: tls_ok_def)
  show "tls_ok c'" if "tls_ok c" "ssl c = Some s" "handle_SSL_read_error env s i c = Inr (x, c')"
    for c s i x c'
    using that hoareD(1) [OF tls_ok_read_error, of c s env i x c'] by simp
  show "tls_ok (c\<lparr>trace := trace c @ [(Clock, a)],
      aliveCheckTimer := (aliveCheckTimer c)\<lparr>startTime := Some t, active := True\<rparr>\<rparr>)"
    if "tls_ok c" for c a t
    using that by (simp add: tls_ok_def)
qed (auto intro!: pres tls_ok_other_call app_keepsD [OF assms])

section \<open>The history of a connection only grows\<close>

lemma extends_append: "extends tr c \<Longrightarrow> extends tr (c\<lparr>trace := trace c @ tr'\<rparr>)"
  by (auto simp: extends_def)

lemma extends_unread [simp]:
  "extends tr (c\<lparr>aliveCheckTimer := t\<rparr>) = extends tr c"
  "extends tr (c\<lparr>client_sock := fd\<rparr>) = extends tr c"
  "extends tr (c\<lparr>ssl := s\<rparr>) = extends tr c"
  "extends tr (c\<lparr>routedClientAddress := p\<rparr>) = extends tr c"
  "extends tr (c\<lparr>app_state := a\<rparr>) = extends tr c"
  for c :: "('h, 'a) DoIPConnection"
  by (simp_all add: extends_def)

lemma extends_parseSSLerror [pres]: "preserves (extends tr) (parseSSLerror env h r)"
  unfolding parseSSLerror_def by (intro pres)

lemma extends_closeSocket [pres]: "preserves (extends tr) (closeSocket env skip)"
  by (rule preservesI) (auto elim!: closeSocketE intro: extends_append)

lemma extends_sendMessage [pres]: "preserves (extends tr) (sendMessage env m n)"
  unfolding sendMessage_def by (intro pres)

lemma extends_activate [pres]: "preserves (extends tr) (activate_client env p)"
  by (rule preservesI) (auto elim!: activate_client_split intro: extends_append)

lemma extends_sendDiagnosticAck [pres]: "preserves (extends tr) (sendDiagnosticAck env sa ack code)"
  unfolding sendDiagnosticAck_def by (intro pres)

lemma extends_sendDiagnosticPayload [pres]:
  "preserves (extends tr) (sendDiagnosticPayload env sa data n)"
  unfolding sendDiagnosticPayload_def by (intro pres)

lemma extends_invariant:
  assumes "app_keeps app (extends tr)"
  shows "connection_invariant env app (extends tr)"
proof unfold_locales
  show "extends tr c'"
    if "extends tr c" and fire: "run_timer_cb env app k
      (c\<lparr>aliveCheckTimer := aliveCheckTimer c\<lparr>disabled := True, timeout := True\<rparr>\<rparr>) = Inr (x, c')"
    for c k x c'
    using extends_closeSocket app_keepsD(3) [OF assms] _ fire
    by (rule slice_fireI) (use that(1) in simp)
  show "extends tr c'" if "extends tr c" "ssl c = Some s"
    "handle_SSL_read_error env s i c = Inr (x, c')" for c s i x c'
  proof -
    have "preserves (extends tr) (handle_SSL_read_error env s i)"
      unfolding handle_SSL_read_error_def by (intro pres)
    with that show ?thesis by (auto dest: preservesD)
  qed
qed (auto intro!: pres extends_append app_keepsD [OF assms])

section \<open>What waiting and reading leave alone\<close>

text \<open>
  A close callback that does its own bookkeeping: it may change the application's state and use
  the world, but not the connection's members, and it exchanges nothing with the peer.
\<close>

definition quiet_close :: "('h, 'a) app \<Rightarrow> bool" where
  "quiet_close app \<longleftrightarrow>
     (\<forall>h c x c'. run_close app h c = Inr (x, c') \<longrightarrow>
        (\<exists>tr a. c' = c\<lparr>trace := trace c @ tr, app_state := a\<rparr> \<and> only_writes [] tr))"

lemma quiet_closeE:
  assumes "quiet_close app" and "run_close app h c = Inr (x, c')"
  obtains tr a where "c' = c\<lparr>trace := trace c @ tr, app_state := a\<rparr>" and "only_writes [] tr"
  using assms unfolding quiet_close_def by blast

lemma closeSocket_quiet: "preserves (\<lambda>c. received (trace c) = x) (closeSocket env skip)"
  by (rule preservesI) (auto elim!: closeSocketE simp: only_writes_def split: if_splits)

lemma received_slice_invariant:
  assumes "quiet_close app"
  shows "slice_invariant env app (\<lambda>c. received (trace c) = x)"
proof unfold_locales
  show "preserves (\<lambda>c. received (trace c) = x) (ext_ret env Clock)"
    and "preserves (\<lambda>c. received (trace c) = x) (ext_ret env TimerSlice)"
    by (rule preservesI; simp add: run_simps)+
  have close: "preserves (\<lambda>c. received (trace c) = x) (run_close app h)" for h
    by (rule preservesI) (auto elim!: quiet_closeE [OF assms] simp: only_writes_def)
  show "received (trace c') = x"
    if "received (trace c) = x" and fire: "run_timer_cb env app k
      (c\<lparr>aliveCheckTimer := aliveCheckTimer c\<lparr>disabled := True, timeout := True\<rparr>\<rparr>) = Inr (u, c')"
    for c k u c'
    using closeSocket_quiet close _ fire
    by (rule slice_fireI) (use that(1) in simp)
qed

lemma timer_slice_quiet:
  assumes "quiet_close app" and "timer_slice env app c = Inr (u, c')"
  shows "received (trace c') = received (trace c)"
  using slice_invariant.inv_timer_slice [OF received_slice_invariant [OF assms(1)]] assms(2)
  by (rule preservesD) simp

text \<open>
  While it waits for bytes, a connection may be closed; nothing else of it changes, and nothing
  is written.
\<close>

definition waiting ::
  "peer \<Rightarrow> u16 \<Rightarrow> buffer list \<Rightarrow> ('h, 'a) DoIPConnection \<Rightarrow> bool" where
  "waiting p gateway ws c \<longleftrightarrow>
     (peer_of c = p \<or> peer_of c = Closed) \<and> logicalGatewayAddress c = gateway \<and>
     written (trace c) = ws"

lemma waiting_unchanged [simp]:
  "waiting p g ws (c\<lparr>aliveCheckTimer := t\<rparr>) = waiting p g ws c"
  "waiting p g ws (c\<lparr>app_state := a\<rparr>) = waiting p g ws c"
  by (simp_all add: waiting_def peer_of_def)

lemma waiting_trace [simp]:
  "written tr = [] \<Longrightarrow> waiting p g ws (c\<lparr>trace := trace c @ tr\<rparr>) = waiting p g ws c"
  by (simp add: waiting_def peer_of_def)

lemma waiting_trace_app [simp]:
  "written tr = [] \<Longrightarrow>
   waiting p g ws (c\<lparr>trace := trace c @ tr, app_state := a\<rparr>) = waiting p g ws c"
  by (simp add: waiting_def peer_of_def)

lemma waiting_closeSocket: "preserves (waiting p g ws) (closeSocket env skip)"
  by (rule preservesI)
     (auto elim!: closeSocketE simp: waiting_def only_writes_def peer_of_def split: if_splits)

lemma waiting_calls:
  assumes "written_by k = []"
  shows "preserves (waiting p g ws) (ext_call env k)" "preserves (waiting p g ws) (ext_ret env k)"
  using assms by (auto intro!: preservesI simp: run_simps)

lemma waiting_parseSSLerror: "preserves (waiting p g ws) (parseSSLerror env h r)"
  by (rule preservesI) (simp add: parseSSLerror_run)

lemma waiting_reading_invariant:
  assumes "quiet_close app"
  shows "reading_invariant env app (waiting p g ws)"
proof unfold_locales
  have close: "preserves (waiting p g ws) (run_close app h)" for h
    by (rule preservesI) (auto elim!: quiet_closeE [OF assms] simp: only_writes_def)
  show "waiting p g ws c'"
    if "waiting p g ws c" and fire: "run_timer_cb env app k
      (c\<lparr>aliveCheckTimer := aliveCheckTimer c\<lparr>disabled := True, timeout := True\<rparr>\<rparr>) = Inr (u, c')"
    for c k u c'
    using waiting_closeSocket close _ fire
    by (rule slice_fireI) (use that(1) in simp)
  show "waiting p g ws c'"
    if "waiting p g ws c" "handle_SSL_read_error env s i c = Inr (x, c')" for c s i x c'
  proof -
    have "preserves (waiting p g ws) (handle_SSL_read_error env s i)"
      unfolding handle_SSL_read_error_def
      by (intro pres waiting_closeSocket waiting_parseSSLerror)
    with that show ?thesis by (auto dest: preservesD)
  qed
qed (auto intro!: waiting_closeSocket waiting_calls)

text \<open>A connection over plain TCP stays one.\<close>

definition over_tcp :: "('h, 'a) DoIPConnection \<Rightarrow> bool" where
  "over_tcp c \<longleftrightarrow> ssl c = None"

lemma over_tcp_closeSocket: "preserves over_tcp (closeSocket env skip)"
  by (rule preservesI) (auto elim!: closeSocketE simp: over_tcp_def split: if_splits)

lemma over_tcp_reading_invariant:
  assumes "quiet_close app"
  shows "reading_invariant env app over_tcp"
proof unfold_locales
  have close: "preserves over_tcp (run_close app h)" for h
    by (rule preservesI) (auto elim!: quiet_closeE [OF assms] simp: over_tcp_def)
  show "over_tcp c'"
    if "over_tcp c" and fire: "run_timer_cb env app k
      (c\<lparr>aliveCheckTimer := aliveCheckTimer c\<lparr>disabled := True, timeout := True\<rparr>\<rparr>) = Inr (u, c')"
    for c k u c'
    using over_tcp_closeSocket close _ fire
    by (rule slice_fireI) (use that(1) in \<open>simp add: over_tcp_def\<close>)
qed (auto intro!: preservesI simp: run_simps over_tcp_def)

text \<open>Waiting and reading only add to the history.\<close>

lemma extends_reading_invariant:
  assumes "quiet_close app"
  shows "reading_invariant env app (extends tr)"
proof unfold_locales
  have close: "preserves (extends tr) (run_close app h)" for h
    by (rule preservesI) (auto elim!: quiet_closeE [OF assms] simp: extends_def)
  show "extends tr c'"
    if "extends tr c" and fire: "run_timer_cb env app k
      (c\<lparr>aliveCheckTimer := aliveCheckTimer c\<lparr>disabled := True, timeout := True\<rparr>\<rparr>) = Inr (u, c')"
    for c k u c'
    using extends_closeSocket close _ fire
    by (rule slice_fireI) (use that(1) in \<open>simp add: extends_def\<close>)
  show "extends tr c'"
    if "extends tr c" "handle_SSL_read_error env s i c = Inr (x, c')" for c s i x c'
  proof -
    have "preserves (extends tr) (handle_SSL_read_error env s i)"
      unfolding handle_SSL_read_error_def by (intro pres)
    with that show ?thesis by (auto dest: preservesD)
  qed
qed (auto intro!: pres extends_append)

lemma extends_refl: "extends (trace c) c"
  by (simp add: extends_def)

end
