(* ===== verification/Doip_Connection_Receive.thy ===== *)
theory Doip_Connection_Receive
  imports Doip_Connection_Inv
begin

text \<open>
  Receiving: however the peer's bytes are cut into reads, the buffer holds exactly the bytes the
  peer delivered, in order; a message is the header and its announced payload; and a complete
  message takes the connection one step further in its protocol.
\<close>

section \<open>The receive loop\<close>

lemma put_bytes_next:
  assumes "length bs \<le> k"
  shows "put_bytes (map Some got @ replicate k None) (length got) bs =
         Inr (map Some (got @ bs) @ replicate (k - length bs) None)"
  using assms by (simp add: put_bytes_def)

lemma blocking_read_received:
  assumes "quiet_close app" and "blocking_read env app k c = Inr (a, c')"
  shows "received (trace c') = received (trace c) @ (if 0 < ret a then bytes a else [])"
  using assms(2)
  by (auto simp: blocking_read_def prog_eq_Inr run_simps fail_def
      dest!: timer_slice_quiet [OF assms(1)] split: option.splits if_splits)

lemma blocking_read_failed:
  assumes "quiet_close app" and "blocking_read env app k c = Inr (a, c')"
  shows "failed_reads (trace c) \<le> failed_reads (trace c')"
    and "ret a \<le> 0 \<Longrightarrow> failed_reads (trace c) < failed_reads (trace c')"
proof -
  note inv = extends_reading_invariant [OF assms(1), THEN reading_invariant.axioms(1)]
  from assms(2) obtain c1 e where wait: "timer_slice env app c = Inr ((), c1)"
    and e: "e \<in> {Recv (client_sock c) k} \<union> range (\<lambda>h. SSL_read h (u64_to_int k))"
    and c': "trace c' = trace c1 @ [(e, a)]"
    unfolding blocking_read_def
    by (auto simp: prog_eq_Inr ext_call_run fail_def split: option.splits if_splits) blast
  have "extends (trace c) c1"
    using slice_invariant.inv_timer_slice [OF blocking_invariant.axioms(1) [OF inv]] wait extends_refl
    by (rule preservesD)
  then have "failed_reads (trace c) \<le> failed_reads (trace c1)" by (rule extends_failed_reads)
  moreover have "failed_read (e, a)" if "ret a \<le> 0" using e that by auto
  ultimately show "failed_reads (trace c) < failed_reads (trace c')" if "ret a \<le> 0"
    using c' that by auto
  show "failed_reads (trace c) \<le> failed_reads (trace c')"
    using \<open>failed_reads (trace c) \<le> failed_reads (trace c1)\<close> c' by simp
qed

lemma read_failed_reads:
  fixes app :: "('h, 'a) app" and c :: "('h, 'a) DoIPConnection"
  assumes "quiet_close app" and "bnd (gets ssl) (\<lambda>s. case s of
             Some h \<Rightarrow> bnd (handle_SSL_read_error env h r) (\<lambda>q. return (word_of_int q, b))
           | None \<Rightarrow> return (pos, b)) c = Inr ((n, b'), c')"
  shows "failed_reads (trace c) \<le> failed_reads (trace c')"
proof -
  note inv = reading_invariant.inv_read_failed
    [OF extends_reading_invariant [OF assms(1)], where f = "\<lambda>q. (word_of_int q, b)"]
  have "extends (trace c) c'"
    using preservesD [OF inv assms(2)] extends_refl by blast
  then show ?thesis by (rule extends_failed_reads)
qed

lemma read_error_result:
  assumes "handle_SSL_read_error env h r c = Inr (q, c')"
  shows "q \<in> {0, -1}" and "received (trace c') = received (trace c)"
  using assms
  by (auto simp: handle_SSL_read_error_def prog_eq_Inr parseSSLerror_run
      dest: preservesD [OF closeSocket_quiet [of "received (trace c)"]] split: if_splits)

lemma read_failed:
  assumes "tls \<or> over_tcp c" and "bnd (gets ssl) (\<lambda>s. case s of
             Some h \<Rightarrow> bnd (handle_SSL_read_error env h r) (\<lambda>q. return (word_of_int q, b))
           | None \<Rightarrow> return (pos, b)) c = Inr ((n, b'), c')"
  shows "b' = b" and "n \<in> (if tls then {pos, 0, -1} else {pos})"
    and "received (trace c') = received (trace c)"
  using assms
  by (auto simp: prog_eq_Inr over_tcp_def split: option.splits dest: read_error_result)

text \<open>
  What the loop has when it returns: all \<open>n\<close> bytes, or fewer and a result that says so. Over TLS
  that result may also be the 0 or the \<open>-1\<close> of \<open>handle_SSL_read_error\<close>.
\<close>

definition loop_result :: "bool \<Rightarrow> nat \<Rightarrow> u64 \<Rightarrow> byte list \<Rightarrow> buffer \<Rightarrow> bool" where
  "loop_result tls len n got b \<longleftrightarrow>
     length got \<le> len \<and> b = map Some got @ replicate (len - length got) None \<and>
     (if length got = len then n = of_nat len
      else n \<in> (if tls then {of_nat (length got), 0, -1} else {of_nat (length got)}))"

text \<open>The first iteration of the loop.\<close>

lemma receive_loop_unfold:
  assumes "0 < k" and "receive_loop env app k pos b c = Inr (r, c')"
  obtains a c1 where "blocking_read env app k c = Inr (a, c1)"
    and "ret a \<le> 0 \<longrightarrow> bnd (gets ssl) (\<lambda>s. case s of
           Some h \<Rightarrow> bnd (handle_SSL_read_error env h (ret a)) (\<lambda>r. return (word_of_int r, b))
         | None \<Rightarrow> return (pos, b)) c1 = Inr (r, c')"
    and "0 < ret a \<longrightarrow> read_contract k a \<and>
           bnd (lift (put_bytes b (unat pos) (bytes a)))
             (\<lambda>b'. receive_loop env app (k - word_of_int (ret a)) (pos + word_of_int (ret a)) b') c1 =
           Inr (r, c')"
  using assms
  by (auto simp: receive_loop.simps [of env app k] bnd_eq_Inr fail_def split: if_splits)

text \<open>A read that succeeded shortens the rest and moves the position, and both stay in step.\<close>

lemma receive_loop_next:
  assumes "bnd (lift (put_bytes (map Some got @ replicate (unat k) None) (unat pos) (bytes a)))
      (\<lambda>b'. receive_loop env app (k - word_of_int (ret a)) (pos + word_of_int (ret a)) b') c1 = Inr (r, c')"
    and "0 < ret a" and "read_contract k a" and "pos = of_nat (length got)"
    and "len = length got + unat k" and "len < 2 ^ 64"
  shows "receive_loop env app (k - word_of_int (ret a)) (pos + word_of_int (ret a))
           (map Some (got @ bytes a) @ replicate (unat (k - word_of_int (ret a))) None) c1 = Inr (r, c')"
    and "unat (k - word_of_int (ret a)) < unat k"
    and "pos + word_of_int (ret a) = of_nat (length (got @ bytes a))"
    and "len = length (got @ bytes a) + unat (k - word_of_int (ret a))"
proof -
  have len: "ret a = int (length (bytes a))" using assms(3) by (simp add: read_contract_def)
  note dec = read_decreases [OF assms(2,3)]
  have le: "length (bytes a) \<le> unat k" and some: "0 < length (bytes a)"
    using dec(2) len assms(2) by simp_all
  have rem: "unat (k - word_of_int (ret a)) = unat k - length (bytes a)" using dec(3) len by simp
  have "unat pos = length got" using assms(4-6) by (simp add: unat_of_nat)
  with assms(1) show "receive_loop env app (k - word_of_int (ret a)) (pos + word_of_int (ret a))
      (map Some (got @ bytes a) @ replicate (unat (k - word_of_int (ret a))) None) c1 = Inr (r, c')"
    by (simp add: run_simps put_bytes_next [OF le] rem)
  show "unat (k - word_of_int (ret a)) < unat k" using rem le some by linarith
  show "pos + word_of_int (ret a) = of_nat (length (got @ bytes a))" using assms(4) len by simp
  show "len = length (got @ bytes a) + unat (k - word_of_int (ret a))"
    unfolding rem using assms(5) le by simp
qed

text \<open>
  What each read keeps, the loop keeps when it gets all its bytes: the treatment of a failed read
  is then never reached.
\<close>

lemma receive_loop_result:
  assumes quiet: "quiet_close app" and keeps: "blocking_invariant env app I"
    and "receive_loop env app k pos (map Some got @ replicate (unat k) None) c = Inr ((n, b), c')"
    and "pos = of_nat (length got)" and "len = length got + unat k" and "len < 2 ^ 64"
    and "tls \<or> over_tcp c"
  shows "\<exists>bs. received (trace c') = received (trace c) @ bs \<and> loop_result tls len n (got @ bs) b \<and>
              (I c \<longrightarrow> length (got @ bs) = len \<longrightarrow> I c') \<and>
              failed_reads (trace c) \<le> failed_reads (trace c') \<and>
              (length (got @ bs) < len \<longrightarrow> failed_reads (trace c) < failed_reads (trace c'))"
  using assms(3-)
proof (induction "unat k" arbitrary: k pos got c rule: less_induct)
  case less
  show ?case
  proof (cases "0 < k")
    case False
    then have "k = 0" using word_gt_0 by blast
    with less.prems show ?thesis
      by (auto simp: receive_loop.simps [of env app 0] return_def loop_result_def
          intro!: exI [of _ "[]"])
  next
    case True
    obtain a c1 where read: "blocking_read env app k c = Inr (a, c1)"
      and failed: "ret a \<le> 0 \<longrightarrow> bnd (gets ssl) (\<lambda>s. case s of
           Some h \<Rightarrow> bnd (handle_SSL_read_error env h (ret a))
             (\<lambda>r. return (word_of_int r, map Some got @ replicate (unat k) None))
         | None \<Rightarrow> return (pos, map Some got @ replicate (unat k) None)) c1 = Inr ((n, b), c')"
      and more: "0 < ret a \<longrightarrow> read_contract k a \<and>
         bnd (lift (put_bytes (map Some got @ replicate (unat k) None) (unat pos) (bytes a)))
           (\<lambda>b'. receive_loop env app (k - word_of_int (ret a)) (pos + word_of_int (ret a)) b') c1 =
         Inr ((n, b), c')"
      by (rule receive_loop_unfold [OF True less.prems(1)])
    note got = blocking_read_received [OF quiet read]
    note tried = blocking_read_failed [OF quiet read]
    have tls: "tls \<or> over_tcp c1"
      using less.prems(5) preservesD [OF blocking_invariant.inv_blocking_read
          [OF reading_invariant.axioms(1) [OF over_tcp_reading_invariant [OF quiet]]] read] by blast
    show ?thesis
    proof (cases "0 < ret a")
      case False
      with failed have stop: "bnd (gets ssl) (\<lambda>s. case s of
           Some h \<Rightarrow> bnd (handle_SSL_read_error env h (ret a))
             (\<lambda>r. return (word_of_int r, map Some got @ replicate (unat k) None))
         | None \<Rightarrow> return (pos, map Some got @ replicate (unat k) None)) c1 = Inr ((n, b), c')" by simp
      from True have "unat k \<noteq> 0" by (simp add: word_less_nat_alt)
      with read_failed [OF tls stop] read_failed_reads [OF quiet stop] tried got False less.prems(2,3)
      show ?thesis
        by (intro exI [of _ "[]"]) (auto simp: loop_result_def)
    next
      case pos: True
      note succeeded = more [rule_format, OF pos]
      note step = receive_loop_next [OF conjunct2 [OF succeeded] pos conjunct1 [OF succeeded] less.prems(2-4)]
      obtain bs where "received (trace c') = received (trace c1) @ bs"
        and "loop_result tls len n ((got @ bytes a) @ bs) b"
        and "I c1 \<longrightarrow> length ((got @ bytes a) @ bs) = len \<longrightarrow> I c'"
        and "failed_reads (trace c1) \<le> failed_reads (trace c')"
        and "length ((got @ bytes a) @ bs) < len \<longrightarrow> failed_reads (trace c1) < failed_reads (trace c')"
        using less.hyps [OF step(2,1,3,4) less.prems(4) tls] by blast
      moreover have "I c \<longrightarrow> I c1"
        using preservesD [OF blocking_invariant.inv_blocking_read [OF keeps] read] by blast
      ultimately show ?thesis
        using got pos tried(1) by (intro exI [of _ "bytes a @ bs"]) auto
    qed
  qed
qed

lemma receiveFixed_full:
  assumes "quiet_close app" and "blocking_invariant env app I"
    and "receiveFixedNumberOfBytesFromTcpOrTls env app k (replicate (unat k) None) c =
         Inr ((n, b), c')"
    and "tls \<or> over_tcp c"
  shows "\<exists>bs. received (trace c') = received (trace c) @ bs \<and> loop_result tls (unat k) n bs b \<and>
              (I c \<longrightarrow> length bs = unat k \<longrightarrow> I c') \<and>
              failed_reads (trace c) \<le> failed_reads (trace c') \<and>
              (length bs < unat k \<longrightarrow> failed_reads (trace c) < failed_reads (trace c'))"
proof -
  have "unat k < 2 ^ 64" using unsigned_less [of k] by simp
  with receive_loop_result [OF assms(1,2), of k 0 "[]" c n b c' "unat k" tls] assms(3,4)
  show ?thesis by (simp add: receiveFixedNumberOfBytesFromTcpOrTls_def)
qed

lemma anything_blocking_invariant: "blocking_invariant env app (\<lambda>_. True)"
  by unfold_locales (auto intro: preservesI)

lemma receiveFixed_result:
  assumes "quiet_close app"
    and "receiveFixedNumberOfBytesFromTcpOrTls env app k (replicate (unat k) None) c =
         Inr ((n, b), c')"
    and "tls \<or> over_tcp c"
  shows "\<exists>bs. received (trace c') = received (trace c) @ bs \<and> loop_result tls (unat k) n bs b"
  using receiveFixed_full [OF assms(1) anything_blocking_invariant assms(2,3)] by blast

section \<open>A whole message\<close>

definition verdict_length :: "verdict \<Rightarrow> nat" where
  "verdict_length v = (case v of Accepted t n \<Rightarrow> n | Rejected code n \<Rightarrow> n)"

text \<open>The header and all of the payload that it announces.\<close>

definition complete_message :: "byte list \<Rightarrow> bool" where
  "complete_message bs \<longleftrightarrow>
     8 \<le> length bs \<and> length bs = 8 + verdict_length (header_spec (take 8 bs))"

text \<open>A stream that starts with a whole message.\<close>

definition has_message :: "byte list \<Rightarrow> bool" where
  "has_message bs \<longleftrightarrow>
     8 \<le> length bs \<and> 8 + verdict_length (header_spec (take 8 bs)) \<le> length bs"

lemma verdict_length_bound: "verdict_length (header_spec h) < 2 ^ 32"
proof -
  have "unat w < 2 ^ 32" for w :: u32 using unsigned_less [of w] by simp
  then show ?thesis
    by (auto simp: header_spec_def verdict_length_def Let_def split: option.splits)
qed

lemma cut_of_nat: "l < 2 ^ 32 \<Longrightarrow> unat (ucast (of_nat l :: u64) :: u32) = l"
  by (simp add: unsigned_ucast_eq unsigned_of_nat take_bit_nat_eq_self_iff)

lemma cut_to_u32:
  assumes "n \<in> {of_nat l, 0, -1 :: u64}" and "l < 2 ^ 32"
  shows "unat (ucast n :: u32) \<in> {l, 0, 2 ^ 32 - 1}"
proof -
  have "unat (ucast (of_nat l :: u64) :: u32) = l"
    using assms(2) by (rule cut_of_nat)
  moreover have "(ucast (-1 :: u64) :: u32) = -1"
    by (rule bit_word_eqI) (simp add: bit_simps)
  then have "unat (ucast (-1 :: u64) :: u32) = 2 ^ 32 - 1"
    by (simp add: unsigned_minus_1_eq_mask mask_eq_exp_minus_1)
  ultimately show ?thesis using assms(1) by auto
qed

text \<open>
  A result, cut to \<open>unsigned int\<close>, that is the length asked for means that all bytes are there.
  The one exception is \<open>0xFFFFFFFF\<close>, which is what the result \<open>-1\<close> of a failed \<open>SSL_read\<close>
  becomes, and which a header can announce.
\<close>

lemma all_received:
  assumes "loop_result tls len n bs b" and "unat (ucast n :: u32) = len"
    and "0 < len" and "len < 2 ^ 32" and "tls \<longrightarrow> len < 2 ^ 32 - 1"
  shows "length bs = len" and "b = map Some bs"
proof -
  show "length bs = len"
  proof (rule ccontr)
    assume "length bs \<noteq> len"
    with assms(1) have l: "length bs < len" and n: "n \<in> {of_nat (length bs), 0, -1}"
      and plain: "\<not> tls \<Longrightarrow> n = of_nat (length bs)"
      by (auto simp: loop_result_def split: if_splits)
    from l assms(4) have "length bs < 2 ^ 32" by simp
    then have "unat (ucast n :: u32) \<in> (if tls then {length bs, 0, 2 ^ 32 - 1} else {length bs})"
      using cut_to_u32 [OF n] plain cut_of_nat [of "length bs"] by auto
    with l assms(2,3,5) show False by (auto split: if_splits)
  qed
  then show "b = map Some bs" using assms(1) by (simp add: loop_result_def)
qed

text \<open>How one call of \<open>receiveTcpOrTlsMessage\<close> can go.\<close>

definition reset_and_react ::
  "env \<Rightarrow> ('h, 'a) app \<Rightarrow> GenericHeaderAction \<Rightarrow> u64 \<Rightarrow> ptr \<Rightarrow> ('h, 'a, int) conn_prog" where
  "reset_and_react env app action n payload =
     bnd (gets aliveCheckTimer) (\<lambda>timer.
     thn (on_cond (active timer) (resetTimer env))
         (reactOnReceivedTcpMessage env app action n payload))"

text \<open>What follows the read of the header.\<close>

definition after_header ::
  "env \<Rightarrow> ('h, 'a) app \<Rightarrow> u64 \<Rightarrow> buffer \<Rightarrow> ('h, 'a, int) conn_prog" where
  "after_header env app n b =
     bnd (gets aliveCheckTimer) (\<lambda>timer.
     if (ucast n :: u32) = 8 \<and> \<not> timeout timer then
       bnd (lift (parseGenericHeader b 8)) (\<lambda>action.
       bnd (lift (determinate (action_payloadLength action))) (\<lambda>k.
       bnd (receive_payload env app k) (\<lambda>p. case p of
         None \<Rightarrow> thn (closeSocket env False) (return 0)
       | Some payload \<Rightarrow> reset_and_react env app action k payload)))
     else thn (closeSocket env False) (return 0))"

lemma receive_eq:
  "receiveTcpOrTlsMessage env app =
   bnd (receiveFixedNumberOfBytesFromTcpOrTls env app 8 (replicate 8 None))
     (\<lambda>(n, b). after_header env app n b)"
  unfolding receiveTcpOrTlsMessage_def after_header_def reset_and_react_def
    GenericHeaderLength_def Let_def
  by simp

context connection_invariant
begin

lemma inv_after_header: "preserves I (after_header env app n b)"
  unfolding after_header_def reset_and_react_def
  by (intro pres inv_receive_payload inv_reset_timer inv_react inv_close)

end

lemma header_length:
  assumes "loop_result tls 8 n h b"
  shows "unat (ucast n :: u32) = 8 \<longleftrightarrow> length h = 8"
proof
  show "length h = 8" if "unat (ucast n :: u32) = 8"
    using all_received(1) [OF assms that] by simp
  show "unat (ucast n :: u32) = 8" if "length h = 8"
    using assms that cut_of_nat [of 8] by (simp add: loop_result_def)
qed

lemma receive_header:
  assumes quiet: "quiet_close app" and keeps: "blocking_invariant env app I"
    and run: "receiveTcpOrTlsMessage env app c = Inr (q, c')"
  obtains h c1 where "received (trace c1) = received (trace c) @ h" and "over_tcp c \<longrightarrow> over_tcp c1"
    and "waiting (peer_of c) (logicalGatewayAddress c) (written (trace c)) c1"
    and "I c \<longrightarrow> length h = 8 \<longrightarrow> I c1"
    and "failed_reads (trace c) \<le> failed_reads (trace c1)"
    and "q = 0 \<and> closeSocket env False c1 = Inr ((), c') \<and>
           (length h < 8 \<and> failed_reads (trace c) < failed_reads (trace c1) \<or>
            timeout (aliveCheckTimer c1)) \<or>
         length h = 8 \<and>
           (\<exists>action k r c2. verdict_of action = Some (header_spec h) \<and>
              action_payloadLength action = Some k \<and> receive_payload env app k c1 = Inr (r, c2) \<and>
              (case r of None \<Rightarrow> q = 0 \<and> closeSocket env False c2 = Inr ((), c')
               | Some payload \<Rightarrow> reset_and_react env app action k payload c2 = Inr (q, c')))"
proof -
  have tcp: "\<not> over_tcp c \<or> over_tcp c" by simp
  from run obtain n b c1 where
    header: "receiveFixedNumberOfBytesFromTcpOrTls env app 8 (replicate (unat (8 :: u64)) None) c =
      Inr ((n, b), c1)"
    and rest: "after_header env app n b c1 = Inr (q, c')"
    unfolding receive_eq bnd_eq_Inr by auto
  note loop = header [unfolded receiveFixedNumberOfBytesFromTcpOrTls_def]
  have w: "waiting (peer_of c) (logicalGatewayAddress c) (written (trace c)) c1"
    using reading_invariant.inv_receive_loop [OF waiting_reading_invariant [OF quiet]] loop _
    by (rule preservesD) (simp add: waiting_def)
  have tcp1: "over_tcp c \<longrightarrow> over_tcp c1"
    using preservesD [OF reading_invariant.inv_receive_loop [OF over_tcp_reading_invariant [OF quiet]] loop]
    by blast
  from receiveFixed_full [OF quiet keeps header tcp] obtain h where
    h: "received (trace c1) = received (trace c) @ h" and lh: "loop_result (\<not> over_tcp c) 8 n h b"
    and I: "I c \<longrightarrow> length h = 8 \<longrightarrow> I c1"
    and grows: "failed_reads (trace c) \<le> failed_reads (trace c1)"
    and short: "length h < 8 \<longrightarrow> failed_reads (trace c) < failed_reads (trace c1)" by auto
  note cut = header_length [OF lh]
  show ?thesis
  proof (cases "(ucast n :: u32) = 8 \<and> \<not> timeout (aliveCheckTimer c1)")
    case False
    then have "length h < 8 \<and> failed_reads (trace c) < failed_reads (trace c1) \<or>
        timeout (aliveCheckTimer c1)"
      using cut lh short by (auto simp: loop_result_def word_unat_eq_iff)
    with rest False that [OF h tcp1 w I grows] show ?thesis
      by (auto simp: after_header_def thn_eq_Inr return_eq_Inr run_simps)
  next
    case True
    then have "unat (ucast n :: u32) = 8" by simp
    with cut lh have len: "length h = 8" and b: "b = map Some h" by (simp_all add: loop_result_def)
    from parse_header_eq [of h 8 "[]"] len b obtain action where
      parse: "parseGenericHeader b 8 = Inr action" and v: "verdict_of action = Some (header_spec h)"
      by auto
    from rest True parse obtain k r c2 where "action_payloadLength action = Some k"
      and "receive_payload env app k c1 = Inr (r, c2)"
      and "case r of None \<Rightarrow> q = 0 \<and> closeSocket env False c2 = Inr ((), c')
           | Some payload \<Rightarrow> reset_and_react env app action k payload c2 = Inr (q, c')"
      by (auto simp: after_header_def prog_eq_Inr determinate_def split: option.splits)
    with v len that [OF h tcp1 w I grows] show ?thesis by blast
  qed
qed

lemma receive_payload_full:
  assumes "quiet_close app" and "blocking_invariant env app I"
    and "receive_payload env app k c = Inr (r, c')" and "tls \<or> over_tcp c"
  shows "\<exists>bs. received (trace c') = received (trace c) @ bs \<and>
              (\<forall>payload. r = Some payload \<longrightarrow> (tls \<longrightarrow> unat k < 2 ^ 32 - 1) \<longrightarrow>
                 length bs = unat k \<and> (bs \<noteq> [] \<longrightarrow> payload = Some (map Some bs)) \<and>
                 (I c \<longrightarrow> I c')) \<and>
              (unat k < 2 ^ 32 \<longrightarrow> r = None \<longrightarrow>
                 length bs < unat k \<and> failed_reads (trace c) < failed_reads (trace c'))"
proof (cases "0 < k")
  case False
  then have "k = 0" using word_gt_0 by blast
  with assms(3) show ?thesis
    by (auto simp: receive_payload_def return_def intro!: exI [of _ "[]"])
next
  case True
  then have pos: "0 < unat k" by (simp add: word_less_nat_alt)
  let ?c = "c\<lparr>trace := trace c @ [(NewArray k, env (trace c) (NewArray k))]\<rparr>"
  from True assms(3) obtain n b where
    run: "receiveFixedNumberOfBytesFromTcpOrTls env app k (replicate (unat k) None) ?c = Inr ((n, b), c')"
    and r: "r = (if (ucast (ucast n :: u32) :: u64) \<noteq> k then None else Some (Some b))"
    by (auto simp: receive_payload_def prog_eq_Inr ext_ret_run Let_def split: if_splits)
  have I: "I c \<Longrightarrow> I ?c"
    using blocking_invariant.inv_alloc [OF assms(2)] by (auto simp: preserves_def ext_ret_run)
  have "tls \<or> over_tcp ?c" using assms(4) by (simp add: over_tcp_def)
  from receiveFixed_full [OF assms(1,2) run this] obtain bs where
    bs: "received (trace c') = received (trace c) @ bs" and l: "loop_result tls (unat k) n bs b"
    and keeps: "I ?c \<Longrightarrow> length bs = unat k \<Longrightarrow> I c'"
    and short: "length bs < unat k \<Longrightarrow> failed_reads (trace c) < failed_reads (trace c')"
    by auto
  have "length bs = unat k \<and> payload = Some (map Some bs)"
    if "r = Some payload" "tls \<longrightarrow> unat k < 2 ^ 32 - 1" for payload
  proof -
    from that r have "(ucast (ucast n :: u32) :: u64) = k" and p: "payload = Some b"
      by (auto split: if_splits)
    then have "unat (ucast n :: u32) = unat k" by (metis unat_ucast_u32_u64)
    moreover have "unat (ucast n :: u32) < 2 ^ LENGTH(32)" by (rule unsigned_less)
    ultimately show ?thesis using all_received [OF l _ pos] that(2) p by simp
  qed
  moreover have "length bs < unat k" if "unat k < 2 ^ 32" "r = None"
  proof (rule ccontr)
    assume "\<not> length bs < unat k"
    with l have "n = k" by (auto simp: loop_result_def)
    then have "unat (ucast n :: u32) = unat k" using cut_of_nat [of "unat k"] that(1) by simp
    then have "(ucast (ucast n :: u32) :: u64) = k" by (metis unat_ucast_u32_u64 word_unat_eq_iff)
    with r that(2) show False by simp
  qed
  ultimately show ?thesis using bs keeps I short by blast
qed

lemma receive_payload_result:
  assumes "quiet_close app" and "receive_payload env app k c = Inr (r, c')"
    and "tls \<or> over_tcp c"
  shows "\<exists>bs. received (trace c') = received (trace c) @ bs \<and>
              (\<forall>payload. r = Some payload \<longrightarrow> (tls \<longrightarrow> unat k < 2 ^ 32 - 1) \<longrightarrow>
                 length bs = unat k \<and> (bs \<noteq> [] \<longrightarrow> payload = Some (map Some bs)))"
  using receive_payload_full [OF assms(1) anything_blocking_invariant assms(2,3)] by blast

lemma receive_payload_length:
  assumes "quiet_close app" and "receive_payload env app k c = Inr (Some payload, c')" and "0 < k"
  shows "\<exists>b. payload = Some b \<and> length b = unat k"
proof -
  from assms(2,3) obtain n b a where
    "receiveFixedNumberOfBytesFromTcpOrTls env app k (replicate (unat k) None)
      (c\<lparr>trace := trace c @ [(NewArray k, a)]\<rparr>) = Inr ((n, b), c')" and "payload = Some b"
    by (auto simp: receive_payload_def prog_eq_Inr ext_ret_run Let_def split: if_splits)
  with receiveFixed_result [OF assms(1), where tls = True] show ?thesis
    by (fastforce simp: loop_result_def)
qed

text \<open>The reaction after the timer was reset is a protocol step all the same.\<close>

lemma reset_and_reactE:
  assumes "reset_and_react env app action n payload c = Inr (q, c')"
  obtains tr t where "reactOnReceivedTcpMessage env app action n payload
      (c\<lparr>trace := trace c @ tr, aliveCheckTimer := t\<rparr>) = Inr (q, c')"
    and "only_writes [] tr" and "timer_of_client (aliveCheckTimer c) p \<Longrightarrow> timer_of_client t p"
    and "timeout t = timeout (aliveCheckTimer c)"
    and "maxSeconds t = maxSeconds (aliveCheckTimer c)"
proof (cases "active (aliveCheckTimer c)")
  case True
  let ?a = "env (trace c) Clock"
  have "only_writes [] [(Clock, ?a)]" by (simp add: only_writes_def)
  with True assms show ?thesis
    by (intro that [where tr = "[(Clock, ?a)]" and
          t = "(aliveCheckTimer c)\<lparr>startTime := Some (ret ?a), active := True\<rparr>"])
       (auto simp: reset_and_react_def resetTimer_def run_simps thn_def bnd_def
         timer_of_client_def timer_inv_def)
next
  case False
  have "c\<lparr>trace := trace c @ [], aliveCheckTimer := aliveCheckTimer c\<rparr> = c"
    by (rule DoIPConnection.equality) simp_all
  with False assms show ?thesis
    by (intro that [where tr = "[]" and t = "aliveCheckTimer c"])
       (auto simp: reset_and_react_def run_simps only_writes_def)
qed

lemma reset_and_react_implements:
  assumes "verdict_of action = Some v" and "library_message v p"
    and "p \<noteq> [] \<Longrightarrow> payload = Some (map Some p)" and "client_sock c \<noteq> 0"
    and "reset_and_react env app action n payload c = Inr (q, c')"
  shows "implements (logicalGatewayAddress c) v p c c'"
proof -
  from assms(5) obtain tr t where
    react: "reactOnReceivedTcpMessage env app action n payload
      (c\<lparr>trace := trace c @ tr, aliveCheckTimer := t\<rparr>) = Inr (q, c')"
    and tr: "only_writes [] tr"
    by (rule reset_and_reactE)
  let ?c = "c\<lparr>trace := trace c @ tr, aliveCheckTimer := t\<rparr>"
  have "implements (logicalGatewayAddress c) v p ?c c'"
    using react_implements [OF assms(1-3), of ?c "logicalGatewayAddress c" env app n] assms(4) react
    by simp
  then obtain tr' where imp: "peer_of c' = next_peer v p (peer_of c)"
    "trace c' = trace c @ tr @ tr'"
    "only_writes (map (map Some) (library_reply (logicalGatewayAddress c) v p)) tr'"
    "app_state c' = app_state c" "logicalGatewayAddress c' = logicalGatewayAddress c"
    by (auto simp: implements_def peer_of_def)
  show ?thesis
    by (rule implementsI [OF imp(1,2) _ imp(4,5)])
       (use only_writes_append [OF tr imp(3)] in simp)
qed

lemma verdict_of_length:
  "verdict_of action = Some v \<Longrightarrow> action_payloadLength action = Some k \<Longrightarrow> verdict_length v = unat k"
  by (auto simp: verdict_of_def verdict_length_def split: option.splits if_splits)

text \<open>
  How a call of \<open>receiveTcpOrTlsMessage\<close> goes, in terms of the bytes it consumes: the connection is
  closed, or they are a header and its payload and the reaction follows. That the payload is
  complete, and that \<open>I\<close> is kept until then, holds unless a TLS peer announces the largest length.
\<close>

lemma receive_message:
  assumes quiet: "quiet_close app" and keeps: "blocking_invariant env app I"
    and run: "receiveTcpOrTlsMessage env app c = Inr (q, c')"
  obtains bs c1 where "received (trace c1) = received (trace c) @ bs"
    and "waiting (peer_of c) (logicalGatewayAddress c) (written (trace c)) c1"
    and "q = 0 \<and> closeSocket env False c1 = Inr ((), c') \<and>
           (\<not> has_message bs \<and> failed_reads (trace c) < failed_reads (trace c1) \<or>
            timeout (aliveCheckTimer c1)) \<or>
         (\<exists>action k payload. 8 \<le> length bs \<and>
            verdict_of action = Some (header_spec (take 8 bs)) \<and>
            verdict_length (header_spec (take 8 bs)) = unat k \<and>
            (over_tcp c \<or> unat k < 2 ^ 32 - 1 \<longrightarrow>
               complete_message bs \<and> (I c \<longrightarrow> I c1) \<and>
               (drop 8 bs \<noteq> [] \<longrightarrow> payload = Some (map Some (drop 8 bs)))) \<and>
            reset_and_react env app action k payload c1 = Inr (q, c'))"
proof -
  obtain h c1 where h: "received (trace c1) = received (trace c) @ h"
    and tcp1: "over_tcp c \<longrightarrow> over_tcp c1"
    and w1: "waiting (peer_of c) (logicalGatewayAddress c) (written (trace c)) c1"
    and I1: "I c \<longrightarrow> length h = 8 \<longrightarrow> I c1"
    and grows: "failed_reads (trace c) \<le> failed_reads (trace c1)"
    and rest: "q = 0 \<and> closeSocket env False c1 = Inr ((), c') \<and>
           (length h < 8 \<and> failed_reads (trace c) < failed_reads (trace c1) \<or>
            timeout (aliveCheckTimer c1)) \<or>
         length h = 8 \<and>
           (\<exists>action k r c2. verdict_of action = Some (header_spec h) \<and>
              action_payloadLength action = Some k \<and> receive_payload env app k c1 = Inr (r, c2) \<and>
              (case r of None \<Rightarrow> q = 0 \<and> closeSocket env False c2 = Inr ((), c')
               | Some payload \<Rightarrow> reset_and_react env app action k payload c2 = Inr (q, c')))"
    by (rule receive_header [OF assms])
  show ?thesis
  proof (cases "q = 0 \<and> closeSocket env False c1 = Inr ((), c') \<and>
      (length h < 8 \<and> failed_reads (trace c) < failed_reads (trace c1) \<or>
       timeout (aliveCheckTimer c1))")
    case True
    with that [OF h w1] show ?thesis by (auto simp: has_message_def)
  next
    case False
    with rest obtain action k r c2 where len: "length h = 8"
      and v: "verdict_of action = Some (header_spec h)" and k: "action_payloadLength action = Some k"
      and payload: "receive_payload env app k c1 = Inr (r, c2)"
      and fin: "case r of None \<Rightarrow> q = 0 \<and> closeSocket env False c2 = Inr ((), c')
               | Some payload \<Rightarrow> reset_and_react env app action k payload c2 = Inr (q, c')"
      by blast
    note vlen = verdict_of_length [OF v k]
    have tls: "\<not> over_tcp c \<or> over_tcp c1" using tcp1 by blast
    from receive_payload_full [OF quiet keeps payload tls] vlen verdict_length_bound [of h] obtain p where
      p: "received (trace c2) = received (trace c) @ h @ p"
      and some: "\<And>pl. r = Some pl \<Longrightarrow> over_tcp c \<or> unat k < 2 ^ 32 - 1 \<Longrightarrow>
        length p = unat k \<and> (p \<noteq> [] \<longrightarrow> pl = Some (map Some p)) \<and> (I c1 \<longrightarrow> I c2)"
      and none: "r = None \<Longrightarrow> length p < unat k \<and> failed_reads (trace c1) < failed_reads (trace c2)"
      using h by auto
    have "waiting (peer_of c) (logicalGatewayAddress c) (written (trace c)) c2"
      using reading_invariant.inv_receive_payload [OF waiting_reading_invariant [OF quiet]] payload w1
      by (rule preservesD)
    note result = that [of c2 "h @ p", OF _ this]
    show ?thesis
    proof (cases r)
      case None
      with none vlen len grows
      have "\<not> has_message (h @ p) \<and> failed_reads (trace c) < failed_reads (trace c2)"
        by (simp add: has_message_def)
      with None fin p show ?thesis by (intro result) simp_all
    next
      case (Some pl)
      with fin p v len vlen some [OF Some] I1 show ?thesis
        by (intro result disjI2 exI [of _ action] exI [of _ k] exI [of _ pl])
           (auto simp: complete_message_def)
    qed
  qed
qed

section \<open>Progress\<close>

lemma extends_length: "extends tr c \<Longrightarrow> length tr \<le> length (trace c)"
  by (auto simp: extends_def)

lemma blocking_read_progress:
  assumes keeps: "\<And>tr. app_keeps app (extends tr)" and run: "blocking_read env app k c = Inr (a, c')"
  shows "length (trace c) < length (trace c')"
    and "ended n env \<Longrightarrow> n \<le> length (trace c) \<Longrightarrow> ret a \<le> 0"
proof -
  note inv = blocking_invariant.axioms(1) [OF reading_invariant.axioms(1)
    [OF connection_invariant.axioms(1) [OF extends_invariant [OF keeps]]]]
  from run obtain c1 e where wait: "timer_slice env app c = Inr ((), c1)"
    and e: "e \<in> {Recv (client_sock c) k} \<union> range (\<lambda>h. SSL_read h (u64_to_int k))"
    and a: "a = env (trace c1) e" and c': "trace c' = trace c1 @ [(e, a)]"
    unfolding blocking_read_def
    by (auto simp: prog_eq_Inr ext_call_run fail_def split: option.splits if_splits) blast
  have "extends (trace c) c1"
    using slice_invariant.inv_timer_slice [OF inv] wait extends_refl
    by (rule preservesD)
  then have len: "length (trace c) \<le> length (trace c1)" by (rule extends_length)
  with c' show "length (trace c) < length (trace c')" by simp
  show "ret a \<le> 0" if "ended n env" "n \<le> length (trace c)"
    using that len e unfolding a by (auto simp: ended_def)
qed

lemma zero_less_8: "(0 :: u64) < 8"
  by simp

text \<open>A call reads at least once, and closes the connection when there is nothing to read.\<close>

lemma receive_progress:
  assumes keeps: "\<And>tr. app_keeps app (extends tr)"
    and run: "receiveTcpOrTlsMessage env app c = Inr (q, c')"
  shows "length (trace c) < length (trace c')"
    and "ended n env \<Longrightarrow> n \<le> length (trace c) \<Longrightarrow> client_sock c' = 0"
proof -
  note inv = extends_invariant [OF keeps]
  note reading = connection_invariant.axioms(1) [OF inv]
  let ?b = "replicate 8 None :: buffer"
  from run obtain m b c1 where head: "receive_loop env app 8 0 ?b c = Inr ((m, b), c1)"
    and rest: "after_header env app m b c1 = Inr (q, c')"
    unfolding receive_eq receiveFixedNumberOfBytesFromTcpOrTls_def bnd_eq_Inr by auto
  from head obtain a c0 where read: "blocking_read env app 8 c = Inr (a, c0)"
    and cont: "(if ret a \<le> 0 then
          bnd (gets ssl) (\<lambda>s. case s of
            Some h \<Rightarrow> bnd (handle_SSL_read_error env h (ret a)) (\<lambda>r. return (word_of_int r, ?b))
          | None \<Rightarrow> return (0, ?b))
        else if \<not> read_contract 8 a then fail EnvContract
        else bnd (lift (put_bytes ?b (unat (0 :: u64)) (bytes a))) (\<lambda>b'.
             receive_loop env app (8 - word_of_int (ret a)) (0 + word_of_int (ret a)) b')) c0 =
      Inr ((m, b), c1)" (is "?p c0 = _")
    unfolding receive_loop.simps [of env app 8] if_P [OF zero_less_8] bnd_eq_Inr
    by (elim exE conjE) (rule that)
  note step = blocking_read_progress [OF keeps read]
  have "preserves (extends (trace c0)) ?p"
    by (intro pres reading_invariant.inv_read_failed [OF reading]
        reading_invariant.inv_receive_loop [OF reading])
  then have "extends (trace c0) c1" using cont extends_refl by (rule preservesD)
  then have le: "length (trace c0) \<le> length (trace c1)" by (rule extends_length)
  have "extends (trace c1) c'"
    using connection_invariant.inv_after_header [OF inv] rest extends_refl by (rule preservesD)
  with le step(1) show "length (trace c) < length (trace c')"
    using extends_length by fastforce
  assume "ended n env" and "n \<le> length (trace c)"
  with step(2) have "ret a \<le> 0" by blast
  with cont have "bnd (gets ssl) (\<lambda>s. case s of
            Some h \<Rightarrow> bnd (handle_SSL_read_error env h (ret a)) (\<lambda>r. return (word_of_int r, ?b))
          | None \<Rightarrow> return (0, ?b)) c0 = Inr ((m, b), c1)"
    by (simp del: replicate_Cons_numeral)
  from read_failed(2) [of True, OF _ this] have "m \<in> {0, -1}" by simp
  then have "(ucast m :: u32) \<noteq> 8" using cut_to_u32 [of m 0] by auto
  with rest have "closeSocket env False c1 = Inr ((), c')"
    by (auto simp: after_header_def run_simps thn_eq_Inr return_eq_Inr)
  then show "client_sock c' = 0" by (auto elim!: closeSocketE split: if_splits)
qed

end
