(* ===== verification/Doip_Connection_Safe.thy ===== *)
theory Doip_Connection_Safe
  imports Doip_Connection_Receive
begin

text \<open>
  Which errors a connection in service can run into. Every error of C++ that the model knows is a
  result \<open>Inl\<close>; here it is shown, by weakest preconditions, which of them remain possible when
  a connection that was set up receives a message, whatever the peer sends. The interface
  \<open>safe_app\<close> is what this needs of the application.
\<close>

section \<open>A connection in service\<close>

text \<open>
  All callbacks and the limit of the timer are set. \<open>tls\<close> says that the connection may be a TLS
  one, \<open>routed\<close> that its client has activated an address.
\<close>

definition serving :: "bool \<Rightarrow> bool \<Rightarrow> ('h, 'a) DoIPConnection \<Rightarrow> bool" where
  "serving tls routed c \<longleftrightarrow>
     conn_ok c \<and> diag_callback c \<noteq> None \<and> close_connection c \<noteq> None \<and>
     notify_application c \<noteq> None \<and> maxSeconds (aliveCheckTimer c) \<noteq> None \<and>
     (tls \<or> ssl c = None) \<and>
     (case routedClientAddress c of
        None \<Rightarrow> \<not> routed
      | Some p \<Rightarrow> \<exists>a b. p = [Some a, Some b])"

text \<open>
  The errors that remain: a failed allocation and a world that breaks its contract; over TLS the
  race with the timer thread and a payload that was not received; and before an activation the
  use of \<open>routedClientAddress\<close>.
\<close>

definition run_errors :: "bool \<Rightarrow> bool \<Rightarrow> cpp_error set" where
  "run_errors tls routed =
     {BadAlloc, EnvContract} \<union> (if tls then {UseAfterFree, Indeterminate} else {}) \<union>
     (if routed then {} else {BadPointer})"

lemma run_errors_simps [simp]:
  "BadAlloc \<in> run_errors tls routed" "EnvContract \<in> run_errors tls routed"
  "UseAfterFree \<in> run_errors tls routed \<longleftrightarrow> tls"
  "Indeterminate \<in> run_errors tls routed \<longleftrightarrow> tls"
  "BadPointer \<in> run_errors tls routed \<longleftrightarrow> \<not> routed"
  by (auto simp: run_errors_def)

lemma serving_trace [simp]: "serving tls r (c\<lparr>trace := tr\<rparr>) = serving tls r c"
  by (simp add: serving_def)

lemma serving_app_state [simp]: "serving tls r (c\<lparr>app_state := a\<rparr>) = serving tls r c"
  by (simp add: serving_def)

lemma serving_closeSocket [wp]:
  "hoare (serving tls r :: ('h, 'a) DoIPConnection \<Rightarrow> bool) E (closeSocket env skip)
     (\<lambda>_. serving tls r)"
proof (rule hoare_no_error)
  fix c :: "('h, 'a) DoIPConnection"
  assume s: "serving tls r c"
  obtain tr where run: "closeSocket env skip c = Inr ((), if client_sock c = 0 then c
      else c\<lparr>trace := trace c @ tr, client_sock := 0, ssl := None\<rparr>)"
    using closeSocket_cases [of env skip c] by blast
  from s have "serving tls r (if client_sock c = 0 then c
      else c\<lparr>trace := trace c @ tr, client_sock := 0, ssl := None\<rparr>)"
    by (simp add: serving_def conn_ok_def)
  with run show "\<exists>x c'. closeSocket env skip c = Inr (x, c') \<and> serving tls r c'" by blast
qed

lemma serving_sendMessage [wp]:
  "hoare (\<lambda>c :: ('h, 'a) DoIPConnection. serving tls r c \<and> n = int (length m)) E
     (sendMessage env m n) (\<lambda>_. serving tls r)"
proof (rule hoare_no_error)
  fix c :: "('h, 'a) DoIPConnection"
  assume s: "serving tls r c \<and> n = int (length m)"
  then show "\<exists>x c'. sendMessage env m n c = Inr (x, c') \<and> serving tls r c'"
    using sendMessage_run [of n m env c] by auto
qed

lemma serving_parseSSLerror [wp]:
  "hoare (serving tls r) E (parseSSLerror env h x) (\<lambda>_. serving tls r)"
  by (rule hoare_no_error) (simp add: parseSSLerror_run)

lemma serving_calls:
  "hoare (serving tls r) E (ext_call env k) (\<lambda>_. serving tls r)"
  "hoare (serving tls r) E (ext_ret env k) (\<lambda>_. serving tls r)"
  by (rule hoare_no_error, simp add: run_simps)+

text \<open>The cells of a payload: over TLS some may not have been received.\<close>

abbreviation cells_ok :: "bool \<Rightarrow> buffer \<Rightarrow> bool" where
  "cells_ok tls p \<equiv> tls \<or> None \<notin> set p"

lemma rd_error:
  assumes "i < length p" and "cells_ok tls p" and "rd p i = Inl e"
  shows "e \<in> run_errors tls r"
  using assms
  by (cases "p ! i") (auto simp: rd_def cell_def determinate_def dest: nth_mem)

lemma read_all_error:
  assumes "i + n \<le> length p" and "cells_ok tls p" and "read_all p i n = Inl e"
  shows "e \<in> run_errors tls r"
  using assms
proof (induction n arbitrary: i)
  case (Suc n)
  then show ?case
    using rd_error [of i p tls e r] Suc.IH [of "Suc i"] by (auto simp: rbind_eq_Inl)
qed simp

text \<open>What the application may call.\<close>

lemma serving_sendDiagnosticAck:
  "hoare (serving tls r :: ('h, 'a) DoIPConnection \<Rightarrow> bool) (run_errors tls r \<union> X)
     (sendDiagnosticAck env sa ack code) (\<lambda>_. serving tls r)"
proof (rule hoareI)
  fix c :: "('h, 'a) DoIPConnection"
  assume s: "serving tls r c"
  show "case sendDiagnosticAck env sa ack code c of
      Inl e \<Rightarrow> e \<in> run_errors tls r \<union> X | Inr (x, c') \<Rightarrow> serving tls r c'"
  proof (cases "routedClientAddress c")
    case None
    with s show ?thesis by (simp add: sendDiagnosticAck_unrouted serving_def)
  next
    case (Some p)
    with s obtain a b where "routedClientAddress c = Some [Some a, Some b]"
      by (auto simp: serving_def)
    with sendDiagnosticAck_run [of c a b env sa ack code] s show ?thesis by auto
  qed
qed

lemma serving_sendDiagnosticPayload:
  assumes "n = int (length data)" and "n \<le> int_max - 12"
  shows "hoare (serving tls r :: ('h, 'a) DoIPConnection \<Rightarrow> bool) (run_errors tls r \<union> X)
           (sendDiagnosticPayload env sa (map Some data) n) (\<lambda>_. serving tls r)"
proof (rule hoareI)
  fix c :: "('h, 'a) DoIPConnection"
  assume s: "serving tls r c"
  show "case sendDiagnosticPayload env sa (map Some data) n c of
      Inl e \<Rightarrow> e \<in> run_errors tls r \<union> X | Inr (x, c') \<Rightarrow> serving tls r c'"
  proof (cases "routedClientAddress c")
    case None
    with s assms show ?thesis
      by (simp add: sendDiagnosticPayload_def run_simps read_all_initialised serving_def
          createDiagnosticMessage_bad_pointer)
  next
    case (Some p)
    with s obtain a b where "routedClientAddress c = Some [Some a, Some b]"
      by (auto simp: serving_def)
    with sendDiagnosticPayload_run [of c a b data env sa] s assms show ?thesis by auto
  qed
qed

section \<open>The application's contract\<close>

locale safe_app =
  fixes env :: env
    and app :: "('h, 'a) app"
    and extra :: "cpp_error set"
  assumes close_quiet: "quiet_close app"
    and close_errors: "run_close app h c = Inl e \<Longrightarrow> e \<in> extra"
    and notify_safe: "hoare (serving tls r) (run_errors tls r \<union> extra) (run_notify app h ta)
      (\<lambda>_. serving tls r)"
    and diag_safe: "0 < n \<Longrightarrow> length m = nat n \<Longrightarrow> tls \<or> None \<notin> set m \<Longrightarrow>
      hoare (serving tls r) (run_errors tls r \<union> extra) (run_diag app h ta m n) (\<lambda>_. serving tls r)"
begin

abbreviation errors :: "bool \<Rightarrow> bool \<Rightarrow> cpp_error set" where
  "errors tls r \<equiv> run_errors tls r \<union> extra"

text \<open>The timer thread, which runs only once an address was activated.\<close>

abbreviation ticking :: "bool \<Rightarrow> bool \<Rightarrow> ('h, 'a) DoIPConnection \<Rightarrow> bool" where
  "ticking tls r c \<equiv> serving tls r c \<and> active (aliveCheckTimer c)"

lemma close_cb_keeps:
  assumes J: "\<And>c tr a. J c \<Longrightarrow> J (c\<lparr>trace := trace c @ tr, app_state := a\<rparr>)"
    and set: "\<And>c. J c \<Longrightarrow> close_connection c \<noteq> None"
  shows "hoare J (errors tls r) (call_member close_connection (run_close app)) (\<lambda>_. J)"
proof (rule hoareI)
  fix c
  assume c: "J c"
  with set obtain h where h: "close_connection c = Some h" by blast
  show "case call_member close_connection (run_close app) c of
      Inl e \<Rightarrow> e \<in> errors tls r | Inr (x, c') \<Rightarrow> J c'"
  proof (cases "run_close app h c")
    case (Inl e)
    with h show ?thesis by (simp add: call_member_def run_simps close_errors [OF Inl])
  next
    case (Inr xc)
    then obtain x c' where run: "run_close app h c = Inr (x, c')" by (cases xc) auto
    with h c show ?thesis
      by (auto simp: call_member_def run_simps intro: J elim!: quiet_closeE [OF close_quiet])
  qed
qed

lemma ticking_close_cb:
  "hoare (ticking tls r) (errors tls r) (call_member close_connection (run_close app))
     (\<lambda>_. ticking tls r)"
  by (rule close_cb_keeps) (auto simp: serving_def)

lemma serving_trigger:
  "hoare (serving tls r) (errors tls r) (triggerDisconnection app) (\<lambda>_. serving tls r)"
  unfolding triggerDisconnection_def by (rule close_cb_keeps) (auto simp: serving_def)

lemma ticking_closeSocket:
  "hoare (ticking tls r) E (closeSocket env skip) (\<lambda>_. ticking tls r)"
proof (rule hoareI)
  fix c :: "('h, 'a) DoIPConnection"
  assume t: "ticking tls r c"
  obtain tr where run: "closeSocket env skip c = Inr ((), if client_sock c = 0 then c
      else c\<lparr>trace := trace c @ tr, client_sock := 0, ssl := None\<rparr>)"
    using closeSocket_cases [of env skip c] by blast
  have "serving tls r (if client_sock c = 0 then c
      else c\<lparr>trace := trace c @ tr, client_sock := 0, ssl := None\<rparr>)"
    using hoareD(1) [OF serving_closeSocket, OF _ run] t by blast
  with t run show "case closeSocket env skip c of
      Inl e \<Rightarrow> e \<in> E | Inr (x, c') \<Rightarrow> ticking tls r c'"
    by simp
qed

lemma ticking_iteration:
  "hoare (ticking tls r) (errors tls r) (timer_iteration env (run_timer_cb env app))
     (\<lambda>_. ticking tls r)"
proof -
  have fire: "hoare (ticking tls r) (errors tls r) (run_timer_cb env app k) (\<lambda>_. ticking tls r)" for k
    by (cases k) (simp add: aliveCheckTimeout_def,
        rule wp_thn, rule ticking_close_cb, rule ticking_closeSocket)
  show ?thesis
    unfolding timer_iteration_def Let_def update_timer_def
    by (rule hoare_pre, (rule wp fire)+)
       (auto simp: serving_def conn_ok_def timer_of_client_def timer_inv_def determinate_def
         split: option.splits sum.splits)
qed

lemma ticking_thread:
  "hoare (ticking tls r) (errors tls r) (waitForResponse n env (run_timer_cb env app))
     (\<lambda>_. ticking tls r)"
proof (induction n)
  case 0
  show ?case by (simp, rule hoare_pre, (rule wp)+)
next
  case (Suc n)
  show ?case
    by (simp, rule hoare_pre, (rule wp Suc ticking_iteration)+) auto
qed

lemma serving_thread:
  "hoare (ticking tls r) (errors tls r) (waitForResponse n env (run_timer_cb env app))
     (\<lambda>_. serving tls r)"
  by (rule hoare_post [OF ticking_thread]) simp_all

lemma serving_timer_slice:
  "hoare (serving tls r) (errors tls r) (timer_slice env app) (\<lambda>_. serving tls r)"
  unfolding timer_slice_def
  by (rule hoare_pre, (rule wp serving_thread)+)
     (auto simp: serving_def conn_ok_def timer_of_client_def timer_inv_def split: if_splits)

text \<open>Only over TLS can the object be gone after the wait.\<close>

lemma serving_SSL_read:
  "hoare (\<lambda>c. serving tls r c \<and> tls) (errors tls r)
     (thn (timer_slice env app)
        (bnd (gets ssl) (\<lambda>s'. if s' = Some h then ext_call env (SSL_read h k)
                             else fail UseAfterFree)))
     (\<lambda>_. serving tls r)"
proof (cases tls)
  case True
  have "hoare (serving tls r) (errors tls r)
      (bnd (gets ssl) (\<lambda>s'. if s' = Some h then ext_call env (SSL_read h k)
                           else fail UseAfterFree)) (\<lambda>_. serving tls r)"
    by (rule hoare_pre, (rule serving_calls wp)+) (simp add: True)
  then have "hoare (serving tls r) (errors tls r)
     (thn (timer_slice env app)
        (bnd (gets ssl) (\<lambda>s'. if s' = Some h then ext_call env (SSL_read h k)
                             else fail UseAfterFree))) (\<lambda>_. serving tls r)"
    by (rule wp_thn) (rule serving_timer_slice)
  then show ?thesis by (rule hoare_pre) blast
qed (simp add: hoare_def)

lemma serving_blocking_read:
  "hoare (serving tls r) (errors tls r) (blocking_read env app k) (\<lambda>_. serving tls r)"
  unfolding blocking_read_def
  by (rule hoare_pre,
      (rule serving_SSL_read serving_timer_slice serving_calls wp_bnd wp_option wp_gets wp_thn)+)
     (auto simp: serving_def split: option.splits)

lemma serving_read_error:
  "hoare (serving tls r) E (handle_SSL_read_error env h x) (\<lambda>_. serving tls r)"
proof -
  have "hoare (serving tls r) E (thn (closeSocket env True) (return (-1 :: int))) (\<lambda>_. serving tls r)"
    by (rule wp_thn [OF wp_return]) (rule serving_closeSocket)
  then have "hoare (serving tls r) E
      (if err = SSL_ERROR_ZERO_RETURN then return 0
       else if err = SSL_ERROR_SYSCALL \<or> err = SSL_ERROR_SSL
       then thn (closeSocket env True) (return (-1 :: int)) else return (-1))
      (\<lambda>_. serving tls r)" for err
    by (auto intro: wp_return)
  then show ?thesis
    unfolding handle_SSL_read_error_def by (rule wp_bnd) (rule serving_parseSSLerror)
qed

lemma serving_failed_read:
  "hoare (serving tls r) (errors tls r)
      (bnd (gets ssl) (\<lambda>s. case s of
         Some h \<Rightarrow> bnd (handle_SSL_read_error env h x) (\<lambda>q. return (f q, b))
       | None \<Rightarrow> return (pos, b))) (\<lambda>_. serving tls r)"
  by (rule hoare_pre,
      (rule serving_read_error wp_bnd wp_option wp_gets wp_return)+) (simp split: option.splits)

lemma serving_receive_loop:
  assumes "length b = unat pos + unat k" and "unat pos + unat k < 2 ^ 64"
  shows "hoare (serving tls r) (errors tls r) (receive_loop env app k pos b) (\<lambda>_. serving tls r)"
  using assms
proof (induction "unat k" arbitrary: k pos b rule: less_induct)
  case less
  have next_read: "hoare (serving tls r) (errors tls r) (if \<not> read_contract k a then fail EnvContract
      else bnd (lift (put_bytes b (unat pos) (bytes a))) (\<lambda>b'.
        receive_loop env app (k - word_of_int (ret a)) (pos + word_of_int (ret a)) b'))
      (\<lambda>_. serving tls r)"
    if "0 < ret a" for a
  proof (cases "read_contract k a")
    case True
    note dec = read_decreases [OF that True]
    have len: "ret a = int (length (bytes a))" using True by (simp add: read_contract_def)
    then obtain b' where b': "put_bytes b (unat pos) (bytes a) = Inr b'" and "length b' = length b"
      using dec(2) less.prems(1) by (simp add: put_bytes_def)
    have pos: "unat (pos + word_of_int (ret a)) = unat pos + nat (ret a)"
      using dec(1,2) less.prems(2) by (simp add: unat_plus_if')
    have "hoare (serving tls r) (errors tls r)
        (receive_loop env app (k - word_of_int (ret a)) (pos + word_of_int (ret a)) b')
        (\<lambda>_. serving tls r)"
      by (rule less.hyps)
         (use dec that less.prems pos \<open>length b' = length b\<close> in auto)
    with True b' show ?thesis by (simp add: bnd_lift_Inr)
  qed (simp add: hoare_def fail_def)
  show ?case
  proof (cases "0 < k")
    case True
    have "hoare (serving tls r) (errors tls r) (receive_loop env app k pos b) (\<lambda>_. serving tls r)"
      unfolding receive_loop.simps [of env app k pos b]
      by (simp add: True del: if_not_P)
         (rule wp_bnd [OF _ serving_blocking_read], simp add: serving_failed_read next_read)
    then show ?thesis .
  next
    case False
    then show ?thesis
      unfolding receive_loop.simps [of env app k pos b] by (simp add: hoare_def return_def)
  qed
qed

lemma serving_receive_payload:
  "hoare (serving tls r) (errors tls r) (receive_payload env app k) (\<lambda>_. serving tls r)"
proof -
  have "unat k < 2 ^ LENGTH(64)" by (rule unsigned_less)
  then have loop: "hoare (serving tls r) (errors tls r)
      (receive_loop env app k 0 (replicate (unat k) None)) (\<lambda>_. serving tls r)"
    by (intro serving_receive_loop) simp_all
  show ?thesis
    unfolding receive_payload_def receiveFixedNumberOfBytesFromTcpOrTls_def Let_def
    by (intro keep keep_bnd loop serving_calls) simp
qed

section \<open>Reacting\<close>

lemma source_address_error:
  assumes "2 \<le> length p" and "cells_ok tls p"
    and "source_address_differs p [Some a, Some b] = Inl e"
  shows "e \<in> run_errors tls r"
proof -
  obtain x y q where p: "p = x # y # q"
    using assms(1) by (metis Suc_1 Suc_le_length_iff numeral_2_eq_2)
  show ?thesis
    using assms(2,3) unfolding p
    by (cases x; cases y)
       (auto simp: source_address_differs_def rd_def cell_def split: if_splits)
qed

lemma serving_parse:
  assumes n: "4 \<le> n \<Longrightarrow> length p = nat n \<and> 4 < n" and ok: "cells_ok tls p"
    and deliver: "\<And>ta m k. 0 < k \<Longrightarrow> length m = nat k \<Longrightarrow> cells_ok tls m \<Longrightarrow>
      hoare (serving tls r) (errors tls r) (deliver ta m k) (\<lambda>_. serving tls r)"
  shows "hoare (\<lambda>c. serving tls r c \<and> routedClientAddress c = ra) (errors tls r)
           (parseDiagnosticMessage deliver ra (Some p) n) (\<lambda>_. serving tls r)"
proof (cases "4 \<le> n")
  case False
  then show ?thesis by (simp add: parseDiagnosticMessage_short hoare_def return_def)
next
  case True
  with n have len: "length p = nat n" "4 < n" by simp_all
  show ?thesis
  proof (cases ra)
    case None
    with True show ?thesis
      by (auto simp: hoare_def parseDiagnosticMessage_no_address serving_def)
  next
    case (Some q)
    show ?thesis
    proof (cases "\<exists>a b. q = [Some a, Some b]")
      case False
      with Some show ?thesis by (auto simp: hoare_def serving_def)
    next
      case True
      then obtain a b where q: "q = [Some a, Some b]" by blast
      have copied: "copy_loop (nat (n - 4)) (replicate (nat (n - 4)) None) 0 p 4 =
          Inr (drop 4 p)"
        using len by (simp add: copy_loop_eq)
      have body: "hoare (serving tls r) (errors tls r) (deliver ta (drop 4 p) (n - 4))
          (\<lambda>_. serving tls r)" for ta
        by (rule deliver) (use len ok in \<open>auto dest: in_set_dropD\<close>)
      show ?thesis
        unfolding parseDiagnosticMessage_def Some q DiagnosticMessageMinimumLength_def Let_def
        by (rule hoare_pre [where P = "serving tls r"])
           (use len copied in \<open>auto simp: bnd_lift_Inr
             intro!: keep keep_bnd_lift body
             dest!: rd_error [OF _ ok, rotated] source_address_error [OF _ ok, rotated]\<close>)
    qed
  qed
qed

lemma serving_pass_to_application:
  assumes "4 < length p" and "length p = unat n" and "unat n < 2 ^ 32" and "cells_ok tls p"
  shows "hoare (serving tls r) (errors tls r) (pass_to_application app (Some p) n)
           (\<lambda>_. serving tls r)"
proof (rule hoareI)
  fix c :: "('h, 'a) DoIPConnection"
  assume s: "serving tls r c"
  then obtain h where h: "diag_callback c = Some h" by (auto simp: serving_def)
  have n: "length p = nat (u64_to_int n) \<and> 4 < u64_to_int n" if "4 \<le> u64_to_int n"
  proof -
    have eq: "u64_to_int n = int (length p)"
      using u64_to_int_minimum [OF assms(3)] that assms(2) by simp
    show ?thesis using assms(1) by (simp add: eq)
  qed
  have "hoare (\<lambda>c'. serving tls r c' \<and> routedClientAddress c' = routedClientAddress c) (errors tls r)
      (bnd (parseDiagnosticMessage (\<lambda>ta m n. run_diag app h ta m n) (routedClientAddress c) (Some p)
         (u64_to_int n)) (\<lambda>_. return ())) (\<lambda>_. serving tls r)"
    by (rule wp_bnd [OF wp_return]) (intro serving_parse n assms(4) diag_safe)
  then show "case pass_to_application app (Some p) n c of
      Inl e \<Rightarrow> e \<in> errors tls r | Inr (x, c') \<Rightarrow> serving tls r c'"
    using s h by (simp add: pass_to_application_def run_simps hoare_def)
qed

lemma serving_negative_ack:
  "hoare (serving tls r :: ('h, 'a) DoIPConnection \<Rightarrow> bool) (errors tls r)
     (sendNegativeAck env code) (\<lambda>_. serving tls r)"
proof (rule hoare_no_error)
  fix c :: "('h, 'a) DoIPConnection"
  assume "serving tls r c"
  then show "\<exists>x c'. sendNegativeAck env code c = Inr (x, c') \<and> serving tls r c'"
    using sendNegativeAck_run [of env code c] by auto
qed

lemma serving_activate:
  "hoare (serving tls r :: ('h, 'a) DoIPConnection \<Rightarrow> bool) (errors tls r)
     (activate_client env (Some a # Some b # q)) (\<lambda>_. serving tls r)"
proof (rule hoare_no_error)
  fix c :: "('h, 'a) DoIPConnection"
  assume s: "serving tls r c"
  let ?c = "c\<lparr>routedClientAddress := Some [Some a, Some b]\<rparr>"
  obtain tr t where run: "start_once env ?c =
      Inr ((), ?c\<lparr>trace := trace ?c @ tr, aliveCheckTimer := t\<rparr>)"
    and t: "started (aliveCheckTimer c) t"
    using start_once_run [of env ?c] by auto
  have "maxSeconds t = maxSeconds (aliveCheckTimer c)"
    using t by (auto simp: started_def split: if_splits)
  with s t have "serving tls r (?c\<lparr>trace := trace ?c @ tr, aliveCheckTimer := t\<rparr>)"
    by (auto simp: serving_def conn_ok_def intro: timer_of_client_started)
  with run show "\<exists>x c'. activate_client env (Some a # Some b # q) c = Inr (x, c') \<and> serving tls r c'"
    by (auto simp: activate_client_eq run_simps)
qed

lemma serving_notify:
  "hoare (serving tls r) (errors tls r)
     (call_member notify_application (\<lambda>h. run_notify app h ta)) (\<lambda>_. serving tls r)"
proof (rule hoareI)
  fix c :: "('h, 'a) DoIPConnection"
  assume s: "serving tls r c"
  then obtain h where "notify_application c = Some h" by (auto simp: serving_def)
  with s notify_safe [of tls r h ta] show
    "case call_member notify_application (\<lambda>h. run_notify app h ta) c of
      Inl e \<Rightarrow> e \<in> errors tls r | Inr (x, c') \<Rightarrow> serving tls r c'"
    by (simp add: call_member_def run_simps hoare_def)
qed

text \<open>The payload that goes with a verdict.\<close>

definition payload_for :: "bool \<Rightarrow> verdict \<Rightarrow> ptr \<Rightarrow> bool" where
  "payload_for tls v payload \<longleftrightarrow>
     (0 < verdict_length v \<longrightarrow>
        (\<exists>p. payload = Some p \<and> length p = verdict_length v \<and> cells_ok tls p \<and>
             (verdict_length v < 2 ^ 32 - 1 \<longrightarrow> None \<notin> set p)))"

definition verdict_ok :: "verdict \<Rightarrow> bool" where
  "verdict_ok v \<longleftrightarrow> (case v of Accepted t n \<Rightarrow> length_table t n | Rejected code n \<Rightarrow> True)"

lemma react_activation_safe:
  assumes "action_type action = Some ROUTINGACTIVATIONREQUEST"
  shows "hoare (serving tls r) (errors tls r)
           (reactOnReceivedTcpMessage env app action k (Some (Some a # Some b # Some t # q)))
           (\<lambda>_. serving tls r)"
proof (rule hoareI)
  fix c :: "('h, 'a) DoIPConnection"
  assume s: "serving tls r c"
  let ?code = "activation_code a b t"
  let ?m = "map Some (activation_message (logicalGatewayAddress c) a b ?code)"
  have "17 = int (length ?m)" by (simp add: activation_message_def)
  then have send: "hoare (serving tls r :: ('h, 'a) DoIPConnection \<Rightarrow> bool) (errors tls r)
      (sendMessage env ?m 17) (\<lambda>_. serving tls r)"
    by (intro hoare_pre [OF serving_sendMessage]) blast
  have "hoare (serving tls r :: ('h, 'a) DoIPConnection \<Rightarrow> bool) (errors tls r)
      (bnd (sendMessage env ?m 17) (\<lambda>sentBytes.
         if ?code \<noteq> SuccessfullyRoutedCode then thn (closeSocket env False) (return (-1))
         else thn (activate_client env (Some a # Some b # Some t # q)) (return sentBytes)))
      (\<lambda>_. serving tls r)"
    by (intro keep keep_bnd send serving_closeSocket serving_activate)
  with s show "case reactOnReceivedTcpMessage env app action k
      (Some (Some a # Some b # Some t # q)) c of
      Inl e \<Rightarrow> e \<in> errors tls r | Inr (x, c') \<Rightarrow> serving tls r c'"
    unfolding react_activation_run [OF assms refl] by (simp add: hoare_def)
qed

lemma serving_react_activation:
  assumes "action_type action = Some ROUTINGACTIVATIONREQUEST"
    and "verdict_ok (Accepted ROUTINGACTIVATIONREQUEST n)"
    and "payload_for tls (Accepted ROUTINGACTIVATIONREQUEST n) payload"
  shows "hoare (serving tls r) (errors tls r) (reactOnReceivedTcpMessage env app action k payload)
           (\<lambda>_. serving tls r)"
proof -
  have "n = 7 \<or> n = 11" using assms(2) by (simp add: verdict_ok_def)
  with assms(3) obtain d where d: "payload = Some d" "3 \<le> length d" "None \<notin> set d"
    by (auto simp: payload_for_def verdict_length_def)
  then obtain x y z q where "d = x # y # z # q"
    by (metis One_nat_def Suc_1 Suc_le_length_iff numeral_3_eq_3)
  with d(3) obtain a b u where "d = Some a # Some b # Some u # q"
    by (cases x; cases y; cases z) auto
  with d(1) assms(1) show ?thesis by (simp add: react_activation_safe)
qed

lemma serving_react_diagnostic:
  assumes ty: "action_type action = Some DIAGNOSTICMESSAGE"
    and "verdict_ok (Accepted DIAGNOSTICMESSAGE n)"
    and "payload_for tls (Accepted DIAGNOSTICMESSAGE n) payload"
    and "unat k = n" "n < 2 ^ 32"
  shows "hoare (serving tls r) (errors tls r) (reactOnReceivedTcpMessage env app action k payload)
           (\<lambda>_. serving tls r)"
proof -
  obtain d where d: "payload = Some d" "length d = n" "4 < n" "cells_ok tls d"
    using assms(2,3) by (auto simp: payload_for_def verdict_ok_def verdict_length_def)
  have cells: "2 < length d" "3 < length d" using d by simp_all
  have pass: "hoare (serving tls r) (errors tls r) (pass_to_application app (Some d) k)
      (\<lambda>_. serving tls r)"
    using d assms(4,5) by (intro serving_pass_to_application) simp_all
  show ?thesis
    unfolding reactOnReceivedTcpMessage_def ty d(1)
    using rd_error [OF cells(1) d(4)] rd_error [OF cells(2) d(4)]
    by (simp add: bnd_lift_Inr)
       (intro keep keep_bnd_lift keep_bnd serving_notify pass; blast)
qed

lemma serving_react:
  assumes v: "verdict_of action = Some v" and ok: "verdict_ok v" and p: "payload_for tls v payload"
    and k: "unat k = verdict_length v" "verdict_length v < 2 ^ 32"
  shows "hoare (serving tls r) (errors tls r) (reactOnReceivedTcpMessage env app action k payload)
           (\<lambda>_. serving tls r)"
  using v
proof (cases rule: verdict_ofE)
  case (rejected code n)
  show ?thesis
    unfolding reactOnReceivedTcpMessage_def rejected
    by (simp add: bnd_lift_Inr rejected)
       (intro keep keep_bnd serving_negative_ack serving_closeSocket)
next
  case (accepted t n)
  consider (activation) "t = ROUTINGACTIVATIONREQUEST" | (diagnostic) "t = DIAGNOSTICMESSAGE"
    | (other) "t \<notin> {NEGATIVEACK, ROUTINGACTIVATIONREQUEST, DIAGNOSTICMESSAGE}"
    using accepted(3) by auto
  then show ?thesis
  proof cases
    case activation
    with accepted ok p show ?thesis by (intro serving_react_activation) simp_all
  next
    case diagnostic
    with accepted ok p k show ?thesis
      by (intro serving_react_diagnostic [where n = n]) (simp_all add: verdict_length_def)
  next
    case other
    show ?thesis
    proof (rule hoareI)
      fix c :: "('h, 'a) DoIPConnection"
      assume "serving tls r c"
      with react_other [OF accepted(2) other, of env app k payload c] show
        "case reactOnReceivedTcpMessage env app action k payload c of
          Inl e \<Rightarrow> e \<in> errors tls r | Inr (x, c') \<Rightarrow> serving tls r c'" by auto
    qed
  qed
qed

lemma serving_reset_and_react:
  assumes "verdict_of action = Some v" and "verdict_ok v" and "payload_for tls v payload"
    and "unat k = verdict_length v" and "verdict_length v < 2 ^ 32"
  shows "hoare (serving tls r) (errors tls r) (reset_and_react env app action k payload)
           (\<lambda>_. serving tls r)"
proof -
  have reset: "hoare (\<lambda>c. serving tls r c \<and> active (aliveCheckTimer c)) (errors tls r)
      (resetTimer env) (\<lambda>_. serving tls r)"
    by (rule hoare_no_error)
       (auto simp: resetTimer_def run_simps serving_def conn_ok_def timer_of_client_def timer_inv_def)
  show ?thesis
    unfolding reset_and_react_def
    by (rule hoare_pre,
        (rule serving_react [OF assms] reset wp_bnd wp_thn wp_on_cond wp_gets)+) simp
qed

section \<open>Receiving\<close>

lemma verdict_ok_header: "verdict_ok (header_spec h)"
  by (simp add: verdict_ok_def header_spec_def Let_def split: option.split)

lemma verdict_length_header: "verdict_length (header_spec h) < 2 ^ 32"
proof -
  have "unat (be32 (h ! 4) (h ! 5) (h ! 6) (h ! 7)) < 2 ^ LENGTH(32)" by (rule unsigned_less)
  then show ?thesis
    by (simp add: verdict_length_def header_spec_def Let_def split: option.split)
qed

lemma verdict_of_payloadLength:
  "verdict_of action = Some v \<Longrightarrow> \<exists>k. action_payloadLength action = Some k \<and> unat k = verdict_length v"
  by (auto simp: verdict_of_def verdict_length_def split: option.splits if_splits)

lemma received_payload_for:
  assumes "serving tls r c" and "receive_payload env app k c = Inr (Some payload, c')"
    and "unat k = verdict_length v"
  shows "payload_for tls v payload"
proof (cases "0 < unat k")
  case True
  then have pos: "0 < k" by (simp add: word_less_nat_alt)
  from assms(1) have "tls \<or> over_tcp c" by (simp add: serving_def over_tcp_def)
  from receive_payload_result [OF close_quiet assms(2) this] obtain bs where
    full: "tls \<longrightarrow> unat k < 2 ^ 32 - 1 \<Longrightarrow> length bs = unat k \<and> (bs \<noteq> [] \<longrightarrow> payload = Some (map Some bs))"
    by blast
  from receive_payload_length [OF close_quiet assms(2) pos] obtain b where
    b: "payload = Some b" "length b = unat k" by blast
  show ?thesis
  proof (cases "tls \<longrightarrow> unat k < 2 ^ 32 - 1")
    case True
    with full b \<open>0 < unat k\<close> have "b = map Some bs" by auto
    then have "None \<notin> set b" by auto
    with b assms(3) show ?thesis by (simp add: payload_for_def)
  next
    case False
    with b assms(3) show ?thesis by (auto simp: payload_for_def)
  qed
qed (use assms(3) in \<open>simp add: payload_for_def\<close>)

lemma serving_payload_and_react:
  assumes "verdict_of action = Some v" and "verdict_ok v"
    and "unat k = verdict_length v" and "verdict_length v < 2 ^ 32"
  shows "hoare (serving tls r) (errors tls r)
           (bnd (receive_payload env app k) (\<lambda>p. case p of
              None \<Rightarrow> thn (closeSocket env False) (return 0)
            | Some payload \<Rightarrow> reset_and_react env app action k payload)) (\<lambda>_. serving tls r)"
proof (rule wp_bnd)
  show "hoare (serving tls r) (errors tls r) (receive_payload env app k)
      (\<lambda>p c. serving tls r c \<and> (\<forall>payload. p = Some payload \<longrightarrow> payload_for tls v payload))"
  proof (rule hoareI)
    fix c :: "('h, 'a) DoIPConnection"
    assume s: "serving tls r c"
    then show "case receive_payload env app k c of
        Inl e \<Rightarrow> e \<in> errors tls r
      | Inr (p, c') \<Rightarrow> serving tls r c' \<and> (\<forall>payload. p = Some payload \<longrightarrow> payload_for tls v payload)"
      using hoareD [OF serving_receive_payload s] received_payload_for [OF s _ assms(3)]
      by (auto split: sum.splits)
  qed
  show "hoare (\<lambda>c. serving tls r c \<and> (\<forall>payload. p = Some payload \<longrightarrow> payload_for tls v payload))
      (errors tls r) (case p of
              None \<Rightarrow> thn (closeSocket env False) (return 0)
            | Some payload \<Rightarrow> reset_and_react env app action k payload) (\<lambda>_. serving tls r)" for p
  proof (cases p)
    case None
    have "hoare (serving tls r) (errors tls r) (thn (closeSocket env False) (return 0))
        (\<lambda>_. serving tls r)"
      by (intro keep serving_closeSocket)
    with None show ?thesis by (simp add: hoare_def)
  next
    case (Some payload)
    show ?thesis
    proof (cases "payload_for tls v payload")
      case True
      from serving_reset_and_react [OF assms(1,2) True assms(3,4)] Some show ?thesis
        by (simp add: hoare_def)
    qed (simp add: hoare_def Some)
  qed
qed

lemma serving_close:
  "hoare (serving tls r :: ('h, 'a) DoIPConnection \<Rightarrow> bool) (errors tls r)
     (thn (closeSocket env False) (return (0 :: int))) (\<lambda>_. serving tls r)"
  by (intro keep serving_closeSocket)

lemma serving_after_header:
  assumes "(ucast n :: u32) = 8 \<longrightarrow> (\<exists>h. length h = 8 \<and> b = map Some h)"
  shows "hoare (serving tls r) (errors tls r) (after_header env app n b) (\<lambda>_. serving tls r)"
proof (cases "(ucast n :: u32) = 8")
  case False
  then show ?thesis
    unfolding after_header_def by (auto intro!: keep keep_bnd serving_close)
next
  case True
  with assms obtain h where h: "length h = 8" "b = map Some h" by blast
  from parse_header_eq [of h 8 "[]"] h obtain action where
    parse: "parseGenericHeader b 8 = Inr action" and v: "verdict_of action = Some (header_spec h)"
    by auto
  from verdict_of_payloadLength [OF v] obtain k where
    k: "action_payloadLength action = Some k" "unat k = verdict_length (header_spec h)" by blast
  show ?thesis
    unfolding after_header_def parse
    by (rule keep_bnd)
       (auto simp: True bnd_lift_Inr k(1) intro!: keep_prim serving_close
         serving_payload_and_react [OF v verdict_ok_header k(2) verdict_length_header])
qed

lemma serving_header:
  "hoare (serving tls r) (errors tls r)
     (receiveFixedNumberOfBytesFromTcpOrTls env app 8 (replicate 8 None))
     (\<lambda>(n, b) c. serving tls r c \<and>
        ((ucast n :: u32) = 8 \<longrightarrow> (\<exists>h. length h = 8 \<and> b = map Some h)))"
proof (rule hoareI)
  fix c :: "('h, 'a) DoIPConnection"
  assume s: "serving tls r c"
  let ?h = "receiveFixedNumberOfBytesFromTcpOrTls env app 8 (replicate 8 None)"
  from s have plain: "tls \<or> over_tcp c" by (simp add: serving_def over_tcp_def)
  have "hoare (serving tls r) (errors tls r)
      (receive_loop env app 8 0 (replicate 8 None)) (\<lambda>_. serving tls r)"
    by (rule serving_receive_loop) simp_all
  then have fixed: "hoare (serving tls r) (errors tls r) ?h (\<lambda>_. serving tls r)"
    by (simp add: receiveFixedNumberOfBytesFromTcpOrTls_def)
  show "case ?h c of Inl e \<Rightarrow> e \<in> errors tls r
    | Inr (x, c') \<Rightarrow> (case x of (n, b) \<Rightarrow> \<lambda>c. serving tls r c \<and>
        ((ucast n :: u32) = 8 \<longrightarrow> (\<exists>h. length h = 8 \<and> b = map Some h))) c'"
  proof (cases "?h c")
    case (Inl e)
    with hoareD(2) [OF fixed s] show ?thesis by simp
  next
    case (Inr x)
    then obtain n b c' where run: "?h c = Inr ((n, b), c')" by (cases x) auto
    obtain h where "loop_result tls 8 n h b"
      using receiveFixed_result [OF close_quiet, of env 8 c n b c' tls] run plain by auto
    then have "(ucast n :: u32) = 8 \<longrightarrow> length h = 8 \<and> b = map Some h"
      using all_received [of tls 8 n h b] by simp
    with hoareD(1) [OF fixed s run] show ?thesis unfolding run by auto
  qed
qed

text \<open>The errors that a call of \<open>receiveTcpOrTlsMessage\<close> can end with.\<close>

lemma serving_receive:
  "hoare (serving tls r) (errors tls r) (receiveTcpOrTlsMessage env app) (\<lambda>_. serving tls r)"
proof -
  have "hoare (\<lambda>c. serving tls r c \<and>
        ((ucast n :: u32) = 8 \<longrightarrow> (\<exists>h. length h = 8 \<and> b = map Some h))) (errors tls r)
      (after_header env app n b) (\<lambda>_. serving tls r)" for n b
    using serving_after_header [of n b tls r]
    by (cases "(ucast n :: u32) = 8 \<longrightarrow> (\<exists>h. length h = 8 \<and> b = map Some h)")
       (auto simp: hoare_def)
  then show ?thesis
    unfolding receive_eq by (intro wp_bnd [OF _ serving_header]) (simp split: prod.split)
qed

end

end
