(* ===== verification/Doip_Vehicle.thy ===== *)
theory Doip_Vehicle
  imports Doip_Header
begin

text \<open>
  The vehicle identification response, also used as vehicle announcement:
  \<open>libdoipserver/src/VehicleIdentificationHandler.cpp\<close>.
\<close>

definition VIResponseLength :: int where
  "VIResponseLength = 32"

text \<open>
  The loop over the message bytes 8 to 24: \<open>i\<close> is the position written, \<open>j\<close> the next character
  of the VIN, the first argument the number of iterations left.
\<close>

fun vin_loop :: "nat \<Rightarrow> nat \<Rightarrow> nat \<Rightarrow> string \<Rightarrow> buffer \<Rightarrow> buffer result" where
  "vin_loop 0 i j VIN message = Inr message"
| "vin_loop (Suc n) i j VIN message =
     (if j < length VIN
      then rbind (put message i (Some (of_char (VIN ! j)))) (vin_loop n (i + 1) (j + 1) VIN)
      else rbind (put message i (Some (of_char CHR ''0''))) (vin_loop n (i + 1) j VIN))"

definition createVehicleIdentificationResponse ::
  "string \<Rightarrow> u16 \<Rightarrow> buffer \<Rightarrow> buffer \<Rightarrow> byte \<Rightarrow> buffer result" where
  "createVehicleIdentificationResponse VIN LogicalAddress EID GID FurtherActionReq =
     rbind (createGenericHeader VEHICLEIDENTRESPONSE (word_of_int VIResponseLength)) (\<lambda>message.
     rbind (vin_loop 17 8 0 VIN message) (\<lambda>message.
     rbind (writes [(25, byte_at 8 LogicalAddress), (26, byte_at 0 LogicalAddress)] message)
       (\<lambda>message.
     rbind (copy_loop 6 message 27 EID 0) (\<lambda>message.
     rbind (copy_loop 6 message 33 GID 0) (\<lambda>message.
     writes [(39, FurtherActionReq)] message)))))"

section \<open>The fields of the response\<close>

text \<open>Seventeen bytes: the VIN cut or padded with \<open>'0'\<close>.\<close>

definition vin_field :: "string \<Rightarrow> byte list" where
  "vin_field VIN = take 17 (map of_char VIN @ replicate 17 (of_char CHR ''0''))"

lemma vin_field_length [simp]: "length (vin_field VIN) = 17"
  by (simp add: vin_field_def)

text \<open>What remains to be written after \<open>j\<close> characters.\<close>

definition vin_rest :: "nat \<Rightarrow> nat \<Rightarrow> string \<Rightarrow> byte list" where
  "vin_rest n j VIN = take n (map of_char (drop j VIN) @ replicate n (of_char CHR ''0''))"

lemma vin_rest_Suc:
  "vin_rest (Suc n) j VIN =
   (if j < length VIN then of_char (VIN ! j) # vin_rest n (Suc j) VIN
    else of_char CHR ''0'' # vin_rest n j VIN)"
proof (cases "j < length VIN")
  case True
  then have "drop j VIN = VIN ! j # drop (Suc j) VIN"
    by (simp add: Cons_nth_drop_Suc)
  with True show ?thesis
    by (simp add: vin_rest_def take_Cons' replicate_append_same [symmetric] del: replicate.simps)
next
  case False
  then show ?thesis by (simp add: vin_rest_def)
qed

lemma vin_loop_eq:
  assumes "i + n \<le> length message"
  shows "vin_loop n i j VIN message =
         Inr (take i message @ map Some (vin_rest n j VIN) @ drop (i + n) message)"
  using assms
proof (induction n arbitrary: i j message)
  case 0
  then show ?case by (simp add: vin_rest_def)
next
  case (Suc n)
  have upd: "take (Suc i) (message[i := c]) = take i message @ [c]" for c
    using Suc.prems by (simp add: take_Suc_conv_app_nth)
  show ?case
    using Suc.prems by (simp add: put_def Suc.IH upd vin_rest_Suc)
qed

lemma vin_rest_field: "vin_rest 17 0 VIN = vin_field VIN"
  by (simp add: vin_rest_def vin_field_def)

lemma createVehicleIdentificationResponse_eq:
  assumes "length EID = 6" and "length GID = 6"
  shows "createVehicleIdentificationResponse VIN LA EID GID far =
         Inr (map Some (header_bytes (0x00, 0x04) 32) @ map Some (vin_field VIN)
              @ [Some (byte_at 8 LA), Some (byte_at 0 LA)] @ EID @ GID @ [Some far])"
proof -
  have header: "createGenericHeader VEHICLEIDENTRESPONSE (word_of_int VIResponseLength) =
      Inr (map Some (header_bytes (0x00, 0x04) 32) @ replicate 32 None)"
    by (simp add: createGenericHeader_eq VIResponseLength_def del: replicate_Cons_numeral)
  show ?thesis
    unfolding createVehicleIdentificationResponse_def header rbind_Inr
    using assms
    by (simp add: vin_loop_eq vin_rest_field put_append_right copy_loop_eq list_update_append)
qed

interpretation identification_response: recognised_message
  "\<lambda>(VIN, LA, EID, GID, far). createVehicleIdentificationResponse VIN LA EID GID far"
  "\<lambda>(VIN, LA, EID, GID, far). length EID = 6 \<and> length GID = 6"
  "\<lambda>_. VEHICLEIDENTRESPONSE"
  "\<lambda>_. 32"
  by unfold_locales
     (auto simp: createVehicleIdentificationResponse_eq type_table.simps)

end
