(* ===== verification/Doip_Server.thy ===== *)
theory Doip_Server
  imports Doip_Connection_Ops Doip_Vehicle
begin

text \<open>
  The DoIP entity itself, \<open>libdoipserver/src/DoIPServer.cpp\<close> and the class in \<open>DoIPServer.h\<close>:
  the configuration, the TCP, TLS and UDP sockets, accepting clients, answering vehicle
  identification requests and announcing the vehicle. The record \<open>DoIPServer\<close> has one field per
  member; a member without an initialiser is \<open>None\<close> until it is written.

  \<open>std::runtime_error\<close>s are the errors \<open>RuntimeError\<close>. A connection that is accepted continues
  the history of the server.
\<close>

section \<open>State (DoIPServer.h)\<close>

definition ServerPortTLS :: u16 where "ServerPortTLS = 4433"
definition ServerPortTcpUdp :: u16 where "ServerPortTcpUdp = 13400"
definition MaxDataSize :: nat where "MaxDataSize = 0xFFFFFF"

record DoIPServer = world +
  ctx :: "nat option"
  server_socket_tls :: "int option"
  server_socket_tcp :: "int option"
  server_socket_udp :: "int option"
  serverAddress :: sockaddr_in
  clientAddress :: sockaddr_in
  udp_data :: buffer
  VIN :: string
  LogicalGatewayAddress :: u16
  EID :: buffer
  GID :: buffer
  FurtherActionReq :: byte
  A_DoIP_Announce_Num :: int
  A_DoIP_Announce_Interval :: int
  broadcast :: int

type_synonym 'a server_prog = "(DoIPServer, 'a) prog"

definition newDoIPServer :: "history \<Rightarrow> DoIPServer" where
  "newDoIPServer tr =
     \<lparr>trace = tr, ctx = None, server_socket_tls = None, server_socket_tcp = None,
      server_socket_udp = None, serverAddress = uninit_sockaddr, clientAddress = uninit_sockaddr,
      udp_data = replicate MaxDataSize None,
      VIN = ''00000000000000000'', LogicalGatewayAddress = 0x0000,
      EID = replicate 6 None, GID = replicate 6 (Some 0x00), FurtherActionReq = 0x00,
      A_DoIP_Announce_Num = 3, A_DoIP_Announce_Interval = 500, broadcast = 1\<rparr>"

section \<open>TLS context\<close>

definition create_context :: "env \<Rightarrow> nat server_prog" where
  "create_context env =
     bnd (ext_ret env SSL_CTX_new) (\<lambda>c.
     if nat c = 0 then fail (RuntimeError ''Unable to create SSL context'')
     else return (nat c))"

definition configure_context_client_auth :: "env \<Rightarrow> nat \<Rightarrow> unit server_prog" where
  "configure_context_client_auth env c =
     bnd (ext_ret env (SSL_CTX_use_certificate_file c ''../ca_keys/server-cert.pem'')) (\<lambda>r.
     if r \<le> 0 then fail (RuntimeError ''Unable to use SSL certificate'') else
     bnd (ext_ret env (SSL_CTX_use_PrivateKey_file c ''../ca_keys/server-key.pem'')) (\<lambda>r.
     if r \<le> 0 then fail (RuntimeError ''Unable to use SSL private key'') else
     bnd (ext_ret env (SSL_CTX_load_verify_locations c ''../ca_keys/ca-cert.pem'')) (\<lambda>r.
     if r \<le> 0 then fail (RuntimeError ''Unable to load SSL ca certificate'') else
     thn (ext_do env (SSL_CTX_set_verify c))
         (ext_do env (SSL_CTX_set_verify_depth c 1)))))"

section \<open>TCP and TLS\<close>

text \<open>\<open>serverAddress\<close> is shared by all sockets; each setup overwrites its port.\<close>

definition set_server_address :: "u16 \<Rightarrow> unit server_prog" where
  "set_server_address port =
     modify (\<lambda>s. s\<lparr>serverAddress :=
       \<lparr>sin_family = Some AF_INET, sin_port = Some port, sin_addr = Some INADDR_ANY\<rparr>\<rparr>)"

definition setup_context :: "env \<Rightarrow> unit server_prog" where
  "setup_context env =
     bnd (create_context env) (\<lambda>c.
     thn (modify (\<lambda>s. s\<lparr>ctx := Some c\<rparr>)) (configure_context_client_auth env c))"

text \<open>\<open>*socket_ptr = socket(...)\<close>, \<open>bind\<close> and \<open>listen\<close>.\<close>

definition open_listener :: "env \<Rightarrow> bool \<Rightarrow> unit server_prog" where
  "open_listener env isTls =
     bnd (ext_ret env (Socket True)) (\<lambda>fd.
     thn (modify (\<lambda>s. if isTls then s\<lparr>server_socket_tls := Some fd\<rparr>
                      else s\<lparr>server_socket_tcp := Some fd\<rparr>))
    (if fd < 0 then fail (RuntimeError ''Unable to create socket'') else
     thn (set_server_address (if isTls then ServerPortTLS else ServerPortTcpUdp))
    (bnd (gets serverAddress) (\<lambda>a.
     bnd (ext_ret env (Bind fd a)) (\<lambda>r.
     if r < 0 then fail (RuntimeError ''Unable to bind'') else
     bnd (ext_ret env (Listen fd 5)) (\<lambda>r.
     if r < 0 then fail (RuntimeError ''Unable to listen'') else return ()))))))"

definition setupTcpOrTlsSocket :: "env \<Rightarrow> bool \<Rightarrow> unit server_prog" where
  "setupTcpOrTlsSocket env isTls =
     thn (on_cond isTls (setup_context env)) (open_listener env isTls)"

text \<open>\<open>app\<close> is the state of the application the new connection belongs to.\<close>

definition waitForTcpConnection :: "env \<Rightarrow> 'a \<Rightarrow> ('h, 'a) DoIPConnection server_prog" where
  "waitForTcpConnection env a =
     bnd (gets server_socket_tcp) (\<lambda>fd.
     bnd (lift (determinate fd)) (\<lambda>fd.
     bnd (ext_ret env (Accept fd)) (\<lambda>client.
     if client < 0 then fail (RuntimeError ''Unable to accept tcp client'') else
     gets (\<lambda>s. newDoIPConnection (trace s) a client (LogicalGatewayAddress s) None))))"

definition waitForTlsConnection :: "env \<Rightarrow> 'a \<Rightarrow> ('h, 'a) DoIPConnection server_prog" where
  "waitForTlsConnection env a =
     bnd (gets server_socket_tls) (\<lambda>fd.
     bnd (lift (determinate fd)) (\<lambda>fd.
     bnd (ext_ret env (Accept fd)) (\<lambda>client.
     if client < 0 then fail (RuntimeError ''Unable to accept tls client'') else
     bnd (gets ctx) (\<lambda>c.
     bnd (ext_ret env (SSL_new c)) (\<lambda>h.
     thn (ext_do env (SSL_set_fd (nat h) client))
    (bnd (ext_ret env (SSL_accept (nat h))) (\<lambda>r.
     if r \<le> 0 then fail (RuntimeError ''Unable to accept ssl client'') else
     gets (\<lambda>s. newDoIPConnection (trace s) a client (LogicalGatewayAddress s)
                 (if nat h = 0 then None else Some (nat h))))))))))"

definition close_server_socket ::
  "env \<Rightarrow> (DoIPServer \<Rightarrow> int option) \<Rightarrow> unit server_prog" where
  "close_server_socket env member =
     bnd (gets member) (\<lambda>fd.
     bnd (lift (determinate fd)) (\<lambda>fd. ext_do env (CloseFd fd)))"

definition closeTlsSocket :: "env \<Rightarrow> unit server_prog" where
  "closeTlsSocket env =
     bnd (gets ctx) (\<lambda>c.
     thn (ext_do env (SSL_CTX_free c))
    (thn (modify (\<lambda>s. s\<lparr>ctx := None\<rparr>))
         (close_server_socket env server_socket_tls)))"

definition closeTcpSocket :: "env \<Rightarrow> unit server_prog" where
  "closeTcpSocket env = close_server_socket env server_socket_tcp"

definition closeUdpSocket :: "env \<Rightarrow> unit server_prog" where
  "closeUdpSocket env = close_server_socket env server_socket_udp"

section \<open>UDP\<close>

definition setMulticastGroup :: "env \<Rightarrow> string \<Rightarrow> unit server_prog" where
  "setMulticastGroup env address =
     bnd (gets server_socket_udp) (\<lambda>fd.
     bnd (lift (determinate fd)) (\<lambda>fd.
     bnd (ext_ret env (SetReuseAddr fd)) (\<lambda>setPort.
     bnd (ext_ret env (JoinMulticast fd address)) (\<lambda>setGroup. return ()))))"

definition setupUdpSocket :: "env \<Rightarrow> unit server_prog" where
  "setupUdpSocket env =
     bnd (ext_ret env (Socket False)) (\<lambda>fd.
     thn (modify (\<lambda>s. s\<lparr>server_socket_udp := Some fd\<rparr>))
    (thn (set_server_address ServerPortTcpUdp)
    (bnd (gets serverAddress) (\<lambda>a.
     thn (ext_do env (Bind fd a))
         (setMulticastGroup env ''224.0.0.2'')))))"

definition sendUdpMessage :: "env \<Rightarrow> buffer \<Rightarrow> int \<Rightarrow> int server_prog" where
  "sendUdpMessage env message messageLength =
     thn (modify (\<lambda>s. s\<lparr>clientAddress :=
            (clientAddress s)\<lparr>sin_port := sin_port (serverAddress s),
                              sin_addr := sin_addr (serverAddress s)\<rparr>\<rparr>))
    (bnd (gets server_socket_udp) (\<lambda>fd.
     bnd (lift (determinate fd)) (\<lambda>fd.
     bnd (lift (message_cells message messageLength)) (\<lambda>m.
     bnd (gets clientAddress) (\<lambda>a.
     ext_ret env (Sendto fd m a))))))"

definition vehicle_message :: "DoIPServer \<Rightarrow> buffer result" where
  "vehicle_message s =
     createVehicleIdentificationResponse (VIN s) (LogicalGatewayAddress s) (EID s) (GID s)
       (FurtherActionReq s)"

definition reactToReceivedUdpMessage :: "env \<Rightarrow> int \<Rightarrow> int server_prog" where
  "reactToReceivedUdpMessage env readedBytes =
     bnd (gets udp_data) (\<lambda>d.
     bnd (lift (parseGenericHeader d readedBytes)) (\<lambda>action.
     bnd (lift (determinate (action_type action))) (\<lambda>t.
     case t of
       VEHICLEIDENTRESPONSE \<Rightarrow> return (-1)
     | NEGATIVEACK \<Rightarrow>
         bnd (lift (createGenericHeader t (word_of_int NACKLength))) (\<lambda>message.
         bnd (lift (determinate (action_value action))) (\<lambda>v.
         bnd (lift (writes [(8, v)] message)) (\<lambda>message.
         bnd (sendUdpMessage env message (GenericHeaderLength + NACKLength)) (\<lambda>sendedBytes.
         if v = IncorrectPatternFormatCode \<or> v = InvalidPayloadLengthCode then return (-1)
         else return sendedBytes))))
     | VEHICLEIDENTREQUEST \<Rightarrow>
         bnd (gets vehicle_message) (\<lambda>m.
         bnd (lift m) (\<lambda>message.
         sendUdpMessage env message (GenericHeaderLength + VIResponseLength)))
     | _ \<Rightarrow> return (-1))))"

text \<open>\<open>recvfrom\<close> stores a prefix of \<open>data\<close>; nothing if it fails.\<close>

definition receiveUdpMessage :: "env \<Rightarrow> int server_prog" where
  "receiveUdpMessage env =
     bnd (gets server_socket_udp) (\<lambda>fd.
     bnd (lift (determinate fd)) (\<lambda>fd.
     bnd (ext_call env (Recvfrom fd (of_nat MaxDataSize))) (\<lambda>a.
     if 0 \<le> ret a \<and> ret a \<noteq> int (length (bytes a)) then fail EnvContract else
     bnd (gets udp_data) (\<lambda>d.
     bnd (lift (put_bytes d 0 (if 0 \<le> ret a then bytes a else []))) (\<lambda>d.
     thn (modify (\<lambda>s. s\<lparr>udp_data := d\<rparr>))
         (reactToReceivedUdpMessage env (ret a)))))))"

section \<open>Configuration\<close>

text \<open>\<open>ifr.ifr_hwaddr.sa_data\<close> has 14 bytes; a failed \<open>ioctl\<close> leaves them unwritten.\<close>

definition setEIDdefault :: "env \<Rightarrow> unit server_prog" where
  "setEIDdefault env =
     bnd (ext_ret env (Socket False)) (\<lambda>fd.
     bnd (ext_call env (GetHwAddr fd ''ens33'')) (\<lambda>a.
     thn (ext_do env (CloseFd fd))
    (let mac = take 14 ((if 0 \<le> ret a then map Some (bytes a) else []) @ replicate 14 None) in
     bnd (gets EID) (\<lambda>eid.
     bnd (lift (copy_loop 6 eid 0 mac 0)) (\<lambda>eid.
     modify (\<lambda>s. s\<lparr>EID := eid\<rparr>))))))"

definition setVIN :: "string \<Rightarrow> unit server_prog" where
  "setVIN VINString = modify (\<lambda>s. s\<lparr>VIN := VINString\<rparr>)"

definition setLogicalGatewayAddress :: "u16 \<Rightarrow> unit server_prog" where
  "setLogicalGatewayAddress inputLogAdd = modify (\<lambda>s. s\<lparr>LogicalGatewayAddress := inputLogAdd\<rparr>)"

definition write_id :: "u64 \<Rightarrow> buffer \<Rightarrow> buffer result" where
  "write_id x =
     writes [(0, byte_at 40 x), (1, byte_at 32 x), (2, byte_at 24 x), (3, byte_at 16 x),
             (4, byte_at 8 x), (5, byte_at 0 x)]"

definition setEID :: "u64 \<Rightarrow> unit server_prog" where
  "setEID inputEID =
     bnd (gets EID) (\<lambda>eid.
     bnd (lift (write_id inputEID eid)) (\<lambda>eid. modify (\<lambda>s. s\<lparr>EID := eid\<rparr>)))"

definition setGID :: "u64 \<Rightarrow> unit server_prog" where
  "setGID inputGID =
     bnd (gets GID) (\<lambda>gid.
     bnd (lift (write_id inputGID gid)) (\<lambda>gid. modify (\<lambda>s. s\<lparr>GID := gid\<rparr>)))"

definition setFAR :: "u32 \<Rightarrow> unit server_prog" where
  "setFAR inputFAR = modify (\<lambda>s. s\<lparr>FurtherActionReq := byte_at 0 inputFAR\<rparr>)"

definition setA_DoIP_Announce_Num :: "int \<Rightarrow> unit server_prog" where
  "setA_DoIP_Announce_Num Num = modify (\<lambda>s. s\<lparr>A_DoIP_Announce_Num := Num\<rparr>)"

definition setA_DoIP_Announce_Interval :: "int \<Rightarrow> unit server_prog" where
  "setA_DoIP_Announce_Interval Interval = modify (\<lambda>s. s\<lparr>A_DoIP_Announce_Interval := Interval\<rparr>)"

section \<open>Announcements\<close>

text \<open>The loop: \<open>n\<close> iterations are left, the last argument is \<open>sendedmessage\<close>.\<close>

fun announce_loop :: "nat \<Rightarrow> env \<Rightarrow> buffer \<Rightarrow> int option \<Rightarrow> int option server_prog" where
  "announce_loop 0 env m sendedmessage = return sendedmessage"
| "announce_loop (Suc n) env m sendedmessage =
     bnd (gets server_socket_udp) (\<lambda>fd.
     bnd (lift (determinate fd)) (\<lambda>fd.
     bnd (gets clientAddress) (\<lambda>a.
     bnd (ext_ret env (Sendto fd m a)) (\<lambda>sent.
     bnd (gets A_DoIP_Announce_Interval) (\<lambda>ms.
     thn (ext_do env (SleepMs ms))
         (announce_loop n env m (Some sent)))))))"

definition sendVehicleAnnouncement :: "env \<Rightarrow> int server_prog" where
  "sendVehicleAnnouncement env =
     thn (modify (\<lambda>s. s\<lparr>clientAddress := (clientAddress s)\<lparr>sin_port := Some 13401\<rparr>\<rparr>))
    (bnd (inet_aton env ''255.255.255.255'') (\<lambda>addr.
     thn (on_cond (addr \<noteq> None)
            (modify (\<lambda>s. s\<lparr>clientAddress := (clientAddress s)\<lparr>sin_addr := addr\<rparr>\<rparr>)))
    (bnd (gets server_socket_udp) (\<lambda>fd.
     bnd (lift (determinate fd)) (\<lambda>fd.
     bnd (gets broadcast) (\<lambda>b.
     bnd (ext_ret env (SetBroadcast fd b)) (\<lambda>socketError.
     if socketError \<noteq> 0 then return (-1) else
     bnd (gets vehicle_message) (\<lambda>m.
     bnd (lift m) (\<lambda>message.
     bnd (lift (message_cells message (GenericHeaderLength + VIResponseLength))) (\<lambda>cells.
     bnd (gets A_DoIP_Announce_Num) (\<lambda>num.
     bnd (announce_loop (nat num) env cells None) (\<lambda>sendedmessage.
     lift (determinate sendedmessage)))))))))))))"

section \<open>Updates in a canonical order\<close>

lemma server_update_order [simp]:
  "s\<lparr>clientAddress := a, trace := h\<rparr> = s\<lparr>trace := h, clientAddress := a\<rparr>"
  "s\<lparr>ctx := c, trace := h\<rparr> = s\<lparr>trace := h, ctx := c\<rparr>"
  "s\<lparr>udp_data := d, trace := h\<rparr> = s\<lparr>trace := h, udp_data := d\<rparr>"
  for s :: DoIPServer
  by simp_all

section \<open>Identifiers\<close>

text \<open>The six bytes of an EID or a GID are the low 48 bits of the number given.\<close>

definition id_bytes :: "u64 \<Rightarrow> byte list" where
  "id_bytes x =
     [byte_at 40 x, byte_at 32 x, byte_at 24 x, byte_at 16 x, byte_at 8 x, byte_at 0 x]"

fun be48 :: "byte list \<Rightarrow> u64" where
  "be48 [b5, b4, b3, b2, b1, b0] =
     push_bit 40 (ucast b5) OR push_bit 32 (ucast b4) OR push_bit 24 (ucast b3) OR
     push_bit 16 (ucast b2) OR push_bit 8 (ucast b1) OR ucast b0"
| "be48 _ = 0"

lemma be48_id_bytes: "be48 (id_bytes x) = take_bit 48 x"
proof (rule bit_word_eqI)
  fix n :: nat
  assume n: "n < LENGTH(64)"
  have low: "bit (ucast (byte_at 0 x) :: u64) n \<longleftrightarrow> n < 8 \<and> bit x n"
    using bit_push_byte_at [of 0 x n] by simp
  show "bit (be48 (id_bytes x)) n = bit (take_bit 48 x) n"
    unfolding id_bytes_def be48.simps bit_or_iff bit_push_byte_at low bit_take_bit_iff
    using n by auto
qed

lemma id_bytes_length [simp]: "length (id_bytes x) = 6"
  by (simp add: id_bytes_def)

lemma length_6: "length b = 6 \<longleftrightarrow> (\<exists>x0 x1 x2 x3 x4 x5. b = [x0, x1, x2, x3, x4, x5])"
  by (auto simp: length_Suc_conv eval_nat_numeral)

lemma write_id_eq: "length b = 6 \<Longrightarrow> write_id x b = Inr (map Some (id_bytes x))"
  by (auto simp: write_id_def id_bytes_def put_def length_6)

section \<open>What serving leaves alone\<close>

text \<open>
  Set-up, accepting, answering, announcing and closing change the sockets, the addresses, the TLS
  context and the datagram buffer, and never what the setters configure, and none of them asks for
  the hardware address. A predicate that survives such changes survives these operations.
\<close>

definition hardware_query :: "ext \<Rightarrow> bool" where
  "hardware_query k = (case k of GetHwAddr fd name \<Rightarrow> True | _ \<Rightarrow> False)"

locale server_invariant =
  fixes I :: "DoIPServer \<Rightarrow> bool"
  assumes inv_call: "I s \<Longrightarrow> \<not> hardware_query k \<Longrightarrow> I (s\<lparr>trace := trace s @ [(k, a)]\<rparr>)"
    and inv_ctx: "I s \<Longrightarrow> I (s\<lparr>ctx := c\<rparr>)"
    and inv_socket: "I s \<Longrightarrow> I (s\<lparr>server_socket_tls := Some fd\<rparr>)"
      "I s \<Longrightarrow> I (s\<lparr>server_socket_tcp := Some fd\<rparr>)"
      "I s \<Longrightarrow> I (s\<lparr>server_socket_udp := Some fd\<rparr>)"
    and inv_address: "I s \<Longrightarrow> I (s\<lparr>serverAddress := sa\<rparr>)" "I s \<Longrightarrow> I (s\<lparr>clientAddress := sa\<rparr>)"
    and inv_data: "I s \<Longrightarrow> length d = length (udp_data s) \<Longrightarrow> I (s\<lparr>udp_data := d\<rparr>)"
begin

lemma inv_calls:
  "\<not> hardware_query k \<Longrightarrow> preserves I (ext_call env k)"
  "\<not> hardware_query k \<Longrightarrow> preserves I (ext_ret env k)"
  "\<not> hardware_query k \<Longrightarrow> preserves I (ext_do env k)"
  by (auto simp: preserves_def run_simps inv_call)

lemma inv_set_address: "preserves I (set_server_address port)"
  unfolding set_server_address_def by (rule preserves_modify) (rule inv_address)

lemma inv_inet_aton: "preserves I (inet_aton env a)"
  unfolding inet_aton_def
  by (intro pres inv_calls; auto intro!: pres inv_calls simp: hardware_query_def split: list.split)

lemma inv_setup: "preserves I (setupTcpOrTlsSocket env tls)"
  unfolding setupTcpOrTlsSocket_def setup_context_def open_listener_def create_context_def
    configure_context_client_auth_def
  by (intro pres preserves_modify inv_calls inv_set_address) (auto intro: inv_ctx inv_socket simp: hardware_query_def)

lemma inv_setup_udp: "preserves I (setupUdpSocket env)"
  unfolding setupUdpSocket_def setMulticastGroup_def
  by (intro pres preserves_modify inv_calls inv_set_address inv_socket)
     (simp_all add: hardware_query_def)

lemma inv_accept: "preserves I (waitForTcpConnection env a)" "preserves I (waitForTlsConnection env a)"
  unfolding waitForTcpConnection_def waitForTlsConnection_def
  by (auto intro!: pres inv_calls simp: hardware_query_def)

lemma inv_close:
  "preserves I (closeTlsSocket env)" "preserves I (closeTcpSocket env)" "preserves I (closeUdpSocket env)"
  unfolding closeTlsSocket_def closeTcpSocket_def closeUdpSocket_def close_server_socket_def
  by (auto intro!: pres preserves_modify inv_calls inv_ctx simp: hardware_query_def)

lemma inv_react_udp: "preserves I (reactToReceivedUdpMessage env n)"
proof -
  have "preserves I (sendUdpMessage env m n)" for m n
    unfolding sendUdpMessage_def
    by (intro pres preserves_modify inv_calls inv_address) (simp_all add: hardware_query_def)
  then show ?thesis
    unfolding reactToReceivedUdpMessage_def
    by (intro pres; auto split: PayloadType.split intro!: pres)
qed

lemma inv_receive_udp: "preserves I (receiveUdpMessage env)"
proof (rule preservesI)
  fix s x s'
  assume I: "I s" and run: "receiveUdpMessage env s = Inr (x, s')"
  then obtain d fd m a n where len: "length d = length (udp_data s)"
    and react: "reactToReceivedUdpMessage env n
      (s\<lparr>trace := trace s @ [(Recvfrom fd m, a)], udp_data := d\<rparr>) = Inr (x, s')"
    by (auto simp: receiveUdpMessage_def prog_eq_Inr ext_call_run split: if_splits
        dest!: put_bytes_length)
  from len have "I (s\<lparr>trace := trace s @ [(Recvfrom fd m, a)], udp_data := d\<rparr>)"
    by (intro inv_data inv_call I) (simp_all add: hardware_query_def)
  with react show "I s'" by (rule preservesD [OF inv_react_udp])
qed

lemma inv_announce: "preserves I (sendVehicleAnnouncement env)"
proof -
  have loop: "preserves I (announce_loop n env m x)" for n m x
    by (induction n arbitrary: x) (auto intro!: pres inv_calls simp: hardware_query_def)
  show ?thesis
    unfolding sendVehicleAnnouncement_def
    by (intro pres preserves_modify inv_calls inv_inet_aton inv_address loop)
       (simp_all add: hardware_query_def)
qed

end

section \<open>The members keep their sizes\<close>

definition server_ok :: "DoIPServer \<Rightarrow> bool" where
  "server_ok s \<longleftrightarrow>
     length (EID s) = 6 \<and> length (GID s) = 6 \<and> length (udp_data s) = MaxDataSize"

lemma server_ok_new: "server_ok (newDoIPServer tr)"
  by (simp add: server_ok_def newDoIPServer_def)

interpretation sizes: server_invariant server_ok
  by unfold_locales (simp_all add: server_ok_def)

lemma server_ok_setters [pres]:
  "preserves server_ok (setVIN v)" "preserves server_ok (setLogicalGatewayAddress a)"
  "preserves server_ok (setFAR f)" "preserves server_ok (setA_DoIP_Announce_Num i)"
  "preserves server_ok (setA_DoIP_Announce_Interval i)"
  unfolding setVIN_def setLogicalGatewayAddress_def setFAR_def setA_DoIP_Announce_Num_def
    setA_DoIP_Announce_Interval_def
  by (rule preserves_modify, simp add: server_ok_def)+

lemma server_ok_ids [pres]:
  "preserves server_ok (setEID x)" "preserves server_ok (setGID x)"
  "preserves server_ok (setEIDdefault env)"
  by (rule preservesI, auto simp: setEID_def setGID_def setEIDdefault_def Let_def prog_eq_Inr
      write_id_eq server_ok_def ext_call_run ext_ret_run ext_do_run copy_loop_eq)+

section \<open>What goes out over UDP\<close>

fun sent_by :: "ext \<Rightarrow> (int \<times> buffer \<times> sockaddr_in) list" where
  "sent_by (Sendto fd m a) = [(fd, m, a)]"
| "sent_by _ = []"

definition datagrams :: "history \<Rightarrow> (int \<times> buffer \<times> sockaddr_in) list" where
  "datagrams tr = concat (map (sent_by o fst) tr)"

lemma datagrams_simps [simp]:
  "datagrams [] = []"
  "datagrams (tr @ tr') = datagrams tr @ datagrams tr'"
  "datagrams (e # tr) = sent_by (fst e) @ datagrams tr"
  by (simp_all add: datagrams_def)

definition vehicle_bytes :: "DoIPServer \<Rightarrow> buffer" where
  "vehicle_bytes s =
     map Some (header_bytes (0x00, 0x04) 32 @ vin_field (VIN s)) @
     [Some (byte_at 8 (LogicalGatewayAddress s)), Some (byte_at 0 (LogicalGatewayAddress s))] @
     EID s @ GID s @ [Some (FurtherActionReq s)]"

lemma vehicle_message_eq: "server_ok s \<Longrightarrow> vehicle_message s = Inr (vehicle_bytes s)"
  by (simp add: vehicle_message_def createVehicleIdentificationResponse_eq server_ok_def
      vehicle_bytes_def)

lemma vehicle_bytes_length: "server_ok s \<Longrightarrow> length (vehicle_bytes s) = 40"
  by (simp add: vehicle_bytes_def server_ok_def)

text \<open>Where a reply goes: the address the server itself was bound to last.\<close>

definition reply_address :: "DoIPServer \<Rightarrow> sockaddr_in" where
  "reply_address s =
     (clientAddress s)\<lparr>sin_port := sin_port (serverAddress s), sin_addr := sin_addr (serverAddress s)\<rparr>"

lemma sendUdpMessage_eq:
  assumes "server_socket_udp s = Some fd" and "n = int (length m)"
  shows "\<exists>r. sendUdpMessage env m n s =
             Inr (r, s\<lparr>trace := trace s @ [(Sendto fd m (reply_address s),
                              env (trace s) (Sendto fd m (reply_address s)))],
                       clientAddress := reply_address s\<rparr>)"
  using assms
  by (simp add: sendUdpMessage_def run_simps message_cells_all reply_address_def)

text \<open>The reply to a datagram, by the meaning of its header.\<close>

fun udp_reply :: "DoIPServer \<Rightarrow> verdict \<Rightarrow> buffer list" where
  "udp_reply s (Rejected code n) = [map Some (nack_message code)]"
| "udp_reply s (Accepted t n) = (if t = VEHICLEIDENTREQUEST then [vehicle_bytes s] else [])"

lemma nack_header: "createGenericHeader NEGATIVEACK (word_of_int NACKLength) =
    Inr (map Some (header_bytes (0x00, 0x00) 1) @ [None])"
  by (simp add: createGenericHeader_eq NACKLength_def)

lemma nack_written:
  "writes [(8, v)] (map Some (header_bytes (0x00, 0x00) 1) @ [None]) = Inr (map Some (nack_message v))"
  by (simp add: put_append_right nack_message_def)

lemma react_udp:
  assumes ok: "server_ok s" and fd: "server_socket_udp s = Some fd"
    and data: "udp_data s = map Some d @ rest" and len: "8 \<le> length d" "8 \<le> n"
  shows "\<exists>r tr a. reactToReceivedUdpMessage env n s =
                  Inr (r, s\<lparr>trace := trace s @ tr, clientAddress := a\<rparr>) \<and>
                  datagrams tr = map (\<lambda>m. (fd, m, reply_address s)) (udp_reply s (header_spec d))"
proof -
  from parse_header_eq [OF len, of rest] obtain action where
    parse: "parseGenericHeader (udp_data s) n = Inr action"
    and "verdict_of action = Some (header_spec d)"
    by (auto simp: data)
  then show ?thesis
  proof (cases rule: verdict_ofE [OF \<open>verdict_of action = Some (header_spec d)\<close>])
    case (1 code m)
    obtain r where "sendUdpMessage env (map Some (nack_message code)) 9 s =
        Inr (r, s\<lparr>trace := trace s @ [(Sendto fd (map Some (nack_message code)) (reply_address s),
                  env (trace s) (Sendto fd (map Some (nack_message code)) (reply_address s)))],
                  clientAddress := reply_address s\<rparr>)"
      using sendUdpMessage_eq [OF fd, of 9 "map Some (nack_message code)" env]
      by (auto simp: nack_message_def)
    moreover have "GenericHeaderLength + NACKLength = 9" by (simp add: header_consts)
    ultimately show ?thesis
      using 1
      by (auto simp: reactToReceivedUdpMessage_def run_simps parse nack_header nack_written
          bnd_def simp del: writes.simps)
  next
    case (2 t m)
    show ?thesis
    proof (cases "t = VEHICLEIDENTREQUEST")
      case True
      obtain r where "sendUdpMessage env (vehicle_bytes s) 40 s =
          Inr (r, s\<lparr>trace := trace s @ [(Sendto fd (vehicle_bytes s) (reply_address s),
                    env (trace s) (Sendto fd (vehicle_bytes s) (reply_address s)))],
                    clientAddress := reply_address s\<rparr>)"
        using sendUdpMessage_eq [OF fd, of 40 "vehicle_bytes s" env] vehicle_bytes_length [OF ok]
        by auto
      with 2 True show ?thesis
        by (auto simp: reactToReceivedUdpMessage_def run_simps parse vehicle_message_eq [OF ok]
            GenericHeaderLength_def VIResponseLength_def)
    next
      case False
      have "s\<lparr>trace := trace s @ [], clientAddress := clientAddress s\<rparr> = s" by simp
      with 2 False show ?thesis
        by (intro exI [of _ "-1"] exI [of _ "[]"] exI [of _ "clientAddress s"])
           (cases t; simp add: reactToReceivedUdpMessage_def run_simps parse)
    qed
  qed
qed

lemma react_udp_short:
  "n < 8 \<Longrightarrow> reactToReceivedUdpMessage env n s = Inl Indeterminate"
  by (simp add: reactToReceivedUdpMessage_def run_simps parse_short uninit_action_def)

text \<open>A datagram of at least a header's length, received into the server's buffer.\<close>

lemma receive_udp:
  assumes ok: "server_ok s" and fd: "server_socket_udp s = Some fd"
    and a: "a = env (trace s) (Recvfrom fd (of_nat MaxDataSize))"
    and r: "ret a = int (length (bytes a))" and len: "8 \<le> length (bytes a)" "length (bytes a) \<le> MaxDataSize"
  shows "\<exists>q s' tr. receiveUdpMessage env s = Inr (q, s') \<and> trace s' = trace s @ tr \<and>
           datagrams tr = map (\<lambda>m. (fd, m, reply_address s)) (udp_reply s (header_spec (bytes a)))"
proof -
  let ?s = "s\<lparr>trace := trace s @ [(Recvfrom fd (of_nat MaxDataSize), a)],
               udp_data := map Some (bytes a) @ drop (length (bytes a)) (udp_data s)\<rparr>"
  have put: "put_bytes (udp_data s) 0 (bytes a) = Inr (udp_data ?s)"
    using ok len by (simp add: put_bytes_def server_ok_def)
  have ok': "server_ok ?s" using ok len by (simp add: server_ok_def)
  have n: "8 \<le> ret a" using r len by simp
  have step: "receiveUdpMessage env s = reactToReceivedUdpMessage env (ret a) ?s"
    using r put by (simp add: receiveUdpMessage_def run_simps fd a [symmetric])
  have same: "reply_address ?s = reply_address s" "udp_reply ?s v = udp_reply s v" for v
    by (cases v; simp add: reply_address_def vehicle_bytes_def)+
  have fd': "server_socket_udp ?s = Some fd" and d: "udp_data ?s =
      map Some (bytes a) @ drop (length (bytes a)) (udp_data s)"
    using fd by simp_all
  from react_udp [OF ok' fd' d len(1) n, of env] obtain q tr b where
    "reactToReceivedUdpMessage env (ret a) ?s = Inr (q, ?s\<lparr>trace := trace ?s @ tr, clientAddress := b\<rparr>)"
    and "datagrams tr = map (\<lambda>m. (fd, m, reply_address s)) (udp_reply s (header_spec (bytes a)))"
    unfolding same by blast
  with step show ?thesis
    by (intro exI [of _ q] exI [of _ "?s\<lparr>trace := trace ?s @ tr, clientAddress := b\<rparr>"]
        exI [of _ "(Recvfrom fd (of_nat MaxDataSize), a) # tr"]) simp
qed

lemma receive_udp_short:
  assumes "server_socket_udp s = Some fd" and "server_ok s"
    and "a = env (trace s) (Recvfrom fd (of_nat MaxDataSize))"
    and "ret a < 8" and "0 \<le> ret a \<longrightarrow> ret a = int (length (bytes a))"
  shows "receiveUdpMessage env s = Inl Indeterminate"
proof -
  let ?bs = "if 0 \<le> ret a then bytes a else []"
  have "length ?bs \<le> 8" using assms(4,5) by auto
  moreover have "length (udp_data s) = MaxDataSize" using assms(2) by (simp add: server_ok_def)
  moreover have "8 \<le> MaxDataSize" by (simp add: MaxDataSize_def)
  ultimately obtain b where b: "put_bytes (udp_data s) 0 ?bs = Inr b"
    unfolding put_bytes_def by simp
  show ?thesis
    using assms(1,4,5) b
    by (simp add: receiveUdpMessage_def run_simps react_udp_short assms(3) [symmetric] split: if_splits)
qed

section \<open>Sockets\<close>

text \<open>A setup that succeeds leaves a socket that is bound to the port and listening.\<close>

definition bound_to :: "u16 \<Rightarrow> sockaddr_in" where
  "bound_to port = \<lparr>sin_family = Some AF_INET, sin_port = Some port, sin_addr = Some INADDR_ANY\<rparr>"

lemma setup_context_run:
  assumes "setup_context env s = Inr (u, s')"
  shows "\<exists>tr c. s' = s\<lparr>trace := trace s @ tr, ctx := Some c\<rparr>"
proof -
  from assms obtain c tr where
    "configure_context_client_auth env c (s\<lparr>trace := trace s @ tr, ctx := Some c\<rparr>) = Inr (u, s')"
    by (auto simp: setup_context_def create_context_def prog_eq_Inr ext_ret_run split: if_splits)
  then show ?thesis
    by (auto simp: configure_context_client_auth_def prog_eq_Inr ext_ret_run ext_do_run
        split: if_splits)
qed

lemma open_listener_run:
  assumes "open_listener env tls s = Inr (u, s')"
  defines "port \<equiv> (if tls then ServerPortTLS else ServerPortTcpUdp)"
  shows "\<exists>fd tr. 0 \<le> fd \<and> (if tls then server_socket_tls s' else server_socket_tcp s') = Some fd \<and>
           serverAddress s' = bound_to port \<and> ctx s' = ctx s \<and>
           server_socket_udp s' = server_socket_udp s \<and> clientAddress s' = clientAddress s \<and>
           trace s' = trace s @ tr \<and>
           calls_of tr = [Socket True, Bind fd (bound_to port), Listen fd 5]"
  using assms(1)
  by (cases tls)
     (auto simp: open_listener_def set_server_address_def prog_eq_Inr ext_ret_run bound_to_def
       port_def split: if_splits)

lemma setup_listens:
  assumes "setupTcpOrTlsSocket env tls s = Inr (u, s')"
  defines "port \<equiv> (if tls then ServerPortTLS else ServerPortTcpUdp)"
  shows "\<exists>fd tr. 0 \<le> fd \<and> (if tls then server_socket_tls s' else server_socket_tcp s') = Some fd \<and>
           serverAddress s' = bound_to port \<and> (tls \<longrightarrow> ctx s' \<noteq> None) \<and>
           server_socket_udp s' = server_socket_udp s \<and> clientAddress s' = clientAddress s \<and>
           calls_of (trace s') = calls_of (trace s) @ calls_of tr @
             [Socket True, Bind fd (bound_to port), Listen fd 5]"
proof -
  from assms(1) obtain tr c where
    listen: "open_listener env tls (s\<lparr>trace := trace s @ tr, ctx := c\<rparr>) = Inr (u, s')"
    and c: "tls \<longrightarrow> c \<noteq> None"
  proof (cases tls)
    case True
    with assms(1) that show ?thesis
      by (auto simp: setupTcpOrTlsSocket_def prog_eq_Inr dest!: setup_context_run)
  next
    case False
    with assms(1) that [where tr = "[]" and c = "ctx s"] show ?thesis
      by (simp add: setupTcpOrTlsSocket_def prog_eq_Inr)
  qed
  from open_listener_run [OF listen] obtain fd tr' where "0 \<le> fd"
    "(if tls then server_socket_tls s' else server_socket_tcp s') = Some fd"
    "serverAddress s' = bound_to port" "ctx s' = c" "server_socket_udp s' = server_socket_udp s"
    "clientAddress s' = clientAddress s" "trace s' = (trace s @ tr) @ tr'"
    "calls_of tr' = [Socket True, Bind fd (bound_to port), Listen fd 5]"
    by (auto simp: port_def)
  with c show ?thesis
    by (intro exI [of _ fd] exI [of _ tr]) simp
qed

text \<open>So a reply over UDP goes to the port that was set up last, of whichever socket.\<close>

lemma reply_after_setup:
  assumes "setupTcpOrTlsSocket env tls s = Inr (u, s')"
  shows "sin_port (reply_address s') = Some (if tls then ServerPortTLS else ServerPortTcpUdp)"
    and "sin_addr (reply_address s') = Some INADDR_ANY"
  using setup_listens [OF assms] by (auto simp: reply_address_def bound_to_def)

section \<open>Announcements\<close>

lemma announce_loop_run:
  assumes "server_socket_udp s = Some fd" and "clientAddress s = a"
  shows "\<exists>r tr. announce_loop n env m x s = Inr (r, s\<lparr>trace := trace s @ tr\<rparr>) \<and>
           datagrams tr = replicate n (fd, m, a) \<and> (r = None \<longleftrightarrow> n = 0 \<and> x = None)"
  using assms
proof (induction n arbitrary: s x)
  case 0
  then show ?case by (auto simp: run_simps intro!: exI [of _ "[]"])
next
  case (Suc n)
  let ?sent = "env (trace s) (Sendto fd m a)"
  let ?tr = "[(Sendto fd m a, ?sent),
              (SleepMs (A_DoIP_Announce_Interval s),
               env (trace s @ [(Sendto fd m a, ?sent)]) (SleepMs (A_DoIP_Announce_Interval s)))]"
  let ?s = "s\<lparr>trace := trace s @ ?tr\<rparr>"
  from Suc.IH [of ?s "Some (ret ?sent)"] Suc.prems obtain r tr where
    "announce_loop n env m (Some (ret ?sent)) ?s = Inr (r, s\<lparr>trace := trace s @ ?tr @ tr\<rparr>)"
    and "datagrams tr = replicate n (fd, m, a)" and "r \<noteq> None" by auto
  with Suc.prems show ?case
    by (intro exI [of _ r] exI [of _ "?tr @ tr"]) (simp add: run_simps)
qed

text \<open>The destination: the limited broadcast address, port 13401.\<close>

lemma announcement:
  assumes ok: "server_ok s" and fd: "server_socket_udp s = Some fd"
    and aton: "a = env (trace s) (InetAton ''255.255.255.255'')" "ret a \<noteq> 0" "bytes a = [b3, b2, b1, b0]"
    and bc: "ret (env (trace s @ [(InetAton ''255.255.255.255'', a)]) (SetBroadcast fd (broadcast s))) = 0"
    and dest: "dest = (clientAddress s)\<lparr>sin_port := Some 13401, sin_addr := Some (be32 b3 b2 b1 b0)\<rparr>"
  shows "\<exists>tr r. datagrams tr = replicate (nat (A_DoIP_Announce_Num s)) (fd, vehicle_bytes s, dest) \<and>
           sendVehicleAnnouncement env s =
           (if A_DoIP_Announce_Num s \<le> 0 then Inl Indeterminate
            else Inr (r, s\<lparr>trace := trace s @ tr, clientAddress := dest\<rparr>))"
proof -
  let ?a2 = "env (trace s @ [(InetAton ''255.255.255.255'', a)]) (SetBroadcast fd (broadcast s))"
  let ?tr = "[(InetAton ''255.255.255.255'', a), (SetBroadcast fd (broadcast s), ?a2)]"
  let ?s = "s\<lparr>trace := trace s @ ?tr, clientAddress := dest\<rparr>"
  let ?n = "nat (A_DoIP_Announce_Num s)"
  obtain r tr where loop: "announce_loop ?n env (vehicle_bytes s) None ?s =
      Inr (r, ?s\<lparr>trace := trace ?s @ tr\<rparr>)"
    and d: "datagrams tr = replicate ?n (fd, vehicle_bytes s, dest)" and r: "r = None \<longleftrightarrow> ?n = 0"
    using announce_loop_run [of ?s fd dest ?n env "vehicle_bytes s" None] fd by auto
  have same: "vehicle_message (s\<lparr>trace := x, clientAddress := y\<rparr>) = Inr (vehicle_bytes s)" for x y
    using vehicle_message_eq [OF ok] by (simp add: vehicle_message_def)
  have cells: "message_cells (vehicle_bytes s) (GenericHeaderLength + VIResponseLength) =
      Inr (vehicle_bytes s)"
    using vehicle_bytes_length [OF ok]
    by (intro message_cells_all) (simp add: GenericHeaderLength_def VIResponseLength_def)
  have run: "sendVehicleAnnouncement env s =
      rbind (determinate r) (\<lambda>x. Inr (x, ?s\<lparr>trace := trace ?s @ tr\<rparr>))"
    using fd aton bc dest loop
    by (simp add: sendVehicleAnnouncement_def inet_aton_def run_simps bnd_assoc same cells bnd_def
        thn_def)
  from d r run show ?thesis
    by (intro exI [of _ "?tr @ tr"] exI [of _ "case r of None \<Rightarrow> 0 | Some x \<Rightarrow> x"])
       (auto simp: determinate_def split: option.splits)
qed

text \<open>The announcement in every case: it starts with its two calls, and goes on when the second succeeds.\<close>

lemma announcement_outcome:
  assumes ok: "server_ok s" and fd: "server_socket_udp s = Some fd" and num: "0 < A_DoIP_Announce_Num s"
    and a: "a = env (trace s) (InetAton ''255.255.255.255'')" "ret a \<noteq> 0 \<longrightarrow> length (bytes a) = 4"
    and b: "b = env (trace s @ [(InetAton ''255.255.255.255'', a)]) (SetBroadcast fd (broadcast s))"
  shows "\<exists>tr r dest. sendVehicleAnnouncement env s =
             Inr (r, s\<lparr>trace := trace s @ [(InetAton ''255.255.255.255'', a),
                         (SetBroadcast fd (broadcast s), b)] @ tr, clientAddress := dest\<rparr>) \<and>
           sin_port dest = Some 13401 \<and>
           (if ret b = 0
            then datagrams tr = replicate (nat (A_DoIP_Announce_Num s)) (fd, vehicle_bytes s, dest)
            else r = -1 \<and> tr = [])"
proof -
  let ?n = "nat (A_DoIP_Announce_Num s)"
  obtain addr where aton: "inet_aton env ''255.255.255.255'' w =
      Inr (addr, w\<lparr>trace := trace s @ [(InetAton ''255.255.255.255'', a)]\<rparr>)"
    if "trace w = trace s" for w :: DoIPServer
    using inet_aton_run [where env = env, OF a] by blast
  define dest where "dest = (if addr = None then (clientAddress s)\<lparr>sin_port := Some 13401\<rparr>
    else (clientAddress s)\<lparr>sin_port := Some 13401, sin_addr := addr\<rparr>)"
  let ?tr = "[(InetAton ''255.255.255.255'', a), (SetBroadcast fd (broadcast s), b)]"
  let ?s = "s\<lparr>trace := trace s @ ?tr, clientAddress := dest\<rparr>"
  obtain r tr where loop: "announce_loop ?n env (vehicle_bytes s) None ?s =
      Inr (r, ?s\<lparr>trace := trace ?s @ tr\<rparr>)"
    and d: "datagrams tr = replicate ?n (fd, vehicle_bytes s, dest)" and r: "r = None \<longleftrightarrow> ?n = 0"
    using announce_loop_run [of ?s fd dest ?n env "vehicle_bytes s" None] fd by auto
  have same: "vehicle_message (s\<lparr>trace := x, clientAddress := y\<rparr>) = Inr (vehicle_bytes s)" for x y
    using vehicle_message_eq [OF ok] by (simp add: vehicle_message_def)
  have cells: "message_cells (vehicle_bytes s) (GenericHeaderLength + VIResponseLength) =
      Inr (vehicle_bytes s)"
    using vehicle_bytes_length [OF ok]
    by (intro message_cells_all) (simp add: GenericHeaderLength_def VIResponseLength_def)
  have run: "sendVehicleAnnouncement env s =
      (if ret b \<noteq> 0 then Inr (-1, ?s)
       else rbind (determinate r) (\<lambda>x. Inr (x, ?s\<lparr>trace := trace ?s @ tr\<rparr>)))"
    using fd b [symmetric] loop unfolding dest_def
    by (cases addr)
       (simp_all add: sendVehicleAnnouncement_def aton run_simps same cells bnd_def thn_def return_def)
  have port: "sin_port dest = Some 13401" by (simp add: dest_def)
  show ?thesis
  proof (cases "ret b = 0")
    case True
    moreover obtain x where "r = Some x" using r num by auto
    ultimately show ?thesis
      using d run port by (intro exI [of _ tr] exI [of _ x] exI [of _ dest]) (simp add: determinate_def)
  next
    case False
    with run port show ?thesis by (intro exI [of _ "[]"] exI [of _ "-1"] exI [of _ dest]) simp
  qed
qed

end
