(* ===== verification/Doip_Example.thy ===== *)
theory Doip_Example
  imports Doip_Connection_Safe Doip_Server
begin

text \<open>
  The server program that comes with the library, \<open>examples/exampleDoIPServer.cpp\<close>: its
  callbacks, the loop that serves a client, and the loops that listen. It is the application on
  which the interfaces of \<open>Doip_Connection_Inv\<close> are interpreted.

  The state of the application is the global \<open>connections_counter\<close>. A connection gets one closure
  for each role, so the type of closures is \<open>unit\<close>. \<open>handleClient\<close>'s loop may run for ever; its
  first argument bounds the iterations, and its result says whether the loop was left.
\<close>

section \<open>Callbacks\<close>

type_synonym example_conn = "(unit, int) DoIPConnection"

definition LOGICAL_ADDRESS :: u16 where "LOGICAL_ADDRESS = 0x28"

definition ReceiveFromLibrary ::
  "env \<Rightarrow> u16 \<Rightarrow> buffer \<Rightarrow> int \<Rightarrow> (unit, int, unit) conn_prog" where
  "ReceiveFromLibrary env target_address data len =
     bnd (lift (read_all data 0 (nat len))) (\<lambda>_.
     bnd (if 2 < len then bnd (lift (rd data 0)) (\<lambda>d0. return (d0 = 0x22)) else return False)
       (\<lambda>read_request.
     if read_request then
       bnd (lift (rd data 1)) (\<lambda>d1.
       bnd (lift (rd data 2)) (\<lambda>d2.
       sendDiagnosticPayload env target_address
         (map Some [0x62, d1, d2, 0x01, 0x02, 0x03, 0x04]) 7))
     else
       bnd (lift (rd data 0)) (\<lambda>d0.
       sendDiagnosticPayload env target_address (map Some [0x7F, d0, 0x11]) 3)))"

definition DiagnosticMessageReceived :: "env \<Rightarrow> u16 \<Rightarrow> (unit, int, bool) conn_prog" where
  "DiagnosticMessageReceived env targetAddress =
     thn (sendDiagnosticAck env LOGICAL_ADDRESS True 0x00) (return True)"

definition CloseConnection :: "(unit, int, unit) conn_prog" where
  "CloseConnection =
     bnd (gets app_state) (\<lambda>n.
     bnd (lift (add_int n (-1))) (\<lambda>n. modify (\<lambda>c. c\<lparr>app_state := n\<rparr>)))"

definition example_app :: "env \<Rightarrow> (unit, int) app" where
  "example_app env =
     \<lparr>run_diag = (\<lambda>_. ReceiveFromLibrary env), run_notify = (\<lambda>_. DiagnosticMessageReceived env),
      run_close = (\<lambda>_. CloseConnection)\<rparr>"

lemma example_app_simps [simp]:
  "run_diag (example_app env) h = ReceiveFromLibrary env"
  "run_notify (example_app env) h = DiagnosticMessageReceived env"
  "run_close (example_app env) h = CloseConnection"
  by (simp_all add: example_app_def)

section \<open>Serving a client\<close>

primrec serve_loop :: "nat \<Rightarrow> env \<Rightarrow> (unit, int, bool) conn_prog" where
  "serve_loop 0 env = bnd (gets isSocketActive) (\<lambda>on. return (\<not> on))"
| "serve_loop (Suc n) env =
     bnd (gets isSocketActive) (\<lambda>on.
     if \<not> on then return True
     else bnd (receiveTcpOrTlsMessage env (example_app env)) (\<lambda>_. serve_loop n env))"

definition handleClient :: "nat \<Rightarrow> env \<Rightarrow> (unit, int, bool) conn_prog" where
  "handleClient n env =
     thn (setCallback () () ())
    (thn (setGeneralInactivityTime 50000)
    (bnd (serve_loop n env) (\<lambda>left.
     if left then thn (triggerDisconnection (example_app env)) (return True)
     else return False)))"

text \<open>The thread of a client ends with the destruction of the connection and of its timer.\<close>

definition client_thread :: "nat \<Rightarrow> env \<Rightarrow> (unit, int, bool) conn_prog" where
  "client_thread n env =
     bnd (handleClient n env) (\<lambda>left.
     thn (on_cond left destroyAliveCheckTimer) (return left))"

section \<open>Listening\<close>

text \<open>
  The connections that \<open>n\<close> rounds of the loop of \<open>listenTcpOrTls\<close> accept, each with the value of
  \<open>connections_counter\<close> its thread starts from.
\<close>

primrec accept_loop ::
  "nat \<Rightarrow> env \<Rightarrow> bool \<Rightarrow> int \<Rightarrow> example_conn list server_prog" where
  "accept_loop 0 env isTls counter = return []"
| "accept_loop (Suc n) env isTls counter =
     bnd (if isTls then waitForTlsConnection env counter else waitForTcpConnection env counter)
       (\<lambda>conn.
     bnd (lift (add_int counter 1)) (\<lambda>counter.
     bnd (accept_loop n env isTls counter) (\<lambda>conns.
     return (conn\<lparr>app_state := counter\<rparr> # conns))))"

definition listenTcpOrTls :: "nat \<Rightarrow> env \<Rightarrow> bool \<Rightarrow> int \<Rightarrow> example_conn list server_prog" where
  "listenTcpOrTls n env isTls counter =
     thn (setupTcpOrTlsSocket env isTls) (accept_loop n env isTls counter)"

definition listenUdp :: "nat \<Rightarrow> env \<Rightarrow> bool \<Rightarrow> unit server_prog" where
  "listenUdp n env serverActive =
     thn (setupUdpSocket env)
         (on_cond serverActive
            (repeat_prog n (bnd (receiveUdpMessage env) (\<lambda>_. return ()))))"

section \<open>Configuration\<close>

text \<open>The server is a global object: its members start as zero.\<close>

definition static_server :: "history \<Rightarrow> DoIPServer" where
  "static_server tr =
     (newDoIPServer tr)
       \<lparr>server_socket_tls := Some 0, server_socket_tcp := Some 0, server_socket_udp := Some 0,
        serverAddress := \<lparr>sin_family = Some 0, sin_port = Some 0, sin_addr = Some 0\<rparr>,
        clientAddress := \<lparr>sin_family = Some 0, sin_port = Some 0, sin_addr = Some 0\<rparr>,
        udp_data := replicate MaxDataSize (Some 0), EID := replicate 6 (Some 0)\<rparr>"

definition ConfigureDoipServer :: "unit server_prog" where
  "ConfigureDoipServer =
     thn (setVIN ''FOOBAR'')
    (thn (setLogicalGatewayAddress LOGICAL_ADDRESS)
    (thn (setGID 0)
    (thn (setFAR 0)
         (setEID 0))))"

section \<open>The callbacks keep what the library relies on\<close>

lemma CloseConnection_split:
  assumes "CloseConnection c = Inr (x, c')"
  shows "c' = c\<lparr>app_state := app_state c - 1\<rparr>"
  using assms by (auto simp: CloseConnection_def prog_eq_Inr add_int_def split: if_splits)

lemma example_keeps:
  assumes "\<And>sa ack code. preserves I (sendDiagnosticAck env sa ack code)"
    and "\<And>sa d n. preserves I (sendDiagnosticPayload env sa d n)"
    and "\<And>c a. I c \<Longrightarrow> I (c\<lparr>app_state := a\<rparr>)"
  shows "app_keeps (example_app env) I"
proof -
  have "preserves I CloseConnection"
    by (rule preservesI) (auto dest!: CloseConnection_split intro: assms(3))
  then show ?thesis
    unfolding app_keeps_def example_app_simps ReceiveFromLibrary_def DiagnosticMessageReceived_def
    by (auto intro!: pres assms(1,2))
qed

lemma example_quiet_close: "quiet_close (example_app env)"
proof -
  have "\<exists>tr a. c\<lparr>app_state := x\<rparr> = c\<lparr>trace := trace c @ tr, app_state := a\<rparr> \<and> only_writes [] tr"
    for c :: example_conn and x
    by (intro exI [of _ "[]"] exI [of _ x]) (simp add: only_writes_def)
  then show ?thesis
    unfolding quiet_close_def by (auto dest!: CloseConnection_split)
qed

interpretation example_conn: connection_invariant env "example_app env" conn_ok for env
  by (rule conn_ok_invariant) (rule example_keeps; (intro pres)?; simp)

interpretation example_tls: connection_invariant env "example_app env" tls_ok for env
  by (rule tls_ok_invariant) (rule example_keeps; (intro pres)?; simp)

interpretation example_wait: reading_invariant env "example_app env" "waiting p g ws" for env p g ws
  by (rule waiting_reading_invariant) (rule example_quiet_close)

text \<open>
  Its callbacks have the errors of the library's calls, and the counter can overflow.
\<close>

lemma ReceiveFromLibrary_safe:
  assumes "0 < n" and "length m = nat n" and "cells_ok tls m"
  shows "hoare (serving tls r) (run_errors tls r \<union> X) (ReceiveFromLibrary env ta m n)
           (\<lambda>_. serving tls r)"
proof -
  have cells: "rd m i = Inl e \<Longrightarrow> e \<in> run_errors tls r \<union> X" if "i < length m" for i e
    using rd_error [OF that assms(3)] by blast
  have first: "0 < length m" using assms(1,2) by simp
  have printed: "read_all m 0 (nat n) = Inl e \<Longrightarrow> e \<in> run_errors tls r \<union> X" for e
    using read_all_error [OF _ assms(3), of 0 "nat n"] assms(2) by auto
  have payload: "hoare (serving tls r) (run_errors tls r \<union> X)
      (sendDiagnosticPayload env ta (map Some d) (int (length d))) (\<lambda>_. serving tls r)"
    if "length d \<le> 7" for d
    using that by (intro serving_sendDiagnosticPayload) (simp_all add: int_max_def)
  have positive: "hoare (serving tls r) (run_errors tls r \<union> X)
      (sendDiagnosticPayload env ta (map Some [a, x, y, b, c, d, e]) 7) (\<lambda>_. serving tls r)"
    for a x y b c d e using payload [of "[a, x, y, b, c, d, e]"] by simp
  have negative: "hoare (serving tls r) (run_errors tls r \<union> X)
      (sendDiagnosticPayload env ta (map Some [a, x, y]) 3) (\<lambda>_. serving tls r)"
    for a x y using payload [of "[a, x, y]"] by simp
  show ?thesis
  proof (cases "2 < n")
    case True
    with assms(2) have two: "1 < length m" "2 < length m" by simp_all
    show ?thesis
      unfolding ReceiveFromLibrary_def bnd_assoc bnd_return if_P [OF True]
      by (intro keep_bnd_lift positive negative keep)
         (erule printed | erule cells [OF first] | erule cells [OF two(1)]
           | erule cells [OF two(2)])+
  next
    case False
    show ?thesis
      unfolding ReceiveFromLibrary_def if_not_P [OF False] bnd_return if_False
      by (intro keep_bnd_lift negative) (erule printed | erule cells [OF first])+
  qed
qed

lemma example_safe:
  "safe_app (example_app env) {SignedOverflow}"
proof unfold_locales
  show "quiet_close (example_app env)" by (rule example_quiet_close)
  show "e \<in> {SignedOverflow}" if "run_close (example_app env) h c = Inl e" for h c e
    using that by (auto simp: CloseConnection_def run_simps add_int_def split: if_splits)
  show "hoare (serving tls r) (run_errors tls r \<union> {SignedOverflow})
      (run_notify (example_app env) h ta) (\<lambda>_. serving tls r)" for tls r h ta
    unfolding example_app_simps DiagnosticMessageReceived_def
    by (intro keep serving_sendDiagnosticAck)
qed (simp only: example_app_simps ReceiveFromLibrary_safe)

interpretation example_errors: safe_app env "example_app env" "{SignedOverflow}" for env
  by (rule example_safe)

interpretation example_grows: connection_invariant env "example_app env" "extends tr" for env tr
  by (rule extends_invariant) (rule example_keeps; (intro pres)?; simp)

section \<open>The loop ends when the stream does\<close>

lemma example_keeps_extends: "app_keeps (example_app env) (extends tr)"
  by (rule example_keeps; (intro pres)?; simp)

text \<open>With fuel for every entry the history can still get, the loop is left.\<close>

lemma serve_loop_ends:
  assumes "ended n env" and "n - length (trace c) < m" and "serve_loop m env c = Inr (left, c')"
  shows "left \<and> client_sock c' = 0"
  using assms(2,3)
proof (induction m arbitrary: c)
  case 0
  then show ?case by simp
next
  case (Suc m)
  show ?case
  proof (cases "client_sock c = 0")
    case True
    with Suc.prems(2) show ?thesis by (simp add: run_simps isSocketActive_def)
  next
    case False
    with Suc.prems(2) obtain q c1 where
      run: "receiveTcpOrTlsMessage env (example_app env) c = Inr (q, c1)"
      and rest: "serve_loop m env c1 = Inr (left, c')"
      by (auto simp: prog_eq_Inr run_simps isSocketActive_def)
    note progress = receive_progress [OF example_keeps_extends run]
    show ?thesis
    proof (cases "n \<le> length (trace c)")
      case True
      with progress(2) assms(1) have "client_sock c1 = 0" by blast
      with rest show ?thesis by (cases m) (auto simp: run_simps isSocketActive_def)
    next
      case more: False
      with progress(1) Suc.prems(1) have "n - length (trace c1) < m" by simp
      with Suc.IH rest show ?thesis by blast
    qed
  qed
qed

section \<open>What a client's thread keeps\<close>

definition new_connection :: "example_conn \<Rightarrow> bool" where
  "new_connection c \<longleftrightarrow>
     client_sock c \<noteq> 0 \<and>
     c = newDoIPConnection (trace c) (app_state c) (client_sock c) (logicalGatewayAddress c) (ssl c)"

abbreviation client_errors :: "bool \<Rightarrow> bool \<Rightarrow> cpp_error set" where
  "client_errors tls r \<equiv> run_errors tls r \<union> {SignedOverflow}"

text \<open>What the thread has configured before its loop.\<close>

definition configured_client :: "example_conn \<Rightarrow> example_conn" where
  "configured_client c =
     c\<lparr>diag_callback := Some (), notify_application := Some (), close_connection := Some (),
       aliveCheckTimer := (aliveCheckTimer c)\<lparr>maxSeconds := Some 50000\<rparr>\<rparr>"

lemma configured_client_run:
  "thn (setCallback () () ()) (thn (setGeneralInactivityTime 50000) m) c = m (configured_client c)"
  by (simp add: setCallback_def setGeneralInactivityTime_def setTimer_def run_simps configured_client_def)

lemma configured_client_simps [simp]:
  "trace (configured_client c) = trace c" "client_sock (configured_client c) = client_sock c"
  "ssl (configured_client c) = ssl c" "app_state (configured_client c) = app_state c"
  "logicalGatewayAddress (configured_client c) = logicalGatewayAddress c"
  "routedClientAddress (configured_client c) = routedClientAddress c"
  "timeout (aliveCheckTimer (configured_client c)) = timeout (aliveCheckTimer c)"
  by (simp_all add: configured_client_def)

text \<open>The members of a new connection that matter below.\<close>

lemma new_connection_members:
  assumes "new_connection c"
  shows "client_sock c \<noteq> 0" "routedClientAddress c = None" "aliveCheckTimer c = newAliveCheckTimer"
  using assms
  by (auto simp: new_connection_def newDoIPConnection_def dest: arg_cong [where f = aliveCheckTimer]
      arg_cong [where f = routedClientAddress])

lemma configured_client_serving:
  "new_connection c \<Longrightarrow> tls \<or> ssl c = None \<Longrightarrow> serving tls False (configured_client c)"
  by (simp add: new_connection_members configured_client_def serving_def conn_ok_def timer_of_client_def
      timer_inv_def newAliveCheckTimer_def)

lemma configured_serving:
  "hoare (\<lambda>c. new_connection c \<and> (tls \<or> ssl c = None)) E
     (thn (setCallback () () ()) (setGeneralInactivityTime 50000)) (\<lambda>_. serving tls False)"
proof (rule hoare_no_error)
  fix c :: example_conn
  assume "new_connection c \<and> (tls \<or> ssl c = None)"
  then have "serving tls False (configured_client c)" by (simp add: configured_client_serving)
  then show "\<exists>x c'. thn (setCallback () () ()) (setGeneralInactivityTime 50000) c = Inr (x, c') \<and>
      serving tls False c'"
    by (simp add: setCallback_def setGeneralInactivityTime_def setTimer_def run_simps configured_client_def)
qed

lemma serve_loop_safe:
  "hoare (serving tls r) (client_errors tls r) (serve_loop n env) (\<lambda>_. serving tls r)"
proof (induction n)
  case 0
  show ?case unfolding serve_loop.simps by (intro keep keep_bnd)
next
  case (Suc n)
  show ?case
    unfolding serve_loop.simps by (intro keep keep_bnd example_errors.serving_receive Suc)
qed

lemma thn_assoc: "thn (thn a b) m = thn a (thn b m)"
  by (simp add: thn_def bnd_assoc)

lemma handleClient_safe:
  "hoare (\<lambda>c. new_connection c \<and> (tls \<or> ssl c = None)) (client_errors tls False)
     (handleClient n env) (\<lambda>_. serving tls False)"
proof -
  have "hoare (serving tls False) (client_errors tls False)
      (bnd (serve_loop n env) (\<lambda>left.
         if left then thn (triggerDisconnection (example_app env)) (return True)
         else return False)) (\<lambda>_. serving tls False)"
    by (intro keep keep_bnd serve_loop_safe example_errors.serving_trigger)
  then show ?thesis
    unfolding handleClient_def thn_assoc [symmetric]
    by (rule wp_thn) (rule configured_serving)
qed

lemma destroy_safe:
  "hoare (serving tls r) E destroyAliveCheckTimer (\<lambda>_ c. client_sock c = 0 \<longrightarrow> ssl c = None)"
  by (rule hoare_no_error)
     (auto simp: destroyAliveCheckTimer_def run_simps serving_def conn_ok_def timer_of_client_def)

text \<open>
  All errors of a client's thread. \<open>Terminate\<close> is not among them: the destructor never meets a
  second thread of the timer.
\<close>

lemma client_thread_errors:
  assumes "new_connection c" and "client_thread n env c = Inl e"
  shows "e \<in> client_errors (ssl c \<noteq> None) False"
proof -
  let ?tls = "ssl c \<noteq> None"
  have "hoare (serving ?tls False) (client_errors ?tls False)
      (thn (on_cond left destroyAliveCheckTimer) (return left)) (\<lambda>_ _. True)" for left
    by (rule hoare_pre, (rule wp hoare_post [OF destroy_safe])+) auto
  then have "hoare (\<lambda>c. new_connection c \<and> (?tls \<or> ssl c = None)) (client_errors ?tls False)
      (client_thread n env) (\<lambda>_ _. True)"
    unfolding client_thread_def by (rule wp_bnd) (rule handleClient_safe)
  from hoareD(2) [OF this _ assms(2)] assms(1) show ?thesis by blast
qed

end
