(* ===== verification/Doip_Stream.thy ===== *)
theory Doip_Stream
  imports Doip_Example
begin

text \<open>
  The example server as a function of the bytes it receives, over TCP and over TLS: the stream is
  cut into messages, and what is written is the concatenation of the replies to them, however the
  stream is cut into reads and however the timer thread is interleaved, as long as the timer
  does not expire. The one stream that is treated otherwise is a TLS stream in which a header
  announces 0xFFFFFFFF bytes (\<open>announces_limit\<close>).
\<close>

section \<open>Cutting a stream into messages\<close>

text \<open>The complete messages at the front of a stream, and what is left.\<close>

function frames :: "byte list \<Rightarrow> byte list list \<times> byte list" where
  "frames bs =
     (if has_message bs then
        let n = 8 + verdict_length (header_spec (take 8 bs));
            (ms, rest) = frames (drop n bs)
        in (take n bs # ms, rest)
      else ([], bs))"
  by pat_completeness auto
termination
  by (relation "measure length") (auto simp: has_message_def)

declare frames.simps [simp del]

lemma frames_no_message: "\<not> has_message bs \<Longrightarrow> frames bs = ([], bs)"
  by (simp add: frames.simps)

lemma frames_message:
  assumes "complete_message m"
  shows "frames (m @ bs) = (m # fst (frames bs), snd (frames bs))"
proof -
  have "8 \<le> length m" "length m = 8 + verdict_length (header_spec (take 8 m))"
    using assms by (auto simp: complete_message_def)
  moreover from this have "take 8 (m @ bs) = take 8 m" by simp
  ultimately show ?thesis
    by (simp add: frames.simps [of "m @ bs"] has_message_def split_beta)
qed

text \<open>
  A header that announces the largest length, which over TLS cannot be told from the result of a
  failed read.
\<close>

definition limit_header :: "byte list \<Rightarrow> bool" where
  "limit_header m \<longleftrightarrow> 8 \<le> length m \<and> verdict_length (header_spec (take 8 m)) = 2 ^ 32 - 1"

definition announces_limit :: "byte list \<Rightarrow> bool" where
  "announces_limit bs \<longleftrightarrow> list_ex limit_header (fst (frames bs)) \<or> limit_header (snd (frames bs))"

lemma announces_limit_here:
  assumes "limit_header bs"
  shows "announces_limit (bs @ bs')"
proof -
  have head: "8 \<le> length bs" using assms by (simp add: limit_header_def)
  then have same: "take 8 (bs @ bs') = take 8 bs" by simp
  show ?thesis
  proof (cases "has_message (bs @ bs')")
    case True
    let ?n = "8 + verdict_length (header_spec (take 8 (bs @ bs')))"
    have "fst (frames (bs @ bs')) = take ?n (bs @ bs') # fst (frames (drop ?n (bs @ bs')))"
      using True by (simp add: frames.simps [of "bs @ bs'"] split_beta Let_def)
    moreover have "limit_header (take ?n (bs @ bs'))"
      using assms head True by (simp add: limit_header_def has_message_def same del: take_append)
    ultimately show ?thesis by (simp add: announces_limit_def)
  next
    case False
    with assms head show ?thesis
      by (simp add: announces_limit_def frames_no_message limit_header_def)
  qed
qed

lemma announces_limit_later: "complete_message m \<Longrightarrow> announces_limit bs \<Longrightarrow> announces_limit (m @ bs)"
  by (auto simp: announces_limit_def frames_message)

lemma complete_frames:
  assumes "\<And>m. m \<in> set ms \<Longrightarrow> complete_message m"
  shows "frames (concat ms) = (ms, [])"
  using assms
proof (induction ms)
  case Nil
  show ?case by (simp add: frames_no_message has_message_def)
next
  case (Cons m ms)
  then show ?case by (simp add: frames_message)
qed

lemma no_limit:
  assumes "\<And>m. m \<in> set ms \<Longrightarrow> complete_message m" and "\<And>m. m \<in> set ms \<Longrightarrow> \<not> limit_header m"
  shows "\<not> announces_limit (concat ms)"
proof -
  have "frames (concat ms) = (ms, [])" by (rule complete_frames) (rule assms(1))
  with assms(2) show ?thesis by (auto simp: announces_limit_def limit_header_def list_ex_iff)
qed

text \<open>A message with its verdict, below the largest length.\<close>

lemma complete_verdict:
  assumes "header_spec (take 8 m) = Accepted t n" and "length m = 8 + n" and "n < 2 ^ 32 - 1"
  shows "complete_message m" and "\<not> limit_header m"
  using assms by (simp_all add: complete_message_def limit_header_def verdict_length_def)

section \<open>What a successful read leaves alone\<close>

text \<open>
  A wait, and a read that delivers something, leave the members of a connection as they were,
  unless the timer expires.
\<close>

definition held :: "('h, 'a) DoIPConnection \<Rightarrow> ('h, 'a) DoIPConnection \<Rightarrow> bool" where
  "held c0 c \<longleftrightarrow>
     written (trace c) = written (trace c0) \<and>
     logicalGatewayAddress c = logicalGatewayAddress c0 \<and>
     routedClientAddress c = routedClientAddress c0 \<and>
     notify_application c = notify_application c0 \<and> diag_callback c = diag_callback c0 \<and>
     (timeout (aliveCheckTimer c) \<or> client_sock c = client_sock c0)"

lemma held_refl: "held c c"
  by (simp add: held_def)

lemma held_closeSocket:
  "preserves (\<lambda>c. held c0 c \<and> timeout (aliveCheckTimer c)) (closeSocket env skip)"
  by (rule preservesI)
     (auto elim!: closeSocketE simp: held_def only_writes_def split: if_splits)

lemma held_close_callback:
  assumes "quiet_close app"
  shows "preserves (\<lambda>c. held c0 c \<and> timeout (aliveCheckTimer c)) (run_close app h)"
  by (rule preservesI)
     (auto elim!: quiet_closeE [OF assms] simp: held_def only_writes_def)

lemma held_blocking_invariant:
  assumes "quiet_close app"
  shows "blocking_invariant env app (held c0)"
proof unfold_locales
  show "held c0 c'"
    if "held c0 c" and fire: "run_timer_cb env app k
      (c\<lparr>aliveCheckTimer := aliveCheckTimer c\<lparr>disabled := True, timeout := True\<rparr>\<rparr>) = Inr (u, c')"
    for c k u c'
    using slice_fireI [OF held_closeSocket held_close_callback [OF assms] _ fire, of c0] that(1)
    by (simp add: held_def)
qed (auto intro!: preservesI simp: run_simps held_def)

text \<open>An expired timer stays expired.\<close>

definition expired :: "('h, 'a) DoIPConnection \<Rightarrow> bool" where
  "expired c \<longleftrightarrow> timeout (aliveCheckTimer c)"

lemma expired_calls [pres]:
  "preserves expired (ext_call env k)" "preserves expired (ext_ret env k)"
  by (rule preservesI, simp add: run_simps expired_def)+

lemma expired_closeSocket [pres]: "preserves expired (closeSocket env skip)"
  by (rule preservesI) (auto elim!: closeSocketE simp: expired_def split: if_splits)

lemma expired_parseSSLerror [pres]: "preserves expired (parseSSLerror env h r)"
  unfolding parseSSLerror_def by (intro pres)

lemma expired_sendMessage [pres]: "preserves expired (sendMessage env m n)"
  unfolding sendMessage_def by (intro pres)

lemma expired_sendDiagnosticAck [pres]: "preserves expired (sendDiagnosticAck env sa ack code)"
  unfolding sendDiagnosticAck_def by (intro pres)

lemma expired_sendDiagnosticPayload [pres]: "preserves expired (sendDiagnosticPayload env sa d n)"
  unfolding sendDiagnosticPayload_def by (intro pres)

lemma expired_activate [pres]: "preserves expired (activate_client env p)"
  by (rule preservesI)
     (auto elim!: activate_client_split simp: expired_def started_def split: if_splits)

lemma expired_invariant:
  assumes "app_keeps app expired"
  shows "connection_invariant env app expired"
proof unfold_locales
  note app = app_keepsD [OF assms]
  show "expired c'"
    if fire: "run_timer_cb env app k
      (c\<lparr>aliveCheckTimer := aliveCheckTimer c\<lparr>disabled := True, timeout := True\<rparr>\<rparr>) = Inr (x, c')"
    for c k x c'
    using expired_closeSocket app(3) _ fire
    by (rule slice_fireI) (simp add: expired_def)
  show "expired c'" if "expired c" "handle_SSL_read_error env s i c = Inr (x, c')" for c s i x c'
  proof -
    have "preserves expired (handle_SSL_read_error env s i)"
      unfolding handle_SSL_read_error_def by (intro pres)
    with that show ?thesis by (auto dest: preservesD)
  qed
qed (auto intro!: pres app_keepsD [OF assms] simp: expired_def)

interpretation example_expired: connection_invariant env "example_app env" expired for env
  by (rule expired_invariant) (rule example_keeps; (intro pres)?; simp add: expired_def)

interpretation example_held: blocking_invariant env "example_app env" "held c0" for env c0
  by (rule held_blocking_invariant) (rule example_quiet_close)

section \<open>One message\<close>

text \<open>
  How a call of \<open>receiveTcpOrTlsMessage\<close> goes, in terms of the bytes \<open>bs\<close> it consumes, when the
  timer does not expire: they are no whole message and the connection is closed, or they are one
  and the members are as before, or it is a TLS connection and they begin with the largest length.
\<close>

lemma receive_stream:
  assumes quiet: "quiet_close app" and keeps: "app_keeps app expired"
    and run: "receiveTcpOrTlsMessage env app c = Inr (q, c')" and alive: "\<not> expired c'"
  obtains bs c1 where "received (trace c1) = received (trace c) @ bs"
    and "waiting (peer_of c) (logicalGatewayAddress c) (written (trace c)) c1"
    and "\<not> has_message bs \<and> closeSocket env False c1 = Inr ((), c') \<or>
         (\<exists>action k payload.
            (complete_message bs \<and> held c c1 \<and> \<not> expired c1 \<and>
             verdict_of action = Some (header_spec (take 8 bs)) \<and>
             unat k = length (drop 8 bs) \<and>
             (drop 8 bs \<noteq> [] \<longrightarrow> payload = Some (map Some (drop 8 bs))) \<or>
             ssl c \<noteq> None \<and> limit_header bs) \<and>
            reset_and_react env app action k payload c1 = Inr (q, c'))"
proof -
  note mono = expired_invariant [OF keeps, of env]
  have react: "preserves expired (reset_and_react env app action k pl)" for action k pl
    unfolding reset_and_react_def
    by (intro connection_invariant.inv_reset_timer [OF mono] connection_invariant.inv_react [OF mono])
  obtain bs c1 where bs: "received (trace c1) = received (trace c) @ bs"
    and w: "waiting (peer_of c) (logicalGatewayAddress c) (written (trace c)) c1"
    and how: "q = 0 \<and> closeSocket env False c1 = Inr ((), c') \<and>
           (\<not> has_message bs \<and> failed_reads (trace c) < failed_reads (trace c1) \<or>
            timeout (aliveCheckTimer c1)) \<or>
         (\<exists>action k payload. 8 \<le> length bs \<and>
            verdict_of action = Some (header_spec (take 8 bs)) \<and>
            verdict_length (header_spec (take 8 bs)) = unat k \<and>
            (over_tcp c \<or> unat k < 2 ^ 32 - 1 \<longrightarrow>
               complete_message bs \<and> (held c c \<longrightarrow> held c c1) \<and>
               (drop 8 bs \<noteq> [] \<longrightarrow> payload = Some (map Some (drop 8 bs)))) \<and>
            reset_and_react env app action k payload c1 = Inr (q, c'))" (is "?close \<or> ?react")
    by (rule receive_message [OF quiet held_blocking_invariant [OF quiet] run])
  from how show ?thesis
  proof
    assume close: ?close
    then have "closeSocket env False c1 = Inr ((), c')" by simp
    from preservesD [OF expired_closeSocket this] alive have "\<not> timeout (aliveCheckTimer c1)"
      by (auto simp: expired_def)
    with close that [OF bs w] show ?thesis by blast
  next
    assume ?react
    then obtain action k payload where len: "8 \<le> length bs"
      and v: "verdict_of action = Some (header_spec (take 8 bs))"
      and vlen: "verdict_length (header_spec (take 8 bs)) = unat k"
      and full: "over_tcp c \<or> unat k < 2 ^ 32 - 1 \<Longrightarrow> complete_message bs \<and> held c c1 \<and>
               (drop 8 bs \<noteq> [] \<longrightarrow> payload = Some (map Some (drop 8 bs)))"
      and run: "reset_and_react env app action k payload c1 = Inr (q, c')"
      using held_refl by blast
    have "\<not> expired c1" using preservesD [OF react run] alive by blast
    moreover have "ssl c \<noteq> None \<and> limit_header bs" if "\<not> (over_tcp c \<or> unat k < 2 ^ 32 - 1)"
      using that len vlen verdict_length_bound [of "take 8 bs"]
      by (auto simp: over_tcp_def limit_header_def)
    moreover have "unat k = length (drop 8 bs)" if "complete_message bs"
      using that vlen by (simp add: complete_message_def)
    ultimately show ?thesis using that [OF bs w] v full run by blast
  qed
qed

section \<open>The replies of the example server\<close>

text \<open>The payload of the example's answer to a diagnostic request.\<close>

definition application_data :: "byte list \<Rightarrow> byte list" where
  "application_data body =
     (if 2 < length body \<and> body ! 0 = 0x22
      then [0x62, body ! 1, body ! 2, 0x01, 0x02, 0x03, 0x04]
      else [0x7F, body ! 0, 0x11])"

text \<open>
  A diagnostic message is acknowledged to the activated address, whatever its source address;
  only a message from that address is answered.
\<close>

definition diagnostic_replies :: "peer \<Rightarrow> byte list \<Rightarrow> byte list list" where
  "diagnostic_replies s p =
     (case s of
        Routed a b \<Rightarrow>
          ack_message True LOGICAL_ADDRESS a b 0x00 #
          (if take 2 p = [a, b] \<and> length p < 2 ^ 31
           then [diagnostic_message (be16 (p ! 2) (p ! 3)) a b (application_data (drop 4 p))]
           else [])
      | _ \<Rightarrow> [])"

definition message_replies :: "u16 \<Rightarrow> peer \<Rightarrow> byte list \<Rightarrow> byte list list" where
  "message_replies gateway s m =
     (case header_spec (take 8 m) of
        Rejected code n \<Rightarrow> library_reply gateway (Rejected code n) (drop 8 m)
      | Accepted t n \<Rightarrow>
          if t = DIAGNOSTICMESSAGE then diagnostic_replies s (drop 8 m)
          else library_reply gateway (Accepted t n) (drop 8 m))"

definition message_next :: "peer \<Rightarrow> byte list \<Rightarrow> peer" where
  "message_next s m = next_peer (header_spec (take 8 m)) (drop 8 m) s"

fun server_output :: "u16 \<Rightarrow> peer \<Rightarrow> byte list list \<Rightarrow> byte list list" where
  "server_output gateway s [] = []"
| "server_output gateway s (m # ms) =
     message_replies gateway s m @ server_output gateway (message_next s m) ms"

definition server_peer :: "peer \<Rightarrow> byte list list \<Rightarrow> peer" where
  "server_peer s ms = fold (\<lambda>m s. message_next s m) ms s"

section \<open>The application's answer\<close>

lemma ReceiveFromLibrary_run:
  assumes "routedClientAddress c = Some [Some a, Some b]" and "body \<noteq> []"
  shows "\<exists>tr. ReceiveFromLibrary env ta (map Some body) (int (length body)) c =
              Inr ((), c\<lparr>trace := trace c @ tr\<rparr>) \<and>
              only_writes [map Some (diagnostic_message ta a b (application_data body))] tr"
proof -
  have printed: "read_all (map Some body) 0 (nat (int (length body))) = Inr ()"
    by (simp add: read_all_initialised)
  have first: "rd (map Some body) 0 = Inr (body ! 0)" using assms(2) by simp
  have positive: "\<exists>tr. sendDiagnosticPayload env ta (map Some [u, v, w, x, y, z, k]) 7 c =
      Inr ((), c\<lparr>trace := trace c @ tr\<rparr>) \<and>
      only_writes [map Some (diagnostic_message ta a b [u, v, w, x, y, z, k])] tr"
    for u v w x y z k
    using sendDiagnosticPayload_run [OF assms(1), of "[u, v, w, x, y, z, k]" env ta]
    by (simp add: int_max_def)
  have negative: "\<exists>tr. sendDiagnosticPayload env ta (map Some [u, v, w]) 3 c =
      Inr ((), c\<lparr>trace := trace c @ tr\<rparr>) \<and>
      only_writes [map Some (diagnostic_message ta a b [u, v, w])] tr" for u v w
    using sendDiagnosticPayload_run [OF assms(1), of "[u, v, w]" env ta]
    by (simp add: int_max_def)
  show ?thesis
  proof (cases "2 < length body")
    case True
    then have "rd (map Some body) 1 = Inr (body ! 1)" "rd (map Some body) 2 = Inr (body ! 2)"
      by simp_all
    with True printed first show ?thesis
      using positive [of "0x62" "body ! 1" "body ! 2" 1 2 3 4] negative [of "0x7F" "body ! 0" "0x11"]
      by (simp add: ReceiveFromLibrary_def run_simps bnd_assoc bnd_return application_data_def)
  next
    case False
    with printed first show ?thesis
      using negative [of "0x7F" "body ! 0" "0x11"]
      by (simp add: ReceiveFromLibrary_def run_simps bnd_assoc bnd_return application_data_def)
  qed
qed

text \<open>The second callback: the application answers a request of the activated tester that fits an \<open>int\<close>.\<close>

lemma pass_to_example:
  assumes "diag_callback c \<noteq> None" and ra: "routedClientAddress c = Some [Some a, Some b]"
    and payload: "payload = Some (map Some p)" and p: "p = x # y # t1 # t0 # body" and body: "body \<noteq> []"
    and len: "length p < 2 ^ 32" "unat n = length p"
  shows "\<exists>tr. pass_to_application (example_app env) payload n c = Inr ((), c\<lparr>trace := trace c @ tr\<rparr>) \<and>
           only_writes (if (x, y) = (a, b) \<and> length p < 2 ^ 31
             then [map Some (diagnostic_message (be16 t1 t0) a b (application_data body))] else []) tr"
proof -
  have "n = of_nat (unat n)" by simp
  then have n: "n = of_nat (4 + length body)" unfolding len(2) by (simp add: p)
  from assms(1) obtain d where d: "diag_callback c = Some d" by auto
  consider "(x, y) = (a, b)" "length p < 2 ^ 31" | "(x, y) \<noteq> (a, b)" "length p < 2 ^ 31" | "2 ^ 31 \<le> length p"
    by linarith
  then show ?thesis
  proof cases
    case 1
    then have "pass_to_application (example_app env) payload n c =
        ReceiveFromLibrary env (be16 t1 t0) (map Some body) (int (length body)) c"
      using pass_to_application_match [of c a b d payload t1 t0 body n "example_app env"]
        ra d payload n by (simp add: p)
    with 1 ReceiveFromLibrary_run [of c a b body env "be16 t1 t0"] ra body show ?thesis by auto
  next
    case 2
    then have "4 \<le> u64_to_int n" using n u64_to_int_small [of "4 + length body"] by (simp add: p)
    with 2 have "pass_to_application (example_app env) payload n c = Inr ((), c)"
      using pass_to_application_other [of c a b "[]" x y payload "t1 # t0 # body" n "example_app env"]
        ra payload by (simp add: p)
    with 2 show ?thesis by (intro exI [of _ "[]"]) (auto simp: only_writes_def)
  next
    case 3
    then have "u64_to_int n < 0" using u64_to_int_large [of n] len by simp
    then have "pass_to_application (example_app env) payload n c = Inr ((), c)"
      by (intro pass_to_application_short) simp
    with 3 show ?thesis by (intro exI [of _ "[]"]) (auto simp: only_writes_def)
  qed
qed

lemma react_example_routed:
  assumes ty: "action_type action = Some DIAGNOSTICMESSAGE"
    and members: "notify_application c \<noteq> None" "diag_callback c \<noteq> None"
    and ra: "routedClientAddress c = Some [Some a, Some b]" and on: "client_sock c \<noteq> 0"
    and payload: "payload = Some (map Some p)" and len: "4 < length p" "length p < 2 ^ 32"
      "unat n = length p"
  shows "\<exists>tr. reactOnReceivedTcpMessage env (example_app env) action n payload c =
              Inr (-1, c\<lparr>trace := trace c @ tr\<rparr>) \<and>
              only_writes (map (map Some) (diagnostic_replies (peer_of c) p)) tr"
proof -
  obtain x y t1 t0 body where p: "p = x # y # t1 # t0 # body" and body: "body \<noteq> []"
    using len(1) by (cases p; cases "tl p"; cases "tl (tl p)"; cases "tl (tl (tl p))") auto
  have peer: "peer_of c = Routed a b" using on ra by (simp add: peer_of_def)
  obtain tr where ack: "sendDiagnosticAck env LOGICAL_ADDRESS True 0x00 c = Inr ((), c\<lparr>trace := trace c @ tr\<rparr>)"
    and w: "only_writes [map Some (ack_message True LOGICAL_ADDRESS a b 0x00)] tr"
    using sendDiagnosticAck_run [OF ra] by blast
  let ?c = "c\<lparr>trace := trace c @ tr\<rparr>"
  from members obtain h where h: "notify_application c = Some h" by auto
  have react: "reactOnReceivedTcpMessage env (example_app env) action n payload c =
      thn (pass_to_application (example_app env) payload n) (return (-1)) ?c"
    using react_diagnostic [OF ty h, of payload x y t1 t0 body env "example_app env" n] payload
    by (simp add: p DiagnosticMessageReceived_def ack bnd_def thn_def return_def on_cond_def)
  obtain tr' where "pass_to_application (example_app env) payload n ?c = Inr ((), ?c\<lparr>trace := trace ?c @ tr'\<rparr>)"
    and w': "only_writes (if (x, y) = (a, b) \<and> length p < 2 ^ 31
      then [map Some (diagnostic_message (be16 t1 t0) a b (application_data body))] else []) tr'"
    using pass_to_example [of ?c a b payload p x y t1 t0 body n env] members(2) ra payload p body len(2,3)
    by auto
  with react have "reactOnReceivedTcpMessage env (example_app env) action n payload c =
      Inr (-1, c\<lparr>trace := trace c @ tr @ tr'\<rparr>)"
    by (simp add: thn_def bnd_def return_def)
  moreover have "only_writes (map (map Some) (diagnostic_replies (peer_of c) p)) (tr @ tr')"
    using only_writes_append [OF w w'] by (auto simp: diagnostic_replies_def peer p split: if_splits)
  ultimately show ?thesis by blast
qed

lemma react_example_unrouted:
  assumes "action_type action = Some DIAGNOSTICMESSAGE" and "routedClientAddress c = None"
    and "payload = Some (map Some p)" and "4 < length p" and "notify_application c \<noteq> None"
  shows "reactOnReceivedTcpMessage env (example_app env) action n payload c = Inl BadPointer"
proof -
  obtain x y t1 t0 body where p: "p = x # y # t1 # t0 # body"
    using assms(4) by (cases p; cases "tl p"; cases "tl (tl p)"; cases "tl (tl (tl p))") auto
  from assms(5) obtain h where h: "notify_application c = Some h" by auto
  show ?thesis
    using react_diagnostic [OF assms(1) h, of payload x y t1 t0 body env "example_app env" n] assms(3)
    by (simp add: p DiagnosticMessageReceived_def sendDiagnosticAck_unrouted [OF assms(2)] bnd_def thn_def)
qed

section \<open>The server as a function of the stream\<close>

text \<open>One call of \<open>receiveTcpOrTlsMessage\<close> of the example server.\<close>

lemma accepted_length: "header_spec h = Accepted t n \<Longrightarrow> length_table t n"
  by (auto simp: header_spec_def Let_def split: option.splits if_splits)

lemma not_library_message:
  assumes "complete_message bs" and "\<not> library_message (header_spec (take 8 bs)) (drop 8 bs)"
  obtains n where "header_spec (take 8 bs) = Accepted DIAGNOSTICMESSAGE n" and "4 < length (drop 8 bs)"
proof -
  from assms(2) obtain t n where v: "header_spec (take 8 bs) = Accepted t n"
    and t: "t = DIAGNOSTICMESSAGE \<or> t = ROUTINGACTIVATIONREQUEST \<and> length (drop 8 bs) < 3"
    by (auto simp: library_message_def split: verdict.splits)
  have "length (drop 8 bs) = n"
    using assms(1) v by (simp add: complete_message_def verdict_length_def)
  with t v accepted_length [OF v] that show ?thesis by auto
qed

text \<open>The reaction of the example server to a whole message.\<close>

lemma serve_library_message:
  assumes run: "reset_and_react env (example_app env) action k payload c1 = Inr (q, c')"
    and v: "verdict_of action = Some (header_spec (take 8 bs))"
    and lib: "library_message (header_spec (take 8 bs)) (drop 8 bs)"
    and payload: "drop 8 bs \<noteq> [] \<Longrightarrow> payload = Some (map Some (drop 8 bs))"
    and on: "client_sock c1 \<noteq> 0"
  shows "received (trace c') = received (trace c1) \<and>
         logicalGatewayAddress c' = logicalGatewayAddress c1 \<and>
         peer_of c' = message_next (peer_of c1) bs \<and>
         written (trace c') = written (trace c1) @
           map (map Some) (message_replies (logicalGatewayAddress c1) (peer_of c1) bs)"
proof -
  have "implements (logicalGatewayAddress c1) (header_spec (take 8 bs)) (drop 8 bs) c1 c'"
    using reset_and_react_implements [OF v lib payload _ run] on by simp
  then obtain tr where imp: "peer_of c' = next_peer (header_spec (take 8 bs)) (drop 8 bs) (peer_of c1)"
    "trace c' = trace c1 @ tr" "logicalGatewayAddress c' = logicalGatewayAddress c1"
    and w: "only_writes (map (map Some)
      (library_reply (logicalGatewayAddress c1) (header_spec (take 8 bs)) (drop 8 bs))) tr"
    by (auto simp: implements_def)
  have "message_replies gateway s bs = library_reply gateway (header_spec (take 8 bs)) (drop 8 bs)"
    for gateway s
    using lib by (simp add: message_replies_def library_message_def split: verdict.splits)
  with imp w show ?thesis
    by (simp add: only_writes_def message_next_def)
qed

lemma serve_message:
  assumes run: "reset_and_react env (example_app env) action k payload c1 = Inr (q, c')"
    and v: "verdict_of action = Some (header_spec (take 8 bs))" and full: "complete_message bs"
    and k: "unat k = length (drop 8 bs)"
    and payload: "drop 8 bs \<noteq> [] \<Longrightarrow> payload = Some (map Some (drop 8 bs))"
    and members1: "notify_application c1 \<noteq> None" "diag_callback c1 \<noteq> None"
    and routed: "routedClientAddress c1 = None \<or> (\<exists>a b. routedClientAddress c1 = Some [Some a, Some b])"
    and on: "client_sock c1 \<noteq> 0"
  shows "received (trace c') = received (trace c1) \<and>
         logicalGatewayAddress c' = logicalGatewayAddress c1 \<and>
         peer_of c' = message_next (peer_of c1) bs \<and>
         written (trace c') = written (trace c1) @
           map (map Some) (message_replies (logicalGatewayAddress c1) (peer_of c1) bs)"
proof (cases "library_message (header_spec (take 8 bs)) (drop 8 bs)")
  case True
  then show ?thesis using serve_library_message [OF run v True payload on] by blast
next
  case False
  from not_library_message [OF full False] obtain n where
    n: "header_spec (take 8 bs) = Accepted DIAGNOSTICMESSAGE n" and len: "4 < length (drop 8 bs)"
    by blast
  from v n have ty: "action_type action = Some DIAGNOSTICMESSAGE"
    by (auto simp: verdict_of_def split: option.splits if_splits)
  from len have pl: "payload = Some (map Some (drop 8 bs))" by (intro payload) auto
  have bound: "length (drop 8 bs) < 2 ^ 32"
    using full verdict_length_bound [of "take 8 bs"] by (simp add: complete_message_def)
  from run obtain tr t where
    react: "reactOnReceivedTcpMessage env (example_app env) action k payload
      (c1\<lparr>trace := trace c1 @ tr, aliveCheckTimer := t\<rparr>) = Inr (q, c')"
    and quiet: "only_writes [] tr"
    by (rule reset_and_reactE)
  let ?c = "c1\<lparr>trace := trace c1 @ tr, aliveCheckTimer := t\<rparr>"
  have members: "notify_application ?c \<noteq> None" "diag_callback ?c \<noteq> None"
    using members1 by simp_all
  have "routedClientAddress c1 \<noteq> None"
    using react react_example_unrouted [OF ty _ pl len members(1), of env k] by auto
  with routed obtain a b where ra: "routedClientAddress ?c = Some [Some a, Some b]" by auto
  from react_example_routed [OF ty members ra _ pl len bound k, of env] on react
  obtain tr' where c': "c' = ?c\<lparr>trace := trace ?c @ tr'\<rparr>"
    and w: "only_writes (map (map Some) (diagnostic_replies (peer_of ?c) (drop 8 bs))) tr'"
    by auto
  have "peer_of ?c = peer_of c1" by (simp add: peer_of_def)
  with c' w quiet n show ?thesis
    by (simp add: only_writes_def message_next_def message_replies_def peer_of_def)
qed

lemma received_later:
  assumes "app_keeps app (extends (trace c1))"
    and "reset_and_react env app action k payload c1 = Inr (q, c')"
  obtains x where "received (trace c') = received (trace c1) @ x"
proof -
  note inv = extends_invariant [OF assms(1), of env]
  have "preserves (extends (trace c1)) (reset_and_react env app action k payload)"
    unfolding reset_and_react_def
    by (intro connection_invariant.inv_reset_timer [OF inv] connection_invariant.inv_react [OF inv])
  from preservesD [OF this assms(2)] that show ?thesis by (auto simp: extends_def)
qed

text \<open>One message is answered; the stream ends inside one.\<close>

definition answered :: "example_conn \<Rightarrow> example_conn \<Rightarrow> byte list \<Rightarrow> bool" where
  "answered c c' m \<longleftrightarrow>
     complete_message m \<and> logicalGatewayAddress c' = logicalGatewayAddress c \<and>
     peer_of c' = message_next (peer_of c) m \<and>
     written (trace c') = written (trace c) @
       map (map Some) (message_replies (logicalGatewayAddress c) (peer_of c) m)"

definition cut_off :: "example_conn \<Rightarrow> example_conn \<Rightarrow> byte list \<Rightarrow> bool" where
  "cut_off c c' bs \<longleftrightarrow>
     \<not> has_message bs \<and> peer_of c' = Closed \<and> written (trace c') = written (trace c)"

lemma serve_step:
  assumes run: "receiveTcpOrTlsMessage env (example_app env) c = Inr (q, c')"
    and ok: "serving tls False c" and on: "client_sock c \<noteq> 0" and alive: "\<not> expired c'"
  obtains bs where "received (trace c') = received (trace c) @ bs"
    and "tls \<and> (\<forall>bs'. announces_limit (bs @ bs')) \<or> cut_off c c' bs \<or> answered c c' bs"
proof -
  have keeps: "app_keeps (example_app env) expired"
    by (rule example_keeps; (intro pres)?; simp add: expired_def)
  obtain bs c1 where
    bs: "received (trace c1) = received (trace c) @ bs"
    and w: "waiting (peer_of c) (logicalGatewayAddress c) (written (trace c)) c1"
    and step: "\<not> has_message bs \<and> closeSocket env False c1 = Inr ((), c') \<or>
         (\<exists>action k payload.
            (complete_message bs \<and> held c c1 \<and> \<not> expired c1 \<and>
             verdict_of action = Some (header_spec (take 8 bs)) \<and>
             unat k = length (drop 8 bs) \<and>
             (drop 8 bs \<noteq> [] \<longrightarrow> payload = Some (map Some (drop 8 bs))) \<or>
             ssl c \<noteq> None \<and> limit_header bs) \<and>
            reset_and_react env (example_app env) action k payload c1 = Inr (q, c'))"
      (is "?close \<or> (\<exists>action k payload. (?full action k payload \<or> ?limit) \<and> ?react action k payload)")
    by (rule receive_stream [OF example_quiet_close keeps run alive])
  from step consider ?close | action k payload where "?limit" "?react action k payload"
    | action k payload where "?full action k payload" "?react action k payload" by blast
  then show ?thesis
  proof cases
    case 1
    then have "closeSocket env False c1 = Inr ((), c')" by simp
    then have "received (trace c') = received (trace c1)" "peer_of c' = Closed"
      "written (trace c') = written (trace c1)"
      by (auto elim!: closeSocketE simp: only_writes_def peer_of_def split: if_splits)
    with that [of bs] 1 bs w show ?thesis by (simp add: waiting_def cut_off_def)
  next
    case (2 action k payload)
    obtain x where "received (trace c') = received (trace c1) @ x"
      by (rule received_later [OF example_keeps_extends 2(2)])
    with that [of "bs @ x"] bs 2(1) ok announces_limit_here [of bs] show ?thesis
      by (auto simp: serving_def)
  next
    case (3 action k payload)
    then have full: "complete_message bs" and u: "held c c1" and a1: "\<not> expired c1"
      and v: "verdict_of action = Some (header_spec (take 8 bs))"
      and k: "unat k = length (drop 8 bs)"
      and payload: "drop 8 bs \<noteq> [] \<Longrightarrow> payload = Some (map Some (drop 8 bs))"
      by blast+
    have same: "client_sock c1 = client_sock c" "peer_of c1 = peer_of c"
      "logicalGatewayAddress c1 = logicalGatewayAddress c" "written (trace c1) = written (trace c)"
      "routedClientAddress c1 = routedClientAddress c"
      using u a1 by (simp_all add: held_def expired_def peer_of_def)
    show ?thesis
      using serve_message [OF 3(2) v full k payload] that [of bs] bs full same ok on u
      by (cases "routedClientAddress c") (auto simp: serving_def held_def answered_def)
  qed
qed

text \<open>
  A session: the stream is cut into messages, each is answered in the state the earlier ones
  left, and the connection is closed at the latest when the stream ends.
\<close>

definition session :: "example_conn \<Rightarrow> example_conn \<Rightarrow> bool \<Rightarrow> byte list \<Rightarrow> bool" where
  "session c c' left bs \<longleftrightarrow>
     written (trace c') = written (trace c) @
       map (map Some) (server_output (logicalGatewayAddress c) (peer_of c) (fst (frames bs))) \<and>
     (if left then peer_of c' = Closed
      else snd (frames bs) = [] \<and> peer_of c' = server_peer (peer_of c) (fst (frames bs)))"

lemma frames_Nil [simp]: "frames [] = ([], [])"
  by (simp add: frames_no_message has_message_def)

lemma session_over: "session c c left []" if "left \<longleftrightarrow> peer_of c = Closed"
  using that by (simp add: session_def server_peer_def)

lemma session_cut_off: "cut_off c c' bs \<Longrightarrow> session c c' True bs"
  by (simp add: cut_off_def session_def frames_no_message)

lemma session_step:
  assumes "answered c c1 m" and "session c1 c' left bs"
  shows "session c c' left (m @ bs)"
  using assms by (auto simp: answered_def session_def frames_message server_peer_def)

lemma closed_iff: "peer_of c = Closed \<longleftrightarrow> client_sock c = 0"
  by (auto simp: peer_of_def split: option.splits list.splits)

lemma serve_loop_closed:
  "client_sock c = 0 \<Longrightarrow> serve_loop m env c = Inr (left, c') \<longleftrightarrow> left \<and> c' = c"
  by (cases m) (auto simp: run_simps isSocketActive_def)

lemma serve_loop_stream:
  assumes "serve_loop m env c = Inr (left, c')" and "serving tls False c" and "\<not> expired c'"
  shows "\<exists>bs. received (trace c') = received (trace c) @ bs \<and>
              (tls \<and> announces_limit bs \<or> session c c' left bs)"
  using assms
proof (induction m arbitrary: c)
  case 0
  then have "c' = c" and "left \<longleftrightarrow> peer_of c = Closed"
    by (auto simp: run_simps isSocketActive_def closed_iff)
  then show ?case using session_over [of left c] by (intro exI [of _ "[]"]) simp
next
  case (Suc m)
  show ?case
  proof (cases "client_sock c = 0")
    case True
    with Suc.prems(1) have "left" "c' = c" by (simp_all add: serve_loop_closed del: serve_loop.simps)
    with True show ?thesis using session_over [of left c] by (intro exI [of _ "[]"]) (simp add: closed_iff)
  next
    case False
    with Suc.prems(1) obtain q c1 where
      run: "receiveTcpOrTlsMessage env (example_app env) c = Inr (q, c1)"
      and rest: "serve_loop m env c1 = Inr (left, c')"
      by (auto simp: prog_eq_Inr run_simps isSocketActive_def)
    have ok1: "serving tls False c1"
      using hoareD(1) [OF example_errors.serving_receive Suc.prems(2) run] .
    have "preserves expired (serve_loop m env)"
      by (induction m) (auto intro!: pres example_expired.inv_receive)
    with rest Suc.prems(3) have alive: "\<not> expired c1" by (auto dest: preservesD)
    from Suc.IH [OF rest ok1 Suc.prems(3)] obtain bs' where
      later: "received (trace c') = received (trace c1) @ bs'"
      and IH: "tls \<and> announces_limit bs' \<or> session c1 c' left bs'" by blast
    obtain bs where bs: "received (trace c1) = received (trace c) @ bs"
      and step: "tls \<and> (\<forall>bs'. announces_limit (bs @ bs')) \<or> cut_off c c1 bs \<or> answered c c1 bs"
      by (rule serve_step [OF run Suc.prems(2) False alive])
    from step consider "tls" "announces_limit (bs @ bs')" | "cut_off c c1 bs" | "answered c c1 bs"
      by blast
    then show ?thesis
    proof cases
      case 2
      then have "left" "c' = c1"
        using rest by (simp_all add: cut_off_def closed_iff serve_loop_closed)
      with 2 bs session_cut_off [of c c1 bs] show ?thesis by (intro exI [of _ bs]) simp
    next
      case 3
      with IH bs later session_step [OF 3] announces_limit_later [of bs bs'] show ?thesis
        by (intro exI [of _ "bs @ bs'"]) (auto simp: answered_def)
    qed (use bs later in \<open>auto intro!: exI [of _ "bs @ bs'"]\<close>)
  qed
qed

end
