(* ===== verification/Doip_Machine.thy ===== *)
theory Doip_Machine
  imports Doip_Stream
begin

text \<open>
  A connection of the example server as a state machine: the library's calls in any order, with
  the timer thread running in between; and the balance of the example's \<open>connections_counter\<close>.
\<close>

section \<open>The public calls in any order\<close>

inductive conn_step ::
  "env \<Rightarrow> ('h, 'a) app \<Rightarrow> ('h, 'a) DoIPConnection \<Rightarrow> ('h, 'a) DoIPConnection \<Rightarrow> bool"
  for env app where
  conn_receive: "receiveTcpOrTlsMessage env app c = Inr (q, d) \<Longrightarrow> conn_step env app c d"
| conn_callback: "setCallback f g h c = Inr (u, d) \<Longrightarrow> conn_step env app c d"
| conn_inactivity: "setGeneralInactivityTime n c = Inr (u, d) \<Longrightarrow> conn_step env app c d"
| conn_ack: "sendDiagnosticAck env sa ack code c = Inr (u, d) \<Longrightarrow> conn_step env app c d"
| conn_payload: "sendDiagnosticPayload env sa m n c = Inr (u, d) \<Longrightarrow> conn_step env app c d"
| conn_trigger: "triggerDisconnection app c = Inr (u, d) \<Longrightarrow> conn_step env app c d"
| conn_timer: "timer_slice env app c = Inr (u, d) \<Longrightarrow> conn_step env app c d"

inductive_cases conn_stepE: "conn_step env app c d"

context connection_invariant
begin

lemma inv_machine:
  assumes "conn_step env app c d" and "I c"
    and "\<And>f g h. preserves I (setCallback f g h)"
    and "\<And>n. preserves I (setGeneralInactivityTime n)"
    and "\<And>sa ack code. preserves I (sendDiagnosticAck env sa ack code)"
    and "\<And>sa m n. preserves I (sendDiagnosticPayload env sa m n)"
    and "preserves I (triggerDisconnection app)"
  shows "I d"
  using assms(1)
  by (cases rule: conn_stepE)
     (auto intro: preservesD [OF inv_receive] preservesD [OF inv_timer_slice]
       preservesD [OF assms(3)] preservesD [OF assms(4)] preservesD [OF assms(5)]
       preservesD [OF assms(6)] preservesD [OF assms(7)] assms(2))

end

lemma preserves_triggerDisconnection:
  "app_keeps app I \<Longrightarrow> preserves I (triggerDisconnection app)"
  unfolding triggerDisconnection_def call_member_def by (intro pres app_keepsD(3))

lemma preserves_setCallback:
  "(\<And>c f g h. I c \<Longrightarrow> I (c\<lparr>diag_callback := f, notify_application := g, close_connection := h\<rparr>)) \<Longrightarrow>
   preserves I (setCallback a b d)"
  unfolding setCallback_def by (rule preserves_modify)

lemma preserves_setGeneralInactivityTime:
  "(\<And>c n. I c \<Longrightarrow> I (c\<lparr>aliveCheckTimer := (aliveCheckTimer c)\<lparr>maxSeconds := n\<rparr>\<rparr>)) \<Longrightarrow>
   (\<And>c. I c \<Longrightarrow> I (c\<lparr>aliveCheckTimer := (aliveCheckTimer c)\<lparr>disabled := True\<rparr>\<rparr>)) \<Longrightarrow>
   preserves I (setGeneralInactivityTime n)"
  unfolding setGeneralInactivityTime_def setTimer_def
  by (intro pres preserves_update_timer)

text \<open>Accepted with a socket and, over TLS, with an object that nobody has released.\<close>

definition conn_init :: "example_conn \<Rightarrow> bool" where
  "conn_init c \<longleftrightarrow> new_connection c \<and> tls_ok c"

definition example_ok :: "example_conn \<Rightarrow> bool" where
  "example_ok c \<longleftrightarrow> conn_ok c \<and> tls_ok c"

lemma example_keeps_ok:
  "app_keeps (example_app env) conn_ok" "app_keeps (example_app env) tls_ok"
  by (rule example_keeps; (intro pres)?; simp)+

lemma conn_ok_step: "conn_step env (example_app env) c d \<Longrightarrow> conn_ok c \<Longrightarrow> conn_ok d"
  by (erule example_conn.inv_machine)
     (auto intro!: pres preserves_triggerDisconnection example_keeps_ok preserves_setCallback
       preserves_setGeneralInactivityTime simp: conn_ok_def timer_of_client_def timer_inv_def)

lemma tls_ok_step: "conn_step env (example_app env) c d \<Longrightarrow> tls_ok c \<Longrightarrow> tls_ok d"
  by (erule example_tls.inv_machine)
     (auto intro!: pres preserves_triggerDisconnection example_keeps_ok preserves_setCallback
       preserves_setGeneralInactivityTime simp: tls_ok_def)

lemma new_connection_ok: "new_connection c \<Longrightarrow> conn_ok c"
  by (auto simp: new_connection_def newDoIPConnection_def conn_ok_def timer_of_client_def
      timer_inv_def newAliveCheckTimer_def dest: arg_cong [where f = aliveCheckTimer]
      arg_cong [where f = routedClientAddress])

interpretation example_machine:
  inductive_invariant conn_init "conn_step env (example_app env)" example_ok for env
proof unfold_locales
  show "conn_init c \<Longrightarrow> example_ok c" for c
    by (simp add: conn_init_def example_ok_def new_connection_ok)
  show "example_ok c \<Longrightarrow> conn_step env (example_app env) c d \<Longrightarrow> example_ok d" for c d
    by (auto simp: example_ok_def dest: conn_ok_step tls_ok_step)
qed

section \<open>The counter of the example\<close>

text \<open>Every expiry of a timer has been counted once.\<close>

definition counted :: "int \<Rightarrow> example_conn \<Rightarrow> bool" where
  "counted k c \<longleftrightarrow>
     app_state c = (if timeout (aliveCheckTimer c) then k - 1 else k) \<and>
     (timeout (aliveCheckTimer c) \<longrightarrow> disabled (aliveCheckTimer c))"

lemma counted_unread [simp]:
  "counted k (c\<lparr>trace := tr\<rparr>) = counted k c"
  "counted k (c\<lparr>routedClientAddress := p\<rparr>) = counted k c"
  by (simp_all add: counted_def)

lemma counted_calls [pres]:
  "preserves (counted k) (ext_call env x)" "preserves (counted k) (ext_ret env x)"
  by (rule preservesI, simp add: run_simps)+

lemma counted_closeSocket [pres]: "preserves (counted k) (closeSocket env skip)"
  by (rule preservesI) (auto elim!: closeSocketE simp: counted_def split: if_splits)

lemma counted_parseSSLerror [pres]: "preserves (counted k) (parseSSLerror env h r)"
  unfolding parseSSLerror_def by (intro pres)

lemma counted_sendMessage [pres]: "preserves (counted k) (sendMessage env m n)"
  unfolding sendMessage_def by (intro pres)

lemma counted_sends [pres]:
  "preserves (counted k) (sendDiagnosticAck env sa ack code)"
  "preserves (counted k) (sendDiagnosticPayload env sa d n)"
  unfolding sendDiagnosticAck_def sendDiagnosticPayload_def by (intro pres)+

lemma counted_activate [pres]: "preserves (counted k) (activate_client env p)"
  by (rule preservesI)
     (auto elim!: activate_client_split simp: counted_def started_def split: if_splits)

lemma counted_fires:
  assumes "counted k c" and "\<not> disabled (aliveCheckTimer c)"
    and "run_timer_cb env (example_app env) x
      (c\<lparr>aliveCheckTimer := aliveCheckTimer c\<lparr>disabled := True, timeout := True\<rparr>\<rparr>) = Inr (u, c')"
  shows "counted k c'"
proof -
  let ?c = "c\<lparr>aliveCheckTimer := aliveCheckTimer c\<lparr>disabled := True, timeout := True\<rparr>\<rparr>"
  from assms(3) obtain c1 where close: "closeSocket env False ?c = Inr ((), c1)"
    and call: "CloseConnection c1 = Inr (u, c')"
    by (cases x) (auto simp: aliveCheckTimeout_def call_member_def prog_eq_Inr split: option.splits
        simp: fail_def)
  have "app_state c1 = app_state ?c" "aliveCheckTimer c1 = aliveCheckTimer ?c"
    using close by (auto elim!: closeSocketE split: if_splits)
  with CloseConnection_split [OF call] assms(1,2) show ?thesis by (auto simp: counted_def)
qed

interpretation example_counted: connection_invariant env "example_app env" "counted k" for env k
proof unfold_locales
  have notify: "preserves (counted k) (DiagnosticMessageReceived env t)" for t
    unfolding DiagnosticMessageReceived_def by (intro pres)
  have diag: "preserves (counted k) (ReceiveFromLibrary env t m n)" for t m n
    unfolding ReceiveFromLibrary_def by (intro pres)
  show "preserves (counted k) (run_notify (example_app env) h t)" for h t
    using notify by simp
  show "preserves (counted k) (run_diag (example_app env) h t m n)" for h t m n
    using diag by simp
  show "counted k c'" if "counted k c" "handle_SSL_read_error env s i c = Inr (x, c')" for c s i x c'
  proof -
    have "preserves (counted k) (handle_SSL_read_error env s i)"
      unfolding handle_SSL_read_error_def by (intro pres)
    with that show ?thesis by (auto dest: preservesD)
  qed
  show "counted k c'"
    if "counted k c" "\<not> disabled (aliveCheckTimer c)" "run_timer_cb env (example_app env) x
      (c\<lparr>aliveCheckTimer := aliveCheckTimer c\<lparr>disabled := True, timeout := True\<rparr>\<rparr>) = Inr (u, c')"
    for c x u c'
    using that by (rule counted_fires)
qed (auto intro!: pres simp: counted_def)

lemma handleClient_split:
  assumes "handleClient m env c = Inr (left, c')"
  obtains c2 where "serve_loop m env (configured_client c) = Inr (left, c2)"
    and "c' = (if left then c2\<lparr>app_state := app_state c2 - 1\<rparr> else c2)"
proof -
  from assms obtain l c2 where run: "serve_loop m env (configured_client c) = Inr (l, c2)"
    and fin: "(if l then thn (triggerDisconnection (example_app env)) (return True)
          else return False) c2 = Inr (left, c')"
    by (auto simp: handleClient_def configured_client_run bnd_eq_Inr)
  from fin have "l = left"
    and "c' = (if left then c2\<lparr>app_state := app_state c2 - 1\<rparr> else c2)"
    by (auto simp: triggerDisconnection_def call_member_def prog_eq_Inr fail_def
        split: if_splits option.splits dest!: CloseConnection_split)
  with run show ?thesis by (intro that [of c2]) simp_all
qed

lemma configured_client_counted: "new_connection c \<Longrightarrow> counted (app_state c) (configured_client c)"
  by (simp add: counted_def new_connection_members newAliveCheckTimer_def)

lemma counted_serve_loop: "preserves (counted k) (serve_loop m env)"
  by (induction m) (auto intro!: pres example_counted.inv_receive)

end
