(* ===== verification/Doip_Worlds.thy ===== *)
theory Doip_Worlds
  imports Doip_Env
begin

text \<open>
  Concrete worlds, on which the development's statements are evaluated: a world that plays a
  list of answers in turn and is silent afterwards (every call returns 0 and stores nothing).
\<close>

definition silent :: answer where
  "silent = \<lparr>ret = 0, bytes = [], sender = uninit_sockaddr\<rparr>"

definition answers :: "int \<Rightarrow> answer" where
  "answers r = \<lparr>ret = r, bytes = [], sender = uninit_sockaddr\<rparr>"

definition delivers :: "byte list \<Rightarrow> answer" where
  "delivers bs = \<lparr>ret = int (length bs), bytes = bs, sender = uninit_sockaddr\<rparr>"

definition script :: "answer list \<Rightarrow> env" where
  "script as tr k = (if length tr < length as then as ! length tr else silent)"

lemma script_ended [simp]: "length as \<le> length tr \<Longrightarrow> script as tr k = silent"
  by (simp add: script_def)

end
