(* ===== verification/Doip_Service.thy ===== *)
theory Doip_Service
  imports Doip_Machine Doip_Worlds
begin

text \<open>
  The properties of a connection and of the thread that serves it: what the peer gets, what the
  application gets, which errors there are, and that the thread ends.
\<close>

section \<open>Two connections as they are accepted\<close>

definition accepted_tcp :: example_conn where
  "accepted_tcp = newDoIPConnection [] 1 4 LOGICAL_ADDRESS None"

definition accepted_tls :: example_conn where
  "accepted_tls = newDoIPConnection [] 1 4 LOGICAL_ADDRESS (Some 7)"

lemma accepted_new [simp]: "new_connection accepted_tcp" "new_connection accepted_tls"
  by (simp_all add: accepted_tcp_def accepted_tls_def new_connection_def newDoIPConnection_def)

lemma accepted_simps [simp]:
  "trace accepted_tcp = []" "ssl accepted_tcp = None" "ssl accepted_tls = Some 7"
  "trace accepted_tls = []"
  by (simp_all add: accepted_tcp_def accepted_tls_def newDoIPConnection_def)

text \<open>A tester that activates routing, asks for a data identifier, and leaves.\<close>

definition tester_stream :: "byte list" where
  "tester_stream =
     [0x02, 0xFD, 0x00, 0x05, 0, 0, 0, 7, 0x0E, 0x00, 0, 0, 0, 0, 0,
      0x02, 0xFD, 0x80, 0x01, 0, 0, 0, 7, 0x0E, 0x00, 0x00, 0x28, 0x22, 0xF1, 0x90]"

definition tester_world :: env where
  "tester_world = script
     [delivers (take 8 tester_stream), answers 0, delivers (take 7 (drop 8 tester_stream)),
      answers 17, answers 0, answers 0, delivers (take 3 (drop 15 tester_stream)), answers 0,
      delivers (take 5 (drop 18 tester_stream)), answers 0, answers 0,
      delivers (drop 23 tester_stream)]"

text \<open>What the evaluation of a run shows.\<close>

lemma evaluated:
  assumes "case r of Inl e \<Rightarrow> False | Inr (x, c) \<Rightarrow> P x c"
  obtains x c where "r = Inr (x, c)" and "P x c"
  using assms by (cases r) auto

section \<open>A client's session\<close>

text \<open>The loop of a client's thread, from the connection as it was accepted.\<close>

lemma served_stream:
  assumes "new_connection c" and "serve_loop m env (configured_client c) = Inr (left, c')"
    and "\<not> timeout (aliveCheckTimer c')"
  shows "\<exists>bs. received (trace c') = received (trace c) @ bs \<and>
          (ssl c \<noteq> None \<and> announces_limit bs \<or>
           written (trace c') = written (trace c) @
             map (map Some) (server_output (logicalGatewayAddress c) Unrouted (fst (frames bs))) \<and>
           (if left then peer_of c' = Closed
            else snd (frames bs) = [] \<and> peer_of c' = server_peer Unrouted (fst (frames bs))))"
proof -
  have "serving (ssl c \<noteq> None) False (configured_client c)"
    using assms(1) by (rule configured_client_serving) blast
  from serve_loop_stream [OF assms(2) this] assms(3) obtain bs where
    bs: "received (trace c') = received (trace (configured_client c)) @ bs"
    and out: "ssl c \<noteq> None \<and> announces_limit bs \<or> session (configured_client c) c' left bs"
    by (auto simp: expired_def)
  have "peer_of (configured_client c) = Unrouted"
    using assms(1) by (simp add: peer_of_def new_connection_members)
  with bs out show ?thesis by (intro exI [of _ bs]) (auto simp: session_def)
qed

lemma handleClient_stream:
  assumes "new_connection c" and "handleClient m env c = Inr (left, c')"
    and "\<not> timeout (aliveCheckTimer c')"
  shows "\<exists>bs. received (trace c') = received (trace c) @ bs \<and>
          (ssl c \<noteq> None \<and> announces_limit bs \<or>
           written (trace c') = written (trace c) @
             map (map Some) (server_output (logicalGatewayAddress c) Unrouted (fst (frames bs))) \<and>
           (if left then peer_of c' = Closed \<and> app_state c' = app_state c - 1
            else snd (frames bs) = [] \<and> peer_of c' = server_peer Unrouted (fst (frames bs)) \<and>
                 app_state c' = app_state c))"
proof -
  obtain c2 where run: "serve_loop m env (configured_client c) = Inr (left, c2)"
    and c': "c' = (if left then c2\<lparr>app_state := app_state c2 - 1\<rparr> else c2)"
    by (rule handleClient_split [OF assms(2)])
  from assms(3) c' have alive: "\<not> timeout (aliveCheckTimer c2)" by (auto split: if_splits)
  from preservesD [OF counted_serve_loop run configured_client_counted [OF assms(1)]] alive
  have "app_state c2 = app_state c" by (simp add: counted_def)
  with served_stream [OF assms(1) run alive] c' show ?thesis by (auto simp: peer_of_def)
qed

lemma client_thread_split:
  assumes "client_thread m env c = Inr (left, c')"
  obtains c1 where "handleClient m env c = Inr (left, c1)"
    and "c' = (if left then c1\<lparr>aliveCheckTimer := (aliveCheckTimer c1)\<lparr>disabled := True\<rparr>\<rparr> else c1)"
  using assms
  by (auto simp: client_thread_def destroyAliveCheckTimer_def prog_eq_Inr run_simps fail_def
      split: if_splits)

text \<open>
  C2. A tester's session, over TCP or TLS. The thread of an accepted tester, run for any number
  of messages in any world in which the alive check timer does not expire, consumes some bytes
  \<open>bs\<close> and writes exactly \<open>server_output\<close> of the complete messages
  that \<open>frames\<close> finds in them: activation responses, negative acknowledgements,
  diagnostic acknowledgements and the application's answers, in that order and nothing else,
  however the stream is cut into reads. If the thread was left, the connection is closed and
  the application's counter is one lower; if it still runs, the bytes are whole messages and
  the connection is in the state the protocol gives after them. The one exception is a TLS
  stream with a header that announces 0xFFFFFFFF bytes (\<open>announces_limit\<close>), since
  that length cannot be told from the result of a failed read.
\<close>

theorem client_session:
  assumes "new_connection c" and "client_thread m env c = Inr (left, c')"
    and "\<not> timeout (aliveCheckTimer c')"
  shows "\<exists>bs. received (trace c') = received (trace c) @ bs \<and>
          (ssl c \<noteq> None \<and> announces_limit bs \<or>
           written (trace c') = written (trace c) @
             map (map Some) (server_output (logicalGatewayAddress c) Unrouted (fst (frames bs))) \<and>
           (if left then peer_of c' = Closed \<and> app_state c' = app_state c - 1
            else snd (frames bs) = [] \<and> peer_of c' = server_peer Unrouted (fst (frames bs)) \<and>
                 app_state c' = app_state c))"
proof -
  obtain c1 where run: "handleClient m env c = Inr (left, c1)"
    and c': "c' = (if left then c1\<lparr>aliveCheckTimer := (aliveCheckTimer c1)\<lparr>disabled := True\<rparr>\<rparr> else c1)"
    by (rule client_thread_split [OF assms(2)])
  from assms(3) c' have "\<not> timeout (aliveCheckTimer c1)" by (auto split: if_splits)
  from handleClient_stream [OF assms(1) run this] c' show ?thesis
    by (auto simp: peer_of_def split: if_splits)
qed

lemma tester_messages:
  "header_spec (take 8 (take 15 tester_stream)) = Accepted ROUTINGACTIVATIONREQUEST 7"
  "length (take 15 tester_stream) = 15"
  "header_spec (take 8 (drop 15 tester_stream)) = Accepted DIAGNOSTICMESSAGE 7"
  "length (drop 15 tester_stream) = 15"
  by code_simp+

lemma tester_no_limit: "\<not> announces_limit tester_stream"
proof -
  have "\<not> announces_limit (concat [take 15 tester_stream, drop 15 tester_stream])"
    by (rule no_limit)
       (use complete_verdict [OF tester_messages(1)] complete_verdict [OF tester_messages(3)]
          tester_messages(2,4) in auto)
  then show ?thesis by simp
qed

lemma tester_session:
  "case handleClient 5 tester_world accepted_tcp of Inl e \<Rightarrow> False
   | Inr (left, c') \<Rightarrow> left \<and> \<not> timeout (aliveCheckTimer c') \<and> received (trace c') = tester_stream"
  by code_simp

theorem client_session_witness:
  "\<exists>c'. client_thread 5 tester_world accepted_tls = Inr (True, c') \<and>
        received (trace c') = tester_stream \<and>
        written (trace c') =
          map (map Some) (server_output LOGICAL_ADDRESS Unrouted (fst (frames tester_stream))) \<and>
        app_state c' = 0"
proof -
  have "case client_thread 5 tester_world accepted_tls of Inl e \<Rightarrow> False
   | Inr (left, c') \<Rightarrow> left \<and> \<not> timeout (aliveCheckTimer c') \<and> received (trace c') = tester_stream"
    by code_simp
  then obtain l c' where "client_thread 5 tester_world accepted_tls = Inr (l, c')"
    and l: "l \<and> \<not> timeout (aliveCheckTimer c') \<and> received (trace c') = tester_stream"
    by (rule evaluated)
  then have run: "client_thread 5 tester_world accepted_tls = Inr (True, c')" by simp
  have members: "logicalGatewayAddress accepted_tls = LOGICAL_ADDRESS" "app_state accepted_tls = 1"
    by (simp_all add: accepted_tls_def newDoIPConnection_def)
  have "\<not> announces_limit tester_stream" by (rule tester_no_limit)
  with client_session [OF accepted_new(2) run] l members run show ?thesis by auto
qed

lemma client_thread_result:
  assumes "new_connection c" and "client_thread m env c = Inr (left, c')"
  obtains c2 where "serve_loop m env (configured_client c) = Inr (left, c2)"
    and "client_sock c' = client_sock c2" and "client_sock c2 = 0 \<longrightarrow> ssl c' = None"
proof -
  from assms(2) obtain c3 where handle: "handleClient m env c = Inr (left, c3)"
    and c': "c' = (if left then c3\<lparr>aliveCheckTimer := (aliveCheckTimer c3)\<lparr>disabled := True\<rparr>\<rparr> else c3)"
    by (rule client_thread_split)
  obtain c2 where run: "serve_loop m env (configured_client c) = Inr (left, c2)"
    and c3: "c3 = (if left then c2\<lparr>app_state := app_state c2 - 1\<rparr> else c2)"
    by (rule handleClient_split [OF handle])
  have "serving True False c3"
    by (rule hoareD(1) [OF handleClient_safe _ handle]) (use assms(1) in simp)
  then have "conn_ok c3" by (simp add: serving_def)
  with c' c3 show ?thesis by (intro that [OF run]) (auto simp: conn_ok_def split: if_splits)
qed

text \<open>
  C7. Termination and safety of a tester's thread. When reads deliver nothing after the n-th
  call, any bound of iterations larger than the number of calls left lets the thread of an
  accepted tester return with the socket closed and the TLS object released, or stop with one
  of the errors in \<open>run_errors\<close> or a signed overflow: in particular no access out
  of bounds, no empty callback, and over TCP no use of a released object and no read of an
  unwritten value.
\<close>

theorem client_thread_ends:
  assumes "new_connection c" and "ended n env" and "n - length (trace c) < m"
  shows "case client_thread m env c of
           Inl e \<Rightarrow> e \<in> run_errors (ssl c \<noteq> None) False \<union> {SignedOverflow}
         | Inr (left, c') \<Rightarrow> left \<and> client_sock c' = 0 \<and> ssl c' = None"
proof (cases "client_thread m env c")
  case (Inl e)
  with client_thread_errors [OF assms(1)] show ?thesis by simp
next
  case (Inr p)
  obtain left c' where p: "p = (left, c')" by (cases p)
  from Inr p obtain c2 where run: "serve_loop m env (configured_client c) = Inr (left, c2)"
    and c': "client_sock c' = client_sock c2" "client_sock c2 = 0 \<longrightarrow> ssl c' = None"
    using client_thread_result [OF assms(1)] by metis
  from serve_loop_ends [OF assms(2) _ run] assms(3) c' show ?thesis by (simp add: Inr p)
qed

theorem client_thread_ends_witness:
  "case client_thread 13 tester_world accepted_tcp of
     Inl e \<Rightarrow> e \<in> run_errors False False \<union> {SignedOverflow}
   | Inr (left, c') \<Rightarrow> left \<and> client_sock c' = 0 \<and> ssl c' = None"
proof -
  have "ended 12 tester_world" by (simp add: ended_def tester_world_def silent_def)
  from client_thread_ends [OF accepted_new(1) this, of 13] show ?thesis
    by (simp cong: sum.case_cong)
qed

section \<open>Receiving\<close>



text \<open>
  C8. The reaction refines the protocol. For every verdict on a header and payload of the
  announced length that the library answers by itself (negative acknowledgement, routing
  activation, alive check response, unhandled types), on an open connection,
  \<open>reactOnReceivedTcpMessage\<close> does not fail, writes the reply that the protocol
  prescribes and nothing else, and leaves the connection in the prescribed state: closed,
  unrouted, or routed to the tester's address.
\<close>

theorem reaction_refines_protocol:
  assumes "verdict_of action = Some v" and "library_message v p"
    and "payload = Some (map Some p)" and "client_sock c \<noteq> 0"
  shows "case reactOnReceivedTcpMessage env app action n payload c of
           Inl e \<Rightarrow> False
         | Inr (q, c') \<Rightarrow> implements (logicalGatewayAddress c) v p c c'"
  using react_implements [OF assms(1,2) _ assms(4) refl, of payload env app n] assms(3) by auto

theorem reaction_refines_protocol_witness:
  "case reactOnReceivedTcpMessage tester_world (example_app tester_world)
          \<lparr>action_type = Some ROUTINGACTIVATIONREQUEST, action_value = None, action_payloadLength = Some 7\<rparr>
          7 (Some (map Some [0x0E, 0, 0, 0, 0, 0, 0])) accepted_tcp of
     Inl e \<Rightarrow> False
   | Inr (q, c') \<Rightarrow> implements (logicalGatewayAddress accepted_tcp)
       (Accepted ROUTINGACTIVATIONREQUEST 7) [0x0E, 0, 0, 0, 0, 0, 0] accepted_tcp c'"
  by (rule reaction_refines_protocol)
     (simp_all add: verdict_of_def library_message_def accepted_tcp_def newDoIPConnection_def)

text \<open>
  C10. Exact reading. \<open>receiveFixedNumberOfBytesFromTcpOrTls\<close> stores the bytes
  that the peer delivered during the call, in order, at the start of the array and leaves the
  rest of it unwritten; there are at most as many as asked for; the result is the number asked
  for when all arrived, and otherwise the number received over TCP, and that, 0 or -1 over TLS.
\<close>

theorem receive_exact:
  assumes "quiet_close app"
    and "receiveFixedNumberOfBytesFromTcpOrTls env app k (replicate (unat k) None) c =
         Inr ((n, b), c')"
  shows "\<exists>bs. received (trace c') = received (trace c) @ bs \<and> length bs \<le> unat k \<and>
           b = map Some bs @ replicate (unat k - length bs) None \<and>
           (if length bs = unat k then n = k
            else n \<in> (if ssl c = None then {of_nat (length bs)} else {of_nat (length bs), 0, -1}))"
proof -
  have "ssl c \<noteq> None \<or> over_tcp c" by (auto simp: over_tcp_def)
  from receiveFixed_result [OF assms this] obtain bs where
    "received (trace c') = received (trace c) @ bs"
    and "loop_result (ssl c \<noteq> None) (unat k) n bs b" by blast
  then show ?thesis by (intro exI [of _ bs]) (auto simp: loop_result_def split: if_splits)
qed

definition slow_world :: env where
  "slow_world = script [delivers [1, 2], delivers [3], delivers [4, 5, 6, 7]]"

theorem receive_exact_witness:
  "\<exists>n b c'. receiveFixedNumberOfBytesFromTcpOrTls slow_world (example_app slow_world) 9
     (replicate 9 None) accepted_tcp = Inr ((n, b), c') \<and> n = 7 \<and>
     (\<exists>bs. received (trace c') = bs \<and> b = map Some bs @ replicate (9 - length bs) None)"
proof -
  have "case receiveFixedNumberOfBytesFromTcpOrTls slow_world (example_app slow_world) 9
     (replicate (unat (9 :: u64)) None) accepted_tcp of Inl e \<Rightarrow> False | Inr (x, c') \<Rightarrow> fst x = 7"
    by code_simp
  then obtain x c' where run: "receiveFixedNumberOfBytesFromTcpOrTls slow_world (example_app slow_world) 9
     (replicate (unat (9 :: u64)) None) accepted_tcp = Inr (x, c')" and x: "fst x = 7"
    by (rule evaluated)
  obtain n b where nb: "x = (n, b)" by (cases x)
  from receive_exact [OF example_quiet_close run [unfolded nb]] run x nb
  show ?thesis by (auto simp del: replicate_Cons_numeral)
qed

text \<open>
  C16. Safety of receiving. On a configured connection of the example server,
  \<open>receiveTcpOrTlsMessage\<close> either returns with the connection configured and well
  formed, or fails with an allocation failure, a broken contract of a read, or an overflow of
  the application's counter; over TLS also with a use of a released object; and before routing
  activation also with the uninitialised address pointer. Accesses out of bounds and calls of
  empty callbacks do not occur.
\<close>

theorem receive_errors:
  assumes "serving tls routed c"
  shows "case receiveTcpOrTlsMessage env (example_app env) c of
           Inl e \<Rightarrow> e \<in> {BadAlloc, EnvContract, SignedOverflow} \<union>
                        (if tls then {UseAfterFree, Indeterminate} else {}) \<union>
                        (if routed then {} else {BadPointer})
         | Inr (q, c') \<Rightarrow> serving tls routed c'"
  using hoareD [OF example_errors.serving_receive assms, of env]
  by (auto simp: run_errors_def split: sum.split)

definition configured_tcp :: example_conn where
  "configured_tcp = accepted_tcp
     \<lparr>diag_callback := Some (), notify_application := Some (), close_connection := Some (),
      aliveCheckTimer := newAliveCheckTimer\<lparr>maxSeconds := Some 50000\<rparr>,
      routedClientAddress := Some [Some 0x0E, Some 0x00]\<rparr>"

lemma configured_serving_tcp: "serving False True configured_tcp"
  by (simp add: configured_tcp_def accepted_tcp_def newDoIPConnection_def serving_def conn_ok_def
      timer_of_client_def timer_inv_def newAliveCheckTimer_def)

theorem receive_errors_witness:
  "case receiveTcpOrTlsMessage tester_world (example_app tester_world) configured_tcp of
     Inl e \<Rightarrow> e \<in> {BadAlloc, EnvContract, SignedOverflow}
   | Inr (q, c') \<Rightarrow> serving False True c'"
  using receive_errors [OF configured_serving_tcp, of tester_world]
  by (simp cong: sum.case_cong)

section \<open>Handing messages to the application\<close>

text \<open>
  C27. Handing over a diagnostic message. The callback is called exactly when the payload has
  at least four bytes and fewer than 2^31 and its source is the routed address, with the target
  address and the data behind it; other payloads are dropped without any effect, except that a
  payload long enough on a connection never routed dereferences the uninitialised address.
\<close>

theorem pass_to_application_outcome:
  assumes "diag_callback c = Some h" and "length p < 2 ^ 32"
    and "routedClientAddress c = map_option (\<lambda>(a, b). [Some a, Some b]) client"
  shows "pass_to_application app (Some (map Some p)) (of_nat (length p)) c =
         (if length p < 4 \<or> 2 ^ 31 \<le> length p then Inr ((), c)
          else case client of
                 None \<Rightarrow> Inl BadPointer
               | Some (a, b) \<Rightarrow>
                   if take 2 p = [a, b]
                   then run_diag app h (be16 (p ! 2) (p ! 3)) (map Some (drop 4 p))
                          (int (length p) - 4) c
                   else Inr ((), c))"
proof (cases "length p < 4 \<or> 2 ^ 31 \<le> length p")
  case True
  have "unat (of_nat (length p) :: u64) = length p"
    using assms(2) by (intro of_nat_inverse [OF refl]) simp
  then have "u64_to_int (of_nat (length p)) < 4"
    using True u64_to_int_small [of "length p"] u64_to_int_large [of "of_nat (length p)"] assms(2)
    by fastforce
  with True show ?thesis by (simp add: pass_to_application_short)
next
  case False
  then have n: "4 \<le> u64_to_int (of_nat (length p))" using u64_to_int_small [of "length p"] by simp
  obtain x y t1 t0 body where p: "p = x # y # t1 # t0 # body"
    using False by (cases p; cases "tl p"; cases "tl (tl p)"; cases "tl (tl (tl p))") auto
  show ?thesis
  proof (cases client)
    case None
    with False n assms(3) show ?thesis by (simp add: pass_to_application_unrouted)
  next
    case (Some ab)
    obtain a b where ab: "ab = (a, b)" by (cases ab)
    with Some assms(3) have ra: "routedClientAddress c = Some [Some a, Some b]" by simp
    show ?thesis
    proof (cases "(x, y) = (a, b)")
      case True
      with False Some ab ra assms(1) show ?thesis
        using pass_to_application_match [of c a b h "Some (map Some p)" t1 t0 body
            "of_nat (length p)" app]
        by (simp add: p)
    next
      case other: False
      with False Some ab show ?thesis
        using pass_to_application_other [OF ra other, of "Some (map Some p)" "t1 # t0 # body" _ app] n
        by (auto simp: p)
    qed
  qed
qed

theorem pass_to_application_outcome_witness:
  "pass_to_application (example_app tester_world) (Some (map Some [0x0E, 0x01, 0x00, 0x28, 0x22]))
     (of_nat (length [0x0E, 0x01, 0x00, 0x28, 0x22 :: byte])) configured_tcp = Inr ((), configured_tcp)"
  using pass_to_application_outcome [of configured_tcp "()" "[0x0E, 0x01, 0x00, 0x28, 0x22]"
      "Some (0x0E, 0x00)" "example_app tester_world"]
  by (simp add: configured_tcp_def)

section \<open>Releasing the socket and the TLS object\<close>

text \<open>
  C24. Closing. \<open>closeSocket\<close> never fails, does nothing on a closed connection,
  and is idempotent. Over TCP it closes the descriptor; over TLS it first shuts the TLS layer
  down, with one retry and one error query at most, unless told to skip this, then releases the
  TLS object and then closes the descriptor; afterwards the socket is 0 and there is no TLS
  object.
\<close>

theorem closeSocket_outcome:
  "\<exists>tr. closeSocket env skip c =
          Inr ((), if client_sock c = 0 then c
                   else c\<lparr>trace := trace c @ tr, client_sock := 0, ssl := None\<rparr>) \<and>
        closeSocket env skip' (c\<lparr>trace := trace c @ tr, client_sock := 0, ssl := None\<rparr>) =
          Inr ((), c\<lparr>trace := trace c @ tr, client_sock := 0, ssl := None\<rparr>) \<and>
        (if client_sock c = 0 then tr = []
         else case ssl c of
                None \<Rightarrow> calls_of tr = [CloseFd (client_sock c)]
              | Some h \<Rightarrow> \<exists>pre. calls_of tr = pre @ [SSL_free h, CloseFd (client_sock c)] \<and>
                  (if skip then pre = []
                   else hd pre = SSL_shutdown h \<and> length pre \<in> {1, 2, 3} \<and>
                        set pre \<subseteq> {SSL_shutdown h} \<union> range (SSL_get_error h)))"
proof (cases "client_sock c = 0")
  case True
  then show ?thesis by (intro exI [of _ "[]"]) (simp add: closeSocket_inactive)
next
  case on: False
  show ?thesis
  proof (cases "ssl c")
    case None
    then have "c\<lparr>trace := t, client_sock := 0, ssl := None\<rparr> = c\<lparr>trace := t, client_sock := 0\<rparr>" for t
      by (intro ssl_unchanged) simp
    with on None show ?thesis
      by (intro exI [of _ "[(CloseFd (client_sock c), env (trace c) (CloseFd (client_sock c)))]"])
         (simp add: closeSocket_plain closeSocket_inactive)
  next
    case (Some h)
    show ?thesis
    proof (cases skip)
      case True
      with closeSocket_skip [OF on Some, of env] obtain a b where
        "closeSocket env skip c = Inr ((), c\<lparr>trace := trace c @ [(SSL_free h, a), (CloseFd (client_sock c), b)],
                    client_sock := 0, ssl := None\<rparr>)" by auto
      with on Some True show ?thesis
        by (intro exI [of _ "[(SSL_free h, a), (CloseFd (client_sock c), b)]"])
           (simp add: closeSocket_inactive)
    next
      case False
      then have "skip = False" by simp
      with closeSocket_tls [OF on Some, of env] on Some show ?thesis
        by (auto simp: closeSocket_inactive)
    qed
  qed
qed



section \<open>The alive check timer\<close>

text \<open>
  C12. The alive check timer fires. When the clock shows the deadline as passed from the n-th
  call on, the loop of an armed timer ends within one iteration more than the calls that are
  left, the socket is then closed, the timer is marked as timed out and disabled, and the
  application was told, which lowers its counter by one.
\<close>

theorem timeout_disconnects:
  assumes "armed (aliveCheckTimer c) start limit AliveCheckTimeout"
    and "\<And>tr. n \<le> length tr \<Longrightarrow> expired_at start limit (ret (env tr Clock))"
    and "close_connection c \<noteq> None" and "int_min < app_state c" and "app_state c \<le> int_max"
  shows "\<exists>m c'. m \<le> Suc (n - length (trace c)) \<and>
           waitForResponse m env (run_timer_cb env (example_app env)) c = Inr (True, c') \<and>
           client_sock c' = 0 \<and> timeout (aliveCheckTimer c') \<and> disabled (aliveCheckTimer c') \<and>
           app_state c' = app_state c - 1"
proof -
  have "\<exists>tr m. (\<forall>e \<in> set tr. fst e = Clock) \<and> m \<le> Suc (n - length (trace c)) \<and>
      waitForResponse m env (run_timer_cb env (example_app env)) c =
      thn (run_timer_cb env (example_app env) AliveCheckTimeout) (gets (\<lambda>s. disabled (aliveCheckTimer s)))
        (c\<lparr>trace := trace c @ tr,
           aliveCheckTimer := (aliveCheckTimer c)\<lparr>disabled := True, timeout := True\<rparr>\<rparr>)"
    by (rule waitForResponse_fires [OF assms(1)]) (rule assms(2))
  then obtain tr m where m: "m \<le> Suc (n - length (trace c))"
    and run: "waitForResponse m env (run_timer_cb env (example_app env)) c =
      thn (run_timer_cb env (example_app env) AliveCheckTimeout) (gets (\<lambda>s. disabled (aliveCheckTimer s)))
        (c\<lparr>trace := trace c @ tr,
           aliveCheckTimer := (aliveCheckTimer c)\<lparr>disabled := True, timeout := True\<rparr>\<rparr>)"
    by blast
  let ?c = "c\<lparr>trace := trace c @ tr,
              aliveCheckTimer := (aliveCheckTimer c)\<lparr>disabled := True, timeout := True\<rparr>\<rparr>"
  obtain d where close: "closeSocket env False ?c = Inr ((), d)"
    and d: "close_connection d = close_connection c" "app_state d = app_state c" "client_sock d = 0"
      "aliveCheckTimer d = (aliveCheckTimer c)\<lparr>disabled := True, timeout := True\<rparr>"
    using closeSocket_cases [of env False ?c] by (auto split: if_splits)
  from assms(3) obtain h where h: "close_connection d = Some h" unfolding d by auto
  have "waitForResponse m env (run_timer_cb env (example_app env)) c =
      Inr (True, d\<lparr>app_state := app_state c - 1\<rparr>)"
    unfolding run using assms(4,5)
    by (simp add: aliveCheckTimeout_def call_member_def thn_def bnd_def close CloseConnection_def
        gets_def modify_def lift_def add_int_def h d)
  with m d show ?thesis
    by (intro exI [of _ m] exI [of _ "d\<lparr>app_state := app_state c - 1\<rparr>"]) simp
qed

definition armed_tcp :: example_conn where
  "armed_tcp = configured_tcp
     \<lparr>aliveCheckTimer := \<lparr>disabled = False, active = True, timeout = False,
        cb = Some AliveCheckTimeout, timerThreads = 1, startTime = Some 0, maxSeconds = Some 50000\<rparr>\<rparr>"

theorem timeout_disconnects_witness:
  "\<exists>m c'. m \<le> 1 \<and>
     waitForResponse m (\<lambda>tr k. answers 50000000000)
       (run_timer_cb (\<lambda>tr k. answers 50000000000) (example_app (\<lambda>tr k. answers 50000000000)))
       armed_tcp = Inr (True, c') \<and>
     client_sock c' = 0 \<and> app_state c' = 0"
proof -
  have "armed (aliveCheckTimer armed_tcp) 0 50000 AliveCheckTimeout"
    by (simp add: armed_tcp_def armed_def)
  moreover have "expired_at 0 50000 (ret (answers 50000000000))"
    unfolding expired_at_def answers_def CLOCKS_PER_SEC_def by code_simp
  moreover have "close_connection armed_tcp \<noteq> None" "app_state armed_tcp = 1"
    by (simp_all add: armed_tcp_def configured_tcp_def accepted_tcp_def newDoIPConnection_def)
  ultimately show ?thesis
    using timeout_disconnects [of armed_tcp 0 50000 0 "\<lambda>tr k. answers 50000000000"]
    by (auto simp: int_min_def int_max_def)
qed

text \<open>
  Invariant of the timer. In every reachable state the start time is set exactly when the
  timer was started, a timeout implies that it is disabled, a thread implies that it was
  started, and a disabled timer stays disabled in every step, while \<open>startTimer\<close>
  and the thread's loop change nothing.
\<close>

lemma reachable_timer:
  assumes "reach timer_init (timer_step env) s"
  shows "(active (aliveCheckTimer s) \<longleftrightarrow> startTime (aliveCheckTimer s) \<noteq> None) \<and>
         (if timeout (aliveCheckTimer s) then disabled (aliveCheckTimer s) else True) \<and>
         (if 0 < timerThreads (aliveCheckTimer s) then active (aliveCheckTimer s) else True) \<and>
         (if disabled (aliveCheckTimer s)
          then startTimer env s = Inr ((), s) \<and> waitForResponse n env invoke s = Inr (True, s) \<and>
               {t. timer_step env s t} \<subseteq> {t. disabled (aliveCheckTimer t)}
          else True)"
proof -
  have "timer_ok s" by (rule timer_machine.inv_reach [OF assms])
  moreover have "startTimer env s = Inr ((), s)" "waitForResponse n env invoke s = Inr (True, s)"
    "{t. timer_step env s t} \<subseteq> {t. disabled (aliveCheckTimer t)}" if "disabled (aliveCheckTimer s)"
    using that timer_step_stopped [of env s]
    by (auto simp: startTimer_def run_simps waitForResponse_disabled stopped_def)
  ultimately show ?thesis by (auto simp: timer_ok_def timer_inv_def)
qed

definition new_timer :: "unit timed" where
  "new_timer = \<lparr>trace = [], aliveCheckTimer = newAliveCheckTimer\<rparr>"

lemma reachable_timer_witness:
  "\<exists>s. startTimer tester_world new_timer = Inr ((), s) \<and> timerThreads (aliveCheckTimer s) = 1 \<and>
       active (aliveCheckTimer s)"
proof -
  have "case startTimer tester_world new_timer of Inl e \<Rightarrow> False
      | Inr (x, s) \<Rightarrow> timerThreads (aliveCheckTimer s) = 1" by code_simp
  then obtain x s where run: "startTimer tester_world new_timer = Inr (x, s)"
    and n: "timerThreads (aliveCheckTimer s) = 1" by (rule evaluated)
  have "timer_init new_timer" by (simp add: timer_init_def new_timer_def)
  then have "reach timer_init (timer_step tester_world) s"
    by (rule reach_step [OF reach_init]) (rule timer_start [OF run])
  from reachable_timer [OF this, of 0 "\<lambda>_. return ()"] n run show ?thesis by auto
qed

section \<open>Sending for the application\<close>

text \<open>
  C25. Sending for the application. On a connection routed to a tester,
  \<open>sendDiagnosticAck\<close> and \<open>sendDiagnosticPayload\<close> change nothing but
  the history and write exactly one message, with the tester as its target; on a connection
  that was never routed both dereference an uninitialised pointer.
\<close>

theorem application_sends:
  assumes "int (length data) \<le> int_max - 12"
    and "routedClientAddress c = map_option (\<lambda>(a, b). [Some a, Some b]) client"
  shows "case client of
           None \<Rightarrow> sendDiagnosticAck env sa positive code c = Inl BadPointer \<and>
                   sendDiagnosticPayload env sa (map Some data) (int (length data)) c = Inl BadPointer
         | Some (a, b) \<Rightarrow>
             (\<exists>tr. sendDiagnosticAck env sa positive code c = Inr ((), c\<lparr>trace := trace c @ tr\<rparr>) \<and>
                   only_writes [map Some (ack_message positive sa a b code)] tr) \<and>
             (\<exists>tr. sendDiagnosticPayload env sa (map Some data) (int (length data)) c =
                     Inr ((), c\<lparr>trace := trace c @ tr\<rparr>) \<and>
                   only_writes [map Some (diagnostic_message sa a b data)] tr)"
proof (cases client)
  case None
  with assms show ?thesis
    using createDiagnosticMessage_bad_pointer [of "int (length data)" sa "map Some data"]
    by (simp add: sendDiagnosticAck_unrouted sendDiagnosticPayload_def run_simps read_all_initialised)
next
  case (Some ab)
  obtain a b where ab: "ab = (a, b)" by (cases ab)
  with Some assms(2) have ra: "routedClientAddress c = Some [Some a, Some b]" by simp
  show ?thesis
    using sendDiagnosticAck_run [OF ra, of env sa positive code]
      sendDiagnosticPayload_run [OF ra assms(1), of env sa]
    by (simp add: Some ab)
qed

theorem application_sends_witness:
  "sendDiagnosticAck tester_world LOGICAL_ADDRESS True 0 accepted_tcp = Inl BadPointer \<and>
   (\<exists>tr. sendDiagnosticAck tester_world LOGICAL_ADDRESS True 0 configured_tcp =
           Inr ((), configured_tcp\<lparr>trace := trace configured_tcp @ tr\<rparr>) \<and>
         only_writes [map Some (ack_message True LOGICAL_ADDRESS 0x0E 0x00 0)] tr)"
proof -
  have "routedClientAddress accepted_tcp = None"
    "routedClientAddress configured_tcp = Some [Some 0x0E, Some 0x00]"
    by (simp_all add: accepted_tcp_def newDoIPConnection_def configured_tcp_def)
  then show ?thesis
    using application_sends [of "[1]" accepted_tcp None tester_world LOGICAL_ADDRESS True 0]
      application_sends [of "[1]" configured_tcp "Some (0x0E, 0x00)" tester_world LOGICAL_ADDRESS True 0]
    by (simp add: int_max_def)
qed

section \<open>Two races with the timer thread\<close>

text \<open>The tester's TLS record arrives when the timer has just released the TLS object.\<close>

definition tls_race_world :: env where
  "tls_race_world = script
     [delivers (take 8 tester_stream), answers 0, delivers (take 7 (drop 8 tester_stream)),
      answers 17, answers 0, answers 1, answers 60000000000, answers 1]"

text \<open>
  The timer's share of a wait during which it expires, over TLS and with the example's callback:
  it reads the clock, shuts the TLS layer down, releases the object, closes the descriptor and
  lowers the counter.
\<close>

lemma timer_slice_releases:
  assumes "ssl c = Some h" and "client_sock c \<noteq> 0"
    and "armed (aliveCheckTimer c) start limit AliveCheckTimeout"
    and "0 < timerThreads (aliveCheckTimer c)"
    and "close_connection c \<noteq> None" and "int_min < app_state c" and "app_state c \<le> int_max"
    and "e = (TimerSlice, env (trace c) TimerSlice)" and "n = nat (ret (snd e))"
    and "expires_within env start limit n (trace c @ [e])"
  shows "\<exists>d tr m pre. timer_slice env (example_app env) c = Inr ((), d) \<and>
           trace d = trace c @ tr \<and> m < n \<and>
           calls_of tr = TimerSlice # replicate (Suc m) Clock @ pre @
             [SSL_free h, CloseFd (client_sock c)] \<and>
           hd pre = SSL_shutdown h \<and> length pre \<in> {1, 2, 3} \<and>
           set pre \<subseteq> {SSL_shutdown h} \<union> range (SSL_get_error h) \<and>
           ssl d = None \<and> client_sock d = 0 \<and> timeout (aliveCheckTimer d) \<and>
           app_state d = app_state c - 1"
proof -
  let ?s = "c\<lparr>trace := trace c @ [e]\<rparr>" and ?cb = "run_timer_cb env (example_app env)"
  have "armed (aliveCheckTimer ?s) start limit AliveCheckTimeout"
    "expires_within env start limit n (trace ?s)" using assms(3,10) by simp_all
  from waitForResponse_expires [OF this, of ?cb] obtain tr m i where m: "m < n"
    and calls: "calls_of tr = replicate (Suc m) Clock"
    and run: "waitForResponse n env ?cb ?s = thn (?cb AliveCheckTimeout) (waitForResponse i env ?cb)
      (c\<lparr>trace := trace c @ e # tr,
         aliveCheckTimer := (aliveCheckTimer c)\<lparr>disabled := True, timeout := True\<rparr>\<rparr>)"
    by auto
  let ?f = "c\<lparr>trace := trace c @ e # tr,
         aliveCheckTimer := (aliveCheckTimer c)\<lparr>disabled := True, timeout := True\<rparr>\<rparr>"
  from closeSocket_tls [of ?f h env] assms(1,2) obtain tr' pre where
    close: "closeSocket env False ?f = Inr ((), ?f\<lparr>trace := trace ?f @ tr', client_sock := 0, ssl := None\<rparr>)"
    and calls': "calls_of tr' = pre @ [SSL_free h, CloseFd (client_sock c)]"
    and pre: "hd pre = SSL_shutdown h" "length pre \<in> {1, 2, 3}"
      "set pre \<subseteq> {SSL_shutdown h} \<union> range (SSL_get_error h)" by auto
  let ?d = "?f\<lparr>trace := trace ?f @ tr', client_sock := 0, ssl := None, app_state := app_state c - 1\<rparr>"
  from assms(5) obtain g where g: "close_connection c = Some g" by auto
  have "?cb AliveCheckTimeout ?f = Inr ((), ?d)"
    using assms(6,7)
    by (simp add: aliveCheckTimeout_def call_member_def thn_def bnd_def close CloseConnection_def
        gets_def modify_def lift_def add_int_def g)
  then have "waitForResponse n env ?cb ?s = Inr (True, ?d)"
    unfolding run by (simp add: thn_def bnd_def waitForResponse_disabled)
  then have "timer_slice env (example_app env) c = Inr ((), ?d)"
    using assms(4,8,9) by (simp add: timer_slice_def run_simps bnd_def)
  then show ?thesis
    using m calls calls' pre assms(8)
    by (intro exI [of _ ?d] exI [of _ "e # tr @ tr'"] exI [of _ m] exI [of _ pre]) simp
qed

text \<open>
  C36. A race over TLS. Take an open TLS connection of the example whose timer is armed, with
  its thread running, the callbacks set and the counter an \<open>int\<close> above the least
  one, before any wait of the receiving thread in \<open>SSL_read\<close>, in any world;
  \<open>n\<close> is the number of iterations that the scheduler grants the timer thread
  during the wait. If one of these \<open>n\<close> clock readings is past the deadline, the
  timer thread shuts the TLS layer down, calls \<open>SSL_free\<close> on the very object the
  thread waits on, closes the descriptor and lowers the counter; the object is then gone, so
  that the read, and with it the call of \<open>receiveTcpOrTlsMessage\<close>, goes on with a
  released object. If none is, the timer thread only looks at the clock and the read is made on
  the object, which the connection still holds.
\<close>

theorem read_races_with_timer:
  assumes "ssl c = Some h" and "client_sock c \<noteq> 0"
    and "armed (aliveCheckTimer c) start limit AliveCheckTimeout"
    and "0 < timerThreads (aliveCheckTimer c)"
    and "close_connection c \<noteq> None" and "int_min < app_state c" and "app_state c \<le> int_max"
  shows "let e = (TimerSlice, env (trace c) TimerSlice); n = nat (ret (snd e)) in
         \<exists>d tr. timer_slice env (example_app env) c = Inr ((), d) \<and> trace d = trace c @ tr \<and>
           (if expires_within env start limit n (trace c @ [e])
            then (\<exists>m pre. m < n \<and>
                    calls_of tr = TimerSlice # replicate (Suc m) Clock @ pre @
                      [SSL_free h, CloseFd (client_sock c)] \<and>
                    hd pre = SSL_shutdown h \<and>
                    set pre \<subseteq> {SSL_shutdown h} \<union> range (SSL_get_error h)) \<and>
                 ssl d = None \<and> client_sock d = 0 \<and> app_state d = app_state c - 1 \<and>
                 blocking_read env (example_app env) k c = Inl UseAfterFree \<and>
                 receiveTcpOrTlsMessage env (example_app env) c = Inl UseAfterFree
            else calls_of tr = TimerSlice # replicate n Clock \<and> ssl d = Some h \<and>
                 blocking_read env (example_app env) k c =
                   ext_call env (SSL_read h (u64_to_int k)) d)"
proof -
  let ?e = "(TimerSlice, env (trace c) TimerSlice)"
  let ?n = "nat (ret (snd ?e))"
  show ?thesis
  proof (cases "expires_within env start limit ?n (trace c @ [?e])")
    case True
    from timer_slice_releases [OF assms refl refl True] obtain d tr m pre where
      slice: "timer_slice env (example_app env) c = Inr ((), d)" and d: "trace d = trace c @ tr"
        "ssl d = None" "client_sock d = 0" "app_state d = app_state c - 1"
      and tr: "m < ?n" "calls_of tr = TimerSlice # replicate (Suc m) Clock @ pre @
             [SSL_free h, CloseFd (client_sock c)]"
        "hd pre = SSL_shutdown h" "set pre \<subseteq> {SSL_shutdown h} \<union> range (SSL_get_error h)"
      by blast
    have read: "blocking_read env (example_app env) j c = Inl UseAfterFree" for j
      using slice d(2) assms(1) by (simp add: blocking_read_def run_simps bnd_def thn_def fail_def)
    then have "receiveTcpOrTlsMessage env (example_app env) c = Inl UseAfterFree"
      by (simp add: receive_eq receiveFixedNumberOfBytesFromTcpOrTls_def
          receive_loop.simps [of env "example_app env" 8] bnd_def)
    with slice d tr read True show ?thesis
      unfolding Let_def by (intro exI [of _ d] exI [of _ tr]) auto
  next
    case False
    from timer_slice_waits [OF assms(3,4) refl refl False] obtain tr where
      slice: "timer_slice env (example_app env) c = Inr ((), c\<lparr>trace := trace c @ tr\<rparr>)"
      and tr: "calls_of tr = TimerSlice # replicate ?n Clock" by blast
    have "blocking_read env (example_app env) k c =
        ext_call env (SSL_read h (u64_to_int k)) (c\<lparr>trace := trace c @ tr\<rparr>)"
      using slice assms(1) by (simp add: blocking_read_def run_simps bnd_def thn_def)
    with slice tr False assms(1) show ?thesis
      unfolding Let_def by (intro exI [of _ "c\<lparr>trace := trace c @ tr\<rparr>"] exI [of _ tr]) simp
  qed
qed

theorem read_races_with_timer_witness:
  "\<exists>c d tr. receiveTcpOrTlsMessage tls_race_world (example_app tls_race_world)
              (configured_client accepted_tls) = Inr (17, c) \<and>
     timer_slice tls_race_world (example_app tls_race_world) c = Inr ((), d) \<and>
     trace d = trace c @ tr \<and> SSL_free 7 \<in> set (calls_of tr) \<and>
     receiveTcpOrTlsMessage tls_race_world (example_app tls_race_world) c = Inl UseAfterFree"
proof -
  let ?a = "example_app tls_race_world"
  have "case receiveTcpOrTlsMessage tls_race_world ?a (configured_client accepted_tls) of
      Inl e \<Rightarrow> False
    | Inr (q, c) \<Rightarrow> q = 17 \<and> ssl c = Some 7 \<and> client_sock c = 4 \<and>
        armed (aliveCheckTimer c) 0 50000 AliveCheckTimeout \<and> timerThreads (aliveCheckTimer c) = 1 \<and>
        close_connection c = Some () \<and> app_state c = 1 \<and>
        expires_within tls_race_world 0 50000 (nat (ret (tls_race_world (trace c) TimerSlice)))
          (trace c @ [(TimerSlice, tls_race_world (trace c) TimerSlice)])"
    by code_simp
  then obtain q c where
    run: "receiveTcpOrTlsMessage tls_race_world ?a (configured_client accepted_tls) = Inr (q, c)"
    and c: "q = 17 \<and> ssl c = Some 7 \<and> client_sock c = 4 \<and>
        armed (aliveCheckTimer c) 0 50000 AliveCheckTimeout \<and> timerThreads (aliveCheckTimer c) = 1 \<and>
        close_connection c = Some () \<and> app_state c = 1 \<and>
        expires_within tls_race_world 0 50000 (nat (ret (tls_race_world (trace c) TimerSlice)))
          (trace c @ [(TimerSlice, tls_race_world (trace c) TimerSlice)])"
    by (rule evaluated)
  have "\<exists>d tr. timer_slice tls_race_world ?a c = Inr ((), d) \<and> trace d = trace c @ tr \<and>
      SSL_free 7 \<in> set (calls_of tr) \<and> receiveTcpOrTlsMessage tls_race_world ?a c = Inl UseAfterFree"
    using read_races_with_timer [of c 7 0 50000 tls_race_world 8] c
    by (auto simp: Let_def int_min_def int_max_def)
  with run c show ?thesis by blast
qed

text \<open>It happens to a client's thread: the object of the session above is released under it.\<close>

lemma client_thread_uses_released_object:
  "handleClient 3 tls_race_world accepted_tls = Inl UseAfterFree"
proof -
  have "case handleClient 3 tls_race_world accepted_tls of Inl e \<Rightarrow> e = UseAfterFree | Inr x \<Rightarrow> False"
    by code_simp
  then show ?thesis by (simp split: sum.splits)
qed

text \<open>The timer expires between the header and the payload of a request.\<close>

definition payload_race_world :: env where
  "payload_race_world = script
     [delivers (take 8 tester_stream), answers 0, delivers (take 7 (drop 8 tester_stream)),
      answers 17, answers 0, answers 0, delivers (take 8 (drop 15 tester_stream)), answers 0,
      answers 1, answers 60000000000, answers 0, delivers (drop 23 tester_stream)]"

text \<open>
  A race over TCP. In some world the timer expires between the header and the payload of a
  request; the socket is closed, the payload is still processed, and the acknowledgement is
  written to descriptor 0.
\<close>

lemma reply_to_closed_socket:
  "\<exists>env c'. handleClient 3 env accepted_tcp = Inr (True, c') \<and>
            CloseFd 4 \<in> set (calls_of (trace c')) \<and>
            Write 0 (map Some (ack_message True LOGICAL_ADDRESS 0x0E 0x00 0x00)) \<in> set (calls_of (trace c'))"
proof -
  have "case handleClient 3 payload_race_world accepted_tcp of Inl e \<Rightarrow> False
      | Inr (left, c') \<Rightarrow> left \<and> CloseFd 4 \<in> set (calls_of (trace c')) \<and>
          Write 0 (map Some (ack_message True LOGICAL_ADDRESS 0x0E 0x00 0x00)) \<in> set (calls_of (trace c'))"
    by code_simp
  then obtain l c' where "handleClient 3 payload_race_world accepted_tcp = Inr (l, c')"
    and "l \<and> CloseFd 4 \<in> set (calls_of (trace c')) \<and>
          Write 0 (map Some (ack_message True LOGICAL_ADDRESS 0x0E 0x00 0x00)) \<in> set (calls_of (trace c'))"
    by (rule evaluated)
  then show ?thesis by auto
qed

end
