(* ===== verification/Doip_Main.thy ===== *)
theory Doip_Main
  imports Doip_Service
begin

text \<open>
  \<open>main\<close> of \<open>examples/exampleDoIPServer.cpp\<close>: it configures the one global server, starts three
  threads that listen over UDP, TCP and TLS, announces the vehicle, and joins the threads. All
  four threads use the same server object without a lock.

  The model interleaves the threads at the calls of the server's methods: a schedule says which
  thread makes its next call. A listener's first call sets its socket up, each later one serves
  one datagram or accepts one client. An exception that leaves a thread's function ends the
  process. Finer interleavings, inside a method, are not modelled. \<open>Doip_Process\<close> adds the threads
  of the accepted clients.
\<close>

section \<open>The program\<close>

datatype main_thread =
    MainThread
  | UdpListener        \<comment> \<open>\<open>std::thread(&listenUdp)\<close>\<close>
  | Listener bool      \<comment> \<open>\<open>std::thread(&listenTcpOrTls, isTls)\<close>\<close>

record program =
  server :: DoIPServer
  serverActive :: bool
  connections_counter :: int
  ready :: "main_thread list"
  clients :: "example_conn list"

type_synonym 'r main_prog = "(program, 'r) prog"

definition static_program :: program where
  "static_program =
     \<lparr>server = static_server [], serverActive = False, connections_counter = 0, ready = [],
      clients = []\<rparr>"

definition on_server :: "'r server_prog \<Rightarrow> 'r main_prog" where
  "on_server m p = (case m (server p) of Inl e \<Rightarrow> Inl e | Inr (x, s) \<Rightarrow> Inr (x, p\<lparr>server := s\<rparr>))"

definition set_ready :: "main_thread \<Rightarrow> unit main_prog" where
  "set_ready t = modify (\<lambda>p. p\<lparr>ready := t # ready p\<rparr>)"

text \<open>The next call of \<open>listenUdp\<close>.\<close>

definition listenUdp_step :: "env \<Rightarrow> unit main_prog" where
  "listenUdp_step env =
     bnd (gets ready) (\<lambda>r.
     if UdpListener \<notin> set r
     then thn (on_server (setupUdpSocket env)) (set_ready UdpListener)
     else bnd (gets serverActive) (\<lambda>on.
          on_cond on (bnd (on_server (receiveUdpMessage env)) (\<lambda>_. return ()))))"

text \<open>The next call of \<open>listenTcpOrTls\<close>; \<open>++connections_counter\<close> and the new client's thread.\<close>

definition add_client :: "example_conn \<Rightarrow> unit main_prog" where
  "add_client conn =
     bnd (gets connections_counter) (\<lambda>n.
     bnd (lift (add_int n 1)) (\<lambda>n.
     modify (\<lambda>p. p\<lparr>connections_counter := n, clients := clients p @ [conn\<lparr>app_state := n\<rparr>]\<rparr>)))"

definition listenTcpOrTls_step :: "env \<Rightarrow> bool \<Rightarrow> unit main_prog" where
  "listenTcpOrTls_step env isTls =
     bnd (gets ready) (\<lambda>r.
     if Listener isTls \<notin> set r
     then thn (on_server (setupTcpOrTlsSocket env isTls)) (set_ready (Listener isTls))
     else bnd (gets connections_counter) (\<lambda>n.
          bnd (on_server (if isTls then waitForTlsConnection env n else waitForTcpConnection env n))
            add_client))"

text \<open>\<open>main\<close> itself announces once and then waits for the others.\<close>

definition announce_step :: "env \<Rightarrow> unit main_prog" where
  "announce_step env =
     bnd (gets ready) (\<lambda>r.
     on_cond (MainThread \<notin> set r)
       (thn (bnd (on_server (sendVehicleAnnouncement env)) (\<lambda>_. return ()))
            (set_ready MainThread)))"

text \<open>An exception that nobody catches.\<close>

definition uncaught :: "('s, 'r) prog \<Rightarrow> ('s, 'r) prog" where
  "uncaught m p = (case m p of Inl (RuntimeError msg) \<Rightarrow> Inl Terminate | r \<Rightarrow> r)"

definition main_step :: "env \<Rightarrow> main_thread \<Rightarrow> unit main_prog" where
  "main_step env t =
     uncaught (case t of
         MainThread \<Rightarrow> announce_step env
       | UdpListener \<Rightarrow> listenUdp_step env
       | Listener isTls \<Rightarrow> listenTcpOrTls_step env isTls)"

primrec run_schedule :: "env \<Rightarrow> main_thread list \<Rightarrow> unit main_prog" where
  "run_schedule env [] = return ()"
| "run_schedule env (t # ts) = thn (main_step env t) (run_schedule env ts)"

definition main_program :: "env \<Rightarrow> main_thread list \<Rightarrow> unit main_prog" where
  "main_program env schedule =
     thn (on_server ConfigureDoipServer)
    (thn (modify (\<lambda>p. p\<lparr>serverActive := True\<rparr>))
         (run_schedule env schedule))"

section \<open>What every schedule keeps\<close>

lemma on_server_eq_Inr:
  "on_server m p = Inr (x, p') \<longleftrightarrow> (\<exists>s. m (server p) = Inr (x, s) \<and> p' = p\<lparr>server := s\<rparr>)"
  by (auto simp: on_server_def split: sum.splits)

lemma uncaught_eq_Inr: "uncaught m p = Inr r \<longleftrightarrow> m p = Inr r"
  by (auto simp: uncaught_def split: sum.splits cpp_error.splits)

lemma preserves_on_server:
  assumes "preserves J m" and "\<And>p s. I p \<Longrightarrow> J s \<Longrightarrow> I (p\<lparr>server := s\<rparr>)" and "\<And>p. I p \<Longrightarrow> J (server p)"
  shows "preserves I (on_server m)"
  by (rule preservesI) (auto simp: on_server_eq_Inr intro: assms(2,3) preservesD [OF assms(1)])

lemma preserves_uncaught: "preserves I m \<Longrightarrow> preserves I (uncaught m)"
  by (rule preservesI) (auto simp: uncaught_eq_Inr dest: preservesD)

text \<open>What \<open>ConfigureDoipServer\<close> has set, and sockets that are not unwritten.\<close>

definition configured :: "DoIPServer \<Rightarrow> bool" where
  "configured s \<longleftrightarrow>
     length (udp_data s) = MaxDataSize \<and> VIN s = ''FOOBAR'' \<and> LogicalGatewayAddress s = LOGICAL_ADDRESS \<and>
     EID s = replicate 6 (Some 0) \<and> GID s = replicate 6 (Some 0) \<and> FurtherActionReq s = 0 \<and>
     A_DoIP_Announce_Num s = 3 \<and> server_socket_tls s \<noteq> None"

interpretation configuration: server_invariant configured
  by unfold_locales (simp_all add: configured_def del: replicate_Cons_numeral)

text \<open>A client as it is accepted, the \<open>k\<close>-th of the process.\<close>

definition fresh_client :: "example_conn \<Rightarrow> bool" where
  "fresh_client c \<longleftrightarrow>
     c = newDoIPConnection (trace c) (app_state c) (client_sock c) LOGICAL_ADDRESS (ssl c)"

definition program_ok :: "program \<Rightarrow> bool" where
  "program_ok p \<longleftrightarrow>
     configured (server p) \<and> list_all fresh_client (clients p) \<and>
     connections_counter p = int (length (clients p)) \<and>
     map app_state (clients p) = map int [1..<Suc (length (clients p))]"

text \<open>A step of one of these threads accepts one client or leaves the clients alone.\<close>

definition accepts_at_most_one :: "program \<Rightarrow> program \<Rightarrow> bool" where
  "accepts_at_most_one p p' \<longleftrightarrow>
     configured (server p') \<and>
     (clients p' = clients p \<and> connections_counter p' = connections_counter p \<or>
      (\<exists>c. fresh_client c \<and> app_state c = connections_counter p + 1 \<and>
           clients p' = clients p @ [c] \<and> connections_counter p' = connections_counter p + 1))"

lemma add_client_accepts:
  assumes "configured (server p)" and "fresh_client c" and "add_client c p = Inr (x, p')"
  shows "accepts_at_most_one p p'"
proof -
  let ?n = "connections_counter p + 1"
  have p': "p' = p\<lparr>connections_counter := ?n, clients := clients p @ [c\<lparr>app_state := ?n\<rparr>]\<rparr>"
    using assms(3) by (auto simp: add_client_def prog_eq_Inr add_int_def split: if_splits)
  have "fresh_client (c\<lparr>app_state := ?n\<rparr>)"
    using assms(2) unfolding fresh_client_def newDoIPConnection_def
    by (metis (no_types, lifting) DoIPConnection.select_convs DoIPConnection.update_convs(8)
        timed.select_convs(1) world.select_convs(1))
  with assms(1) show ?thesis by (simp add: accepts_at_most_one_def p')
qed

lemma accepted_fresh:
  assumes "(if isTls then waitForTlsConnection env n else waitForTcpConnection env n) s = Inr (c, s')"
    and "configured s"
  shows "fresh_client c" and "ssl c \<noteq> None \<Longrightarrow> isTls"
proof -
  have accept: "preserves configured (if isTls then waitForTlsConnection env n else waitForTcpConnection env n)"
    by (simp add: configuration.inv_accept)
  from preservesD [OF accept assms] have "LogicalGatewayAddress s' = LOGICAL_ADDRESS"
    by (simp add: configured_def)
  with assms(1) have "\<exists>tr a fd h. c = newDoIPConnection tr a fd LOGICAL_ADDRESS h \<and> (h \<noteq> None \<longrightarrow> isTls)"
    by (auto simp: waitForTlsConnection_def waitForTcpConnection_def prog_eq_Inr fail_def split: if_splits)
  then show "fresh_client c" "ssl c \<noteq> None \<Longrightarrow> isTls"
    by (auto simp: fresh_client_def newDoIPConnection_def)
qed

text \<open>The steps that accept nobody.\<close>

abbreviation same_clients :: "program \<Rightarrow> program \<Rightarrow> bool" where
  "same_clients p p' \<equiv>
     configured (server p') \<and> clients p' = clients p \<and> connections_counter p' = connections_counter p"

lemma set_ready_same: "preserves (same_clients p) (set_ready t)"
  unfolding set_ready_def by (rule preserves_modify) simp

lemma on_server_same: "preserves configured m \<Longrightarrow> preserves (same_clients p) (on_server m)"
  by (rule preserves_on_server [where J = configured]) simp_all

lemma main_step_accepts:
  assumes "main_step env t p = Inr (x, p')" and "configured (server p)"
  shows "accepts_at_most_one p p'"
proof -
  have same: "accepts_at_most_one p p'"
    if "preserves (same_clients p) m" "m p = Inr (y, p')" for m :: "unit main_prog" and y
    using preservesD [OF that] assms(2) by (simp add: accepts_at_most_one_def)
  show ?thesis
  proof (cases t)
    case MainThread
    have "preserves (same_clients p) (announce_step env)"
      unfolding announce_step_def by (intro pres on_server_same configuration.inv_announce set_ready_same)
    with assms(1) MainThread same show ?thesis by (simp add: main_step_def uncaught_eq_Inr)
  next
    case UdpListener
    have "preserves (same_clients p) (listenUdp_step env)"
      unfolding listenUdp_step_def
      by (intro pres on_server_same configuration.inv_setup_udp configuration.inv_receive_udp set_ready_same)
    with assms(1) UdpListener same show ?thesis by (simp add: main_step_def uncaught_eq_Inr)
  next
    case (Listener isTls)
    with assms(1) have run: "listenTcpOrTls_step env isTls p = Inr (x, p')"
      by (simp add: main_step_def uncaught_eq_Inr)
    show ?thesis
    proof (cases "Listener isTls \<in> set (ready p)")
      case False
      have "preserves (same_clients p)
          (thn (on_server (setupTcpOrTlsSocket env isTls)) (set_ready (Listener isTls)))"
        by (intro pres on_server_same configuration.inv_setup set_ready_same)
      with False run same show ?thesis by (simp add: listenTcpOrTls_step_def run_simps)
    next
      case True
      let ?accept = "if isTls then waitForTlsConnection env (connections_counter p)
                     else waitForTcpConnection env (connections_counter p)"
      from True run obtain c s where accept: "?accept (server p) = Inr (c, s)"
        and add: "add_client c (p\<lparr>server := s\<rparr>) = Inr (x, p')"
        by (auto simp: listenTcpOrTls_step_def prog_eq_Inr on_server_eq_Inr simp del: if_split)
      have "preserves configured ?accept" by (simp add: configuration.inv_accept)
      from preservesD [OF this accept assms(2)] accepted_fresh(1) [OF accept assms(2)] add
      have "accepts_at_most_one (p\<lparr>server := s\<rparr>) p'" by (intro add_client_accepts) simp_all
      then show ?thesis by (simp add: accepts_at_most_one_def)
    qed
  qed
qed

lemma main_step_ok: "preserves program_ok (main_step env t)"
  by (rule preservesI) (auto simp: program_ok_def accepts_at_most_one_def dest!: main_step_accepts)

lemma run_schedule_ok: "preserves program_ok (run_schedule env ts)"
  by (induction ts) (auto intro!: pres main_step_ok)

text \<open>The message of the configured server.\<close>

lemma configured_message:
  assumes conf: "configured s"
  shows "vehicle_message s = Inr (map Some
           (header_bytes (0x00, 0x04) 32 @ map of_char ''FOOBAR00000000000'' @ [0x00, 0x28] @
            replicate 13 0))"
proof -
  have "vin_field ''FOOBAR'' = map of_char ''FOOBAR00000000000''" by code_simp
  moreover have "byte_at 8 LOGICAL_ADDRESS = 0x00" "byte_at 0 LOGICAL_ADDRESS = 0x28" by code_simp+
  moreover have "replicate 13 (Some (0 :: byte)) = replicate 6 (Some 0) @ replicate 6 (Some 0) @ [Some 0]"
    by (simp add: replicate_add [symmetric] replicate_app_Cons_same numeral_eq_Suc)
  moreover have "server_ok s" using conf by (simp add: configured_def server_ok_def)
  ultimately show ?thesis
    using conf by (simp add: vehicle_message_eq vehicle_bytes_def configured_def del: replicate_Cons_numeral)
qed

text \<open>The configuration of the static server.\<close>

lemma configure_run:
  "\<exists>s. ConfigureDoipServer (static_server []) = Inr ((), s) \<and> configured s \<and> trace s = [] \<and>
       server_socket_udp s = Some 0 \<and> broadcast s = 1"
proof -
  have "map Some (id_bytes 0) = replicate 6 (Some (0 :: byte))" by code_simp
  moreover have "byte_at 0 (0 :: u32) = 0" by code_simp
  ultimately show ?thesis
    by (simp add: ConfigureDoipServer_def setVIN_def setLogicalGatewayAddress_def setGID_def setFAR_def
        setEID_def run_simps write_id_eq configured_def static_server_def newDoIPServer_def
        del: replicate_Cons_numeral)
qed

definition started_program :: program where
  "started_program =
     (case on_server ConfigureDoipServer static_program of
        Inl e \<Rightarrow> static_program
      | Inr (x, p) \<Rightarrow> p\<lparr>serverActive := True\<rparr>)"

lemma started_program:
  "main_program env ts static_program = run_schedule env ts started_program"
  "program_ok started_program" "ready started_program = []" "clients started_program = []"
  "trace (server started_program) = []" "server_socket_udp (server started_program) = Some 0"
  "broadcast (server started_program) = 1"
  "connections_counter started_program = 0" "serverActive started_program"
  "ConfigureDoipServer (static_server []) = Inr ((), server started_program)"
proof -
  obtain s where s: "ConfigureDoipServer (static_server []) = Inr ((), s)" "configured s" "trace s = []"
    "server_socket_udp s = Some 0" "broadcast s = 1"
    using configure_run by blast
  have "server static_program = static_server []" by (simp add: static_program_def)
  with s have conf: "on_server ConfigureDoipServer static_program =
      Inr ((), static_program\<lparr>server := s\<rparr>)" by (simp add: on_server_def)
  then show "main_program env ts static_program = run_schedule env ts started_program"
    by (simp add: main_program_def started_program_def thn_def bnd_def modify_def)
  from conf s show "program_ok started_program" "ready started_program = []" "clients started_program = []"
    "trace (server started_program) = []" "server_socket_udp (server started_program) = Some 0"
    "broadcast (server started_program) = 1"
    "connections_counter started_program = 0" "serverActive started_program"
    "ConfigureDoipServer (static_server []) = Inr ((), server started_program)"
    by (simp_all add: started_program_def program_ok_def static_program_def)
qed

section \<open>A thread on its own\<close>

lemma run_schedule_append:
  "run_schedule env (ts @ us) p =
   (case run_schedule env ts p of Inl e \<Rightarrow> Inl e | Inr (x, q) \<Rightarrow> run_schedule env us q)"
  by (induction ts arbitrary: p) (auto simp: thn_def bnd_def return_def split: sum.splits)

text \<open>When only one listener is scheduled, the program does what that listener's function does.\<close>

lemma accepts_schedule:
  assumes "accept_loop n env tls (connections_counter p) (server p) = Inr (cs, s)"
    and "Listener tls \<in> set (ready p)"
  shows "\<exists>k. run_schedule env (replicate n (Listener tls)) p =
             Inr ((), p\<lparr>server := s, clients := clients p @ cs, connections_counter := k\<rparr>)"
  using assms
proof (induction n arbitrary: p cs)
  case 0
  have "p = p\<lparr>server := server p, clients := clients p, connections_counter := connections_counter p\<rparr>"
    by simp
  with 0 show ?case by (auto simp: run_simps intro: exI [of _ "connections_counter p"])
next
  case (Suc n)
  let ?accept = "if tls then waitForTlsConnection env (connections_counter p)
                 else waitForTcpConnection env (connections_counter p)"
  from Suc.prems(1) obtain c s1 k cs' where
    accept: "?accept (server p) = Inr (c, s1)" and k: "add_int (connections_counter p) 1 = Inr k"
    and rest: "accept_loop n env tls k s1 = Inr (cs', s)" and cs: "cs = c\<lparr>app_state := k\<rparr> # cs'"
    by (auto simp: prog_eq_Inr simp del: if_split)
  let ?p = "p\<lparr>server := s1, connections_counter := k, clients := clients p @ [c\<lparr>app_state := k\<rparr>]\<rparr>"
  have "main_step env (Listener tls) p = Inr ((), ?p)"
    using Suc.prems(2) accept k
    by (simp add: main_step_def uncaught_eq_Inr listenTcpOrTls_step_def bnd_eq_Inr run_simps
        on_server_eq_Inr add_client_def del: if_split)
  moreover obtain k' where "run_schedule env (replicate n (Listener tls)) ?p =
      Inr ((), ?p\<lparr>server := s, clients := clients ?p @ cs', connections_counter := k'\<rparr>)"
    using Suc.IH [of ?p cs'] rest Suc.prems(2) by auto
  ultimately show ?case
    by (auto simp: cs thn_def bnd_def intro!: exI [of _ k'])
qed

lemma listener_schedule:
  assumes "listenTcpOrTls n env tls (connections_counter p) (server p) = Inr (cs, s)"
    and "Listener tls \<notin> set (ready p)"
  shows "\<exists>q. run_schedule env (replicate (Suc n) (Listener tls)) p = Inr ((), q) \<and>
             server q = s \<and> clients q = clients p @ cs"
proof -
  from assms(1) obtain s1 where opened: "setupTcpOrTlsSocket env tls (server p) = Inr ((), s1)"
    and accepts: "accept_loop n env tls (connections_counter p) s1 = Inr (cs, s)"
    by (auto simp: listenTcpOrTls_def thn_eq_Inr)
  let ?p = "p\<lparr>server := s1, ready := Listener tls # ready p\<rparr>"
  have "main_step env (Listener tls) p = Inr ((), ?p)"
    using assms(2) opened
    by (simp add: main_step_def uncaught_eq_Inr listenTcpOrTls_step_def run_simps thn_eq_Inr
        on_server_eq_Inr set_ready_def)
  with accepts_schedule [of n env tls ?p cs s] accepts show ?thesis
    by (auto simp: thn_def bnd_def)
qed

lemma receives_schedule:
  assumes "repeat_prog n (bnd (receiveUdpMessage env) (\<lambda>_. return ())) (server p) = Inr ((), s)"
    and "UdpListener \<in> set (ready p)" and "serverActive p"
  shows "run_schedule env (replicate n UdpListener) p = Inr ((), p\<lparr>server := s\<rparr>)"
  using assms
proof (induction n arbitrary: p)
  case 0
  then show ?case by (auto simp: run_simps)
next
  case (Suc n)
  then obtain x s1 where receive: "receiveUdpMessage env (server p) = Inr (x, s1)"
    and rest: "repeat_prog n (bnd (receiveUdpMessage env) (\<lambda>_. return ())) s1 = Inr ((), s)"
    by (auto simp: prog_eq_Inr)
  have "main_step env UdpListener p = Inr ((), p\<lparr>server := s1\<rparr>)"
    using Suc.prems(2,3) receive
    by (simp add: main_step_def uncaught_eq_Inr listenUdp_step_def run_simps bnd_eq_Inr on_server_eq_Inr)
  with Suc.IH [of "p\<lparr>server := s1\<rparr>"] rest Suc.prems(2,3) show ?case
    by (simp add: thn_def bnd_def)
qed

lemma udp_schedule:
  assumes "listenUdp n env True (server p) = Inr ((), s)"
    and "UdpListener \<notin> set (ready p)" and "serverActive p"
  shows "\<exists>q. run_schedule env (replicate (Suc n) UdpListener) p = Inr ((), q) \<and>
             server q = s \<and> clients q = clients p"
proof -
  from assms(1) obtain s1 where opened: "setupUdpSocket env (server p) = Inr ((), s1)"
    and rest: "repeat_prog n (bnd (receiveUdpMessage env) (\<lambda>_. return ())) s1 = Inr ((), s)"
    by (auto simp: listenUdp_def thn_eq_Inr run_simps)
  let ?p = "p\<lparr>server := s1, ready := UdpListener # ready p\<rparr>"
  have "main_step env UdpListener p = Inr ((), ?p)"
    using assms(2) opened
    by (simp add: main_step_def uncaught_eq_Inr listenUdp_step_def run_simps thn_eq_Inr
        on_server_eq_Inr set_ready_def)
  with receives_schedule [of n env ?p s] rest assms(3) show ?thesis
    by (auto simp: thn_def bnd_def)
qed

text \<open>Before the UDP thread's first call: descriptor 0, and no datagram socket anywhere in the history.\<close>

definition no_udp_yet :: "DoIPServer \<Rightarrow> bool" where
  "no_udp_yet s \<longleftrightarrow>
     configured s \<and> server_socket_udp s = Some 0 \<and> broadcast s = 1 \<and>
     Socket False \<notin> set (calls_of (trace s))"

lemma no_udp_yet_calls:
  "k \<noteq> Socket False \<Longrightarrow> preserves no_udp_yet (ext_call env k)"
  "k \<noteq> Socket False \<Longrightarrow> preserves no_udp_yet (ext_ret env k)"
  "k \<noteq> Socket False \<Longrightarrow> preserves no_udp_yet (ext_do env k)"
  by (auto intro!: preservesI simp: run_simps no_udp_yet_def configured_def)

lemma no_udp_yet_listener:
  "preserves no_udp_yet (setupTcpOrTlsSocket env tls)"
  "preserves no_udp_yet (waitForTcpConnection env a)" "preserves no_udp_yet (waitForTlsConnection env a)"
  unfolding setupTcpOrTlsSocket_def setup_context_def open_listener_def create_context_def
    configure_context_client_auth_def set_server_address_def waitForTcpConnection_def
    waitForTlsConnection_def
  by (auto intro!: pres preserves_modify no_udp_yet_calls simp: no_udp_yet_def configured_def
      simp del: replicate_Cons_numeral)

lemma no_udp_yet_announcement: "preserves no_udp_yet (sendVehicleAnnouncement env)"
proof -
  have loop: "preserves no_udp_yet (announce_loop n env m x)" for n m x
    by (induction n arbitrary: x) (auto intro!: pres no_udp_yet_calls)
  have aton: "preserves no_udp_yet (inet_aton env t)" for t
    unfolding inet_aton_def
    by (intro pres no_udp_yet_calls; auto intro!: pres no_udp_yet_calls split: list.split)
  show ?thesis
    unfolding sendVehicleAnnouncement_def
    by (auto intro!: pres preserves_modify loop no_udp_yet_calls aton simp: no_udp_yet_def configured_def
        simp del: replicate_Cons_numeral)
qed

text \<open>The TCP and the TLS listener do not change that.\<close>

definition before_announcement :: "program \<Rightarrow> bool" where
  "before_announcement p \<longleftrightarrow> no_udp_yet (server p) \<and> MainThread \<notin> set (ready p)"

lemma before_announcement_step:
  "preserves before_announcement (main_step env (Listener tls))"
proof -
  have on: "preserves before_announcement (on_server m)" if "preserves no_udp_yet m"
    for m :: "'r server_prog"
    using that by (rule preserves_on_server) (simp_all add: before_announcement_def)
  have "preserves before_announcement (listenTcpOrTls_step env tls)"
    unfolding listenTcpOrTls_step_def add_client_def set_ready_def
    by (auto intro!: pres on no_udp_yet_listener preserves_modify simp: before_announcement_def)
  then show ?thesis unfolding main_step_def by (simp add: preserves_uncaught)
qed

lemma before_announcement_schedule:
  assumes "set ts \<subseteq> range Listener"
  shows "preserves before_announcement (run_schedule env ts)"
  using assms by (induction ts) (auto intro!: pres before_announcement_step)

section \<open>A world for the program\<close>

text \<open>Every TCP client gets in, every TLS handshake fails, every datagram asks for the vehicle.\<close>

definition main_world :: env where
  "main_world tr k =
     (case k of
        InetAton a \<Rightarrow> \<lparr>ret = 1, bytes = [255, 255, 255, 255], sender = uninit_sockaddr\<rparr>
      | SetBroadcast fd b \<Rightarrow> answers 0
      | SSL_accept h \<Rightarrow> answers 0
      | Recvfrom fd n \<Rightarrow> delivers (header_bytes (0x00, 0x01) 0)
      | _ \<Rightarrow> answers 4)"

lemma main_world_listens:
  "\<exists>cs s. listenTcpOrTls 1 main_world False 0 (server started_program) = Inr (cs, s) \<and> length cs = 1"
  by (simp add: listenTcpOrTls_def setupTcpOrTlsSocket_def open_listener_def set_server_address_def
      waitForTcpConnection_def run_simps main_world_def answers_def thn_def bnd_def add_int_def
      int_min_def int_max_def)

lemma main_world_receives:
  "\<exists>s. listenUdp 1 main_world True (server started_program) = Inr ((), s)"
proof -
  let ?s = "server started_program"
  obtain s1 where opened: "setupUdpSocket main_world ?s = Inr ((), s1)" and fd: "server_socket_udp s1 = Some 4"
    by (simp add: setupUdpSocket_def setMulticastGroup_def set_server_address_def run_simps
        main_world_def answers_def thn_def bnd_def)
  have "configured ?s" using started_program(2) by (simp add: program_ok_def)
  then have "configured s1" using preservesD [OF configuration.inv_setup_udp opened] by blast
  then have ok: "server_ok s1" by (simp add: configured_def server_ok_def)
  let ?a = "delivers (header_bytes (0x00, 0x01) 0)"
  have "?a = main_world (trace s1) (Recvfrom 4 (of_nat MaxDataSize))" by (simp add: main_world_def)
  from receive_udp [where env = main_world, OF ok fd this] obtain q s where "receiveUdpMessage main_world s1 = Inr (q, s)"
    by (auto simp: delivers_def MaxDataSize_def)
  with opened show ?thesis by (simp add: listenUdp_def run_simps thn_def bnd_def)
qed

section \<open>Properties\<close>

text \<open>
  Schedules and functions. When only one listener is scheduled, the step-wise program does
  exactly what the listener's function does: \<open>listenTcpOrTls\<close> with its accepted
  connections in order, and \<open>listenUdp\<close> with its datagrams, from the configured
  server.
\<close>

lemma listeners_alone:
  assumes "ConfigureDoipServer (static_server []) = Inr ((), s0)"
    and "listenTcpOrTls n env tls 0 s0 = Inr (cs, s)" and "listenUdp m env True s0 = Inr ((), s')"
  shows "(\<exists>p. main_program env (replicate (Suc n) (Listener tls)) static_program = Inr ((), p) \<and>
              server p = s \<and> clients p = cs) \<and>
         (\<exists>p. main_program env (replicate (Suc m) UdpListener) static_program = Inr ((), p) \<and>
              server p = s' \<and> clients p = [])"
proof -
  have s0: "s0 = server started_program" using assms(1) started_program(10) by simp
  show ?thesis
    using listener_schedule [of n env tls started_program cs s] udp_schedule [of m env started_program s']
      assms(2,3) started_program(3,4,8,9)
    by (simp add: started_program(1) s0 del: run_schedule.simps replicate_Suc)
qed

lemma listeners_alone_witness:
  "\<exists>p. main_program main_world [Listener False, Listener False] static_program = Inr ((), p) \<and>
       length (clients p) = 1"
proof -
  obtain cs s where listen: "listenTcpOrTls 1 main_world False 0 (server started_program) = Inr (cs, s)"
    and len: "length cs = 1" using main_world_listens by blast
  obtain s' where "listenUdp 1 main_world True (server started_program) = Inr ((), s')"
    using main_world_receives by blast
  from listeners_alone [OF started_program(10) listen this] len show ?thesis by auto
qed

text \<open>The same world, where broadcasting cannot be enabled on what is no socket.\<close>

definition no_broadcast_world :: env where
  "no_broadcast_world tr k = (case k of SetBroadcast fd b \<Rightarrow> answers (-1) | _ \<Rightarrow> main_world tr k)"

text \<open>
  C28. A race in \<open>main\<close>. Take any schedule of the TCP and the TLS listener, before
  the UDP thread has made its first call, and let the main thread make its announcement then
  (\<open>inet_aton\<close> keeping to its contract). It enables broadcasting on descriptor 0,
  the value a static object starts with, while no datagram socket was opened yet. If
  \<open>setsockopt\<close> fails there, as it does on a descriptor that is no socket, the
  announcement ends and not one datagram is sent; if descriptor 0 happens to accept it, the
  three datagrams go out on descriptor 0. Either way the main thread has nothing more to do:
  its next step changes nothing.
\<close>

theorem announcement_before_setup:
  assumes "main_program env before static_program = Inr ((), p0)"
    and "UdpListener \<notin> set before" and "MainThread \<notin> set before"
    and "a = env (trace (server p0)) (InetAton ''255.255.255.255'')"
    and "ret a \<noteq> 0 \<longrightarrow> length (bytes a) = 4"
    and b: "b = env (trace (server p0) @ [(InetAton ''255.255.255.255'', a)]) (SetBroadcast 0 1)"
  shows "\<exists>p tr m. main_program env (before @ [MainThread]) static_program = Inr ((), p) \<and>
           trace (server p) = trace (server p0) @
             [(InetAton ''255.255.255.255'', a), (SetBroadcast 0 1, b)] @ tr \<and>
           Socket False \<notin> set (calls_of (trace (server p))) \<and>
           vehicle_message (server p) = Inr m \<and>
           (if ret b = 0 then datagrams tr = replicate 3 (0, m, clientAddress (server p)) else tr = []) \<and>
           main_step env MainThread p = Inr ((), p)"
proof -
  have "set before \<subseteq> range Listener"
  proof
    fix t assume "t \<in> set before"
    with assms(2,3) show "t \<in> range Listener" by (cases t) auto
  qed
  note run0 = preservesD [OF before_announcement_schedule [OF this, of env]]
  have "before_announcement started_program"
    using started_program by (simp add: before_announcement_def no_udp_yet_def program_ok_def)
  with run0 assms(1) have "before_announcement p0" by (simp add: started_program(1))
  then have ok: "configured (server p0)" "server_ok (server p0)" "server_socket_udp (server p0) = Some 0"
    "broadcast (server p0) = 1" "no_udp_yet (server p0)" "MainThread \<notin> set (ready p0)"
    and num: "A_DoIP_Announce_Num (server p0) = 3"
    by (simp_all add: before_announcement_def no_udp_yet_def configured_def server_ok_def)
  have "0 < A_DoIP_Announce_Num (server p0)" using num by simp
  from announcement_outcome [where env = env, OF ok(2,3) this assms(4,5)] obtain tr r dest where
    run: "sendVehicleAnnouncement env (server p0) = Inr (r, (server p0)\<lparr>trace := trace (server p0) @
        [(InetAton ''255.255.255.255'', a), (SetBroadcast 0 1, b)] @ tr, clientAddress := dest\<rparr>)"
    (is "_ = Inr (r, ?s)")
    and d: "if ret b = 0 then datagrams tr = replicate 3 (0, vehicle_bytes (server p0), dest)
            else tr = []"
    using ok(4) num by (auto simp: b split: if_splits simp del: replicate_Cons_numeral)
  let ?p = "p0\<lparr>server := ?s, ready := MainThread # ready p0\<rparr>"
  have "main_step env MainThread p0 = Inr ((), ?p)"
    using run ok(6)
    by (simp add: main_step_def uncaught_eq_Inr announce_step_def run_simps thn_eq_Inr bnd_eq_Inr
        on_server_eq_Inr set_ready_def)
  with assms(1) have "main_program env (before @ [MainThread]) static_program = Inr ((), ?p)"
    by (simp add: started_program(1) run_schedule_append thn_def bnd_def return_def)
  moreover have "no_udp_yet ?s" using preservesD [OF no_udp_yet_announcement run ok(5)] .
  then have "Socket False \<notin> set (calls_of (trace ?s))" by (simp add: no_udp_yet_def)
  moreover have "vehicle_message ?s = Inr (vehicle_bytes (server p0))"
    using vehicle_message_eq [OF ok(2)] by (simp add: vehicle_message_def)
  moreover have "main_step env MainThread ?p = Inr ((), ?p)"
    by (simp add: main_step_def uncaught_eq_Inr announce_step_def run_simps)
  ultimately show ?thesis
    using d by (intro exI [of _ ?p] exI [of _ tr] exI [of _ "vehicle_bytes (server p0)"])
      (simp del: replicate_Cons_numeral)
qed

theorem announcement_before_setup_witness:
  "(\<exists>(p0 :: program) p tr m. main_program main_world [Listener False, Listener False, MainThread] static_program =
        Inr ((), p) \<and> trace (server p) = trace (server p0) @ tr \<and> length (clients p0) = 1 \<and>
      datagrams (drop 2 tr) = replicate 3 (0, m, clientAddress (server p))) \<and>
   (\<exists>p. main_program no_broadcast_world [MainThread] static_program = Inr ((), p) \<and>
      datagrams (trace (server p)) = [])"
proof
  have aton: "main_world tr (InetAton t) = \<lparr>ret = 1, bytes = [255, 255, 255, 255], sender = uninit_sockaddr\<rparr>"
    "ret (main_world tr (SetBroadcast fd x)) = 0"
    "no_broadcast_world tr (InetAton t) = \<lparr>ret = 1, bytes = [255, 255, 255, 255], sender = uninit_sockaddr\<rparr>"
    "ret (no_broadcast_world tr (SetBroadcast fd x)) = -1" for tr t fd x
    by (simp_all add: main_world_def no_broadcast_world_def answers_def)
  obtain p0 where p0: "main_program main_world [Listener False, Listener False] static_program =
      Inr ((), p0)" "length (clients p0) = 1"
    using listeners_alone_witness by blast
  let ?bc = "''255.255.255.255''" and ?w = main_world and ?v = no_broadcast_world
  let ?a = "?w (trace (server p0)) (InetAton ?bc)"
  obtain p tr m where "main_program ?w ([Listener False, Listener False] @ [MainThread]) static_program =
      Inr ((), p)"
    and tr: "trace (server p) = trace (server p0) @ [(InetAton ?bc, ?a), (SetBroadcast 0 1,
      ?w (trace (server p0) @ [(InetAton ?bc, ?a)]) (SetBroadcast 0 1))] @ tr"
    and d: "if ret (?w (trace (server p0) @ [(InetAton ?bc, ?a)]) (SetBroadcast 0 1)) = 0
      then datagrams tr = replicate 3 (0, m, clientAddress (server p)) else tr = []"
    using announcement_before_setup [OF p0(1) _ _ refl _ refl] aton(1) by fastforce
  moreover have "datagrams tr = replicate 3 (0, m, clientAddress (server p))"
    using d unfolding aton(2) by (rule if_P [THEN iffD1, rotated]) simp
  ultimately show "\<exists>(p0 :: program) p tr m. main_program ?w [Listener False, Listener False, MainThread] static_program =
        Inr ((), p) \<and> trace (server p) = trace (server p0) @ tr \<and> length (clients p0) = 1 \<and>
      datagrams (drop 2 tr) = replicate 3 (0, m, clientAddress (server p))"
    using p0(2)
    apply -
    apply (rule exI [of _ p0])
    apply (rule exI [of _ p])
    apply (rule exI [of _ "[(InetAton ?bc, ?a), (SetBroadcast 0 1,
        ?w (trace (server p0) @ [(InetAton ?bc, ?a)]) (SetBroadcast 0 1))] @ tr"])
    apply (rule exI [of _ m])
    apply (simp del: replicate_Cons_numeral run_schedule.simps)
    done
  have start: "main_program ?v [] static_program = Inr ((), started_program)"
    by (simp add: started_program(1) return_def)
  let ?t = "trace (server started_program)"
  obtain q tr' m' where q: "main_program ?v ([] @ [MainThread]) static_program = Inr ((), q)"
    and tr': "trace (server q) = ?t @ [(InetAton ?bc, ?v ?t (InetAton ?bc)),
      (SetBroadcast 0 1, ?v (?t @ [(InetAton ?bc, ?v ?t (InetAton ?bc))]) (SetBroadcast 0 1))] @ tr'"
    and e: "if ret (?v (?t @ [(InetAton ?bc, ?v ?t (InetAton ?bc))]) (SetBroadcast 0 1)) = 0
      then datagrams tr' = replicate 3 (0, m', clientAddress (server q)) else tr' = []"
    using announcement_before_setup [OF start _ _ refl _ refl] aton(3) by fastforce
  have "tr' = []" using e unfolding aton(4) by simp
  then have "datagrams (trace (server q)) = []" using tr' started_program(5) by simp
  moreover have "main_program ?v [MainThread] static_program = Inr ((), q)" using q by (simp only: append_Nil)
  ultimately show "\<exists>p. main_program ?v [MainThread] static_program = Inr ((), p) \<and>
      datagrams (trace (server p)) = []" by blast
qed

end
