(* ===== verification/Doip_Turns.thy ===== *)
theory Doip_Turns
  imports Doip_Example
begin

text \<open>
  What the library does for a client does not depend on the value of the application's counter,
  which all clients of \<open>exampleDoIPServer.cpp\<close> share: a run from one value of the counter is a run
  from any other, shifted by the difference, as long as the counter does not overflow. The counter
  only goes down in it.
\<close>

section \<open>Runs that do not see the counter\<close>

definition counter_blind :: "('h, int, 'r) conn_prog \<Rightarrow> bool" where
  "counter_blind m \<longleftrightarrow>
     (\<forall>c x c'. m c = Inr (x, c') \<longrightarrow> app_state c' \<le> app_state c \<and>
        (\<forall>a. int_min \<le> app_state c' + a \<longrightarrow> app_state c + a \<le> int_max \<longrightarrow>
           m (c\<lparr>app_state := app_state c + a\<rparr>) = Inr (x, c'\<lparr>app_state := app_state c' + a\<rparr>)))"

named_theorems blind

lemma blindI:
  assumes "\<And>c x c'. m c = Inr (x, c') \<Longrightarrow> app_state c' \<le> app_state c"
    and "\<And>c x c' a. m c = Inr (x, c') \<Longrightarrow> int_min \<le> app_state c' + a \<Longrightarrow> app_state c + a \<le> int_max \<Longrightarrow>
           m (c\<lparr>app_state := app_state c + a\<rparr>) = Inr (x, c'\<lparr>app_state := app_state c' + a\<rparr>)"
  shows "counter_blind m"
  using assms by (auto simp: counter_blind_def)

lemma blindD:
  assumes "counter_blind m" and "m c = Inr (x, c')"
  shows "app_state c' \<le> app_state c"
    and "int_min \<le> app_state c' + a \<Longrightarrow> app_state c + a \<le> int_max \<Longrightarrow>
         m (c\<lparr>app_state := app_state c + a\<rparr>) = Inr (x, c'\<lparr>app_state := app_state c' + a\<rparr>)"
  using assms by (auto simp: counter_blind_def)

lemma blind_prim [blind]:
  "counter_blind (return x)" "counter_blind (fail e)" "counter_blind (lift r)"
  by (simp_all add: counter_blind_def prog_eq_Inr)

lemma blind_gets: "(\<And>c a. f (c\<lparr>app_state := a\<rparr>) = f c) \<Longrightarrow> counter_blind (gets f)"
  by (simp add: counter_blind_def prog_eq_Inr)

lemma blind_modify:
  assumes "\<And>c a. f (c\<lparr>app_state := a\<rparr>) = (f c)\<lparr>app_state := a\<rparr>" and "\<And>c. app_state (f c) = app_state c"
  shows "counter_blind (modify f)"
  by (rule blindI) (simp_all add: prog_eq_Inr assms)

lemma blind_bnd [blind]:
  assumes m: "counter_blind m" and f: "\<And>x. counter_blind (f x)"
  shows "counter_blind (bnd m f)"
proof (rule blindI)
  fix c x c'
  assume "bnd m f c = Inr (x, c')"
  then obtain y d where run: "m c = Inr (y, d)" "f y d = Inr (x, c')" by (auto simp: bnd_eq_Inr)
  note le = blindD(1) [OF m run(1)] blindD(1) [OF f run(2)]
  from le show "app_state c' \<le> app_state c" by simp
  show "bnd m f (c\<lparr>app_state := app_state c + a\<rparr>) = Inr (x, c'\<lparr>app_state := app_state c' + a\<rparr>)"
    if "int_min \<le> app_state c' + a" "app_state c + a \<le> int_max" for a
    using blindD(2) [OF m run(1), of a] blindD(2) [OF f run(2), of a] le that by (simp add: bnd_def)
qed

lemma blind_thn [blind]: "counter_blind m \<Longrightarrow> counter_blind k \<Longrightarrow> counter_blind (thn m k)"
  unfolding thn_def by (rule blind_bnd)

lemma blind_if [blind]:
  "(b \<Longrightarrow> counter_blind m) \<Longrightarrow> (\<not> b \<Longrightarrow> counter_blind k) \<Longrightarrow> counter_blind (if b then m else k)"
  by simp

lemma blind_on_cond [blind]: "counter_blind m \<Longrightarrow> counter_blind (on_cond b m)"
  by (simp add: on_cond_def blind_prim)

lemma blind_option [blind]:
  "counter_blind m \<Longrightarrow> (\<And>x. counter_blind (f x)) \<Longrightarrow>
   counter_blind (case v of None \<Rightarrow> m | Some x \<Rightarrow> f x)"
  by (cases v) auto

lemma blind_prod [blind]:
  "(\<And>x y. counter_blind (f x y)) \<Longrightarrow> counter_blind (case p of (x, y) \<Rightarrow> f x y)"
  by (cases p) auto

lemma blind_call [blind]: "counter_blind (ext_call env k)"
  by (rule blindI) (simp_all add: run_simps)

lemma blind_ret [blind]: "counter_blind (ext_ret env k)"
  unfolding ext_ret_def by (intro blind)

lemma blind_do [blind]: "counter_blind (ext_do env k)"
  unfolding ext_do_def by (intro blind)

lemma blind_members [blind]:
  "counter_blind (gets ssl)" "counter_blind (gets client_sock)" "counter_blind (gets isSocketActive)"
  "counter_blind (gets aliveCheckTimer)" "counter_blind (gets routedClientAddress)"
  "counter_blind (gets logicalGatewayAddress)" "counter_blind (gets diag_callback)"
  "counter_blind (gets close_connection)" "counter_blind (gets notify_application)"
  "counter_blind (gets (\<lambda>c. disabled (aliveCheckTimer c)))"
  by (rule blind_gets, simp add: isSocketActive_def)+

lemma blind_update_timer [blind]: "counter_blind (update_timer f)"
  unfolding update_timer_def by (rule blind_modify) simp_all

section \<open>The library\<close>

lemma blind_parseSSLerror [blind]: "counter_blind (parseSSLerror env s r)"
  unfolding parseSSLerror_def by (intro blind)

lemma blind_closeSocket [blind]: "counter_blind (closeSocket env skip)"
  unfolding closeSocket_def shutdown_ssl_def by (intro blind blind_modify) simp_all

lemma blind_sendMessage [blind]: "counter_blind (sendMessage env m n)"
  unfolding sendMessage_def by (intro blind)

lemma blind_sends [blind]:
  "counter_blind (sendNegativeAck env code)" "counter_blind (sendDiagnosticAck env sa ack code)"
  "counter_blind (sendDiagnosticPayload env sa d n)"
  unfolding sendNegativeAck_def sendDiagnosticAck_def sendDiagnosticPayload_def by (intro blind)+

lemma blind_CloseConnection [blind]: "counter_blind CloseConnection"
  by (rule blindI) (auto simp: CloseConnection_def prog_eq_Inr run_simps add_int_def int_max_def int_min_def split: if_splits)

lemma blind_app [blind]:
  "counter_blind (ReceiveFromLibrary env ta d n)" "counter_blind (DiagnosticMessageReceived env ta)"
  unfolding ReceiveFromLibrary_def DiagnosticMessageReceived_def by (intro blind)+

lemma blind_member [blind]:
  assumes "counter_blind (gets f)" and "\<And>h. counter_blind (run h)"
  shows "counter_blind (call_member f run)"
  unfolding call_member_def by (intro blind assms)

lemma blind_timeout [blind]: "counter_blind (run_timer_cb env (example_app env) k)"
  by (cases k) (auto simp: aliveCheckTimeout_def intro!: blind)

lemma blind_startTimer [blind]: "counter_blind (startTimer env)" "counter_blind (resetTimer env)"
  unfolding startTimer_def resetTimer_def by (intro blind)+

lemma blind_iteration [blind]:
  "(\<And>k. counter_blind (invoke k)) \<Longrightarrow> counter_blind (timer_iteration env invoke)"
  unfolding timer_iteration_def Let_def by (intro blind)

lemma blind_waitForResponse [blind]:
  "(\<And>k. counter_blind (invoke k)) \<Longrightarrow> counter_blind (waitForResponse n env invoke)"
  by (induction n) (auto intro!: blind)

lemma blind_slice [blind]: "counter_blind (timer_slice env (example_app env))"
  unfolding timer_slice_def by (intro blind)

lemma blind_read [blind]: "counter_blind (blocking_read env (example_app env) n)"
  unfolding blocking_read_def by (intro blind)

lemma blind_receive_loop [blind]:
  "counter_blind (receive_loop env (example_app env) n pos b)"
proof (induction "unat n" arbitrary: n pos b rule: less_induct)
  case less
  show ?case
    unfolding receive_loop.simps [of env "example_app env" n] handle_SSL_read_error_def
    by (intro blind less) (auto simp: read_decreases word_less_nat_alt)
qed

lemma blind_activate [blind]: "counter_blind (activate_client env p)"
  unfolding activate_client_def start_once_def by (intro blind blind_modify) simp_all

lemma blind_pass [blind]: "counter_blind (pass_to_application (example_app env) p n)"
  unfolding pass_to_application_def parseDiagnosticMessage_def Let_def example_app_simps
  by (intro blind)

lemma blind_react [blind]:
  "counter_blind (reactOnReceivedTcpMessage env (example_app env) action n p)"
  unfolding reactOnReceivedTcpMessage_def example_app_simps
  by (rule blind_bnd, rule blind, split PayloadType.split) (intro conjI impI blind)

lemma blind_receive [blind]:
  "counter_blind (receiveTcpOrTlsMessage env (example_app env))"
  unfolding receiveTcpOrTlsMessage_def receive_payload_def receiveFixedNumberOfBytesFromTcpOrTls_def Let_def
  by (intro blind)


section \<open>A client's thread in turns\<close>

text \<open>
  \<open>handleClient\<close> cut at its calls of \<open>receiveTcpOrTlsMessage\<close>: a turn sets the connection up, or
  receives one message, or, when the socket is closed, leaves the thread, which destroys the
  connection.
\<close>

datatype phase = Starting | InLoop | Finished

definition client_turn :: "env \<Rightarrow> phase \<Rightarrow> (unit, int, phase) conn_prog" where
  "client_turn env ph =
     (case ph of
        Starting \<Rightarrow>
          thn (setCallback () () ()) (thn (setGeneralInactivityTime 50000) (return InLoop))
      | InLoop \<Rightarrow>
          bnd (gets isSocketActive) (\<lambda>on.
          if on then bnd (receiveTcpOrTlsMessage env (example_app env)) (\<lambda>_. return InLoop)
          else thn (triggerDisconnection (example_app env))
              (thn destroyAliveCheckTimer (return Finished)))
      | Finished \<Rightarrow> return Finished)"

primrec client_turns :: "nat \<Rightarrow> env \<Rightarrow> phase \<Rightarrow> (unit, int, phase) conn_prog" where
  "client_turns 0 env ph = return ph"
| "client_turns (Suc n) env ph = bnd (client_turn env ph) (client_turns n env)"

lemma bnd_return_right: "bnd m return = m"
  by (rule ext) (simp add: bnd_def return_def split: sum.splits)

lemma client_turns_later:
  "client_turns (Suc n) env ph = bnd (client_turns n env ph) (client_turn env)"
proof (induction n arbitrary: ph)
  case 0
  have "client_turns 0 env = return" by (rule ext) simp
  then show ?case by (simp add: bnd_return bnd_return_right)
next
  case (Suc n)
  have "client_turns (Suc n) env = (\<lambda>ph. bnd (client_turns n env ph) (client_turn env))"
    by (rule ext) (rule Suc.IH)
  then have "client_turns (Suc (Suc n)) env ph =
      bnd (client_turn env ph) (\<lambda>ph. bnd (client_turns n env ph) (client_turn env))" by simp
  then show ?case by (simp add: bnd_assoc)
qed

lemma blind_turn [blind]: "counter_blind (client_turn env ph)"
  unfolding client_turn_def setCallback_def setGeneralInactivityTime_def setTimer_def
    triggerDisconnection_def destroyAliveCheckTimer_def example_app_simps
  by (cases ph) (auto intro!: blind blind_modify)

text \<open>Turns on their own are the thread's function.\<close>

lemma finished_turns [simp]: "client_turns n env Finished = return Finished"
  by (induction n) (simp_all add: client_turn_def bnd_return)

definition leave_thread :: "env \<Rightarrow> (unit, int, phase) conn_prog" where
  "leave_thread env =
     thn (triggerDisconnection (example_app env)) (thn destroyAliveCheckTimer (return Finished))"

lemma turn_in_loop:
  "client_turn env InLoop c =
     (if isSocketActive c
      then bnd (receiveTcpOrTlsMessage env (example_app env)) (\<lambda>_. return InLoop) c
      else leave_thread env c)"
  by (simp add: client_turn_def leave_thread_def run_simps)

lemma leave_thread_finishes: "leave_thread env c = Inr (ph, c') \<Longrightarrow> ph = Finished"
  by (auto simp: leave_thread_def prog_eq_Inr)

lemma turns_receive:
  "isSocketActive c \<Longrightarrow> client_turns (Suc n) env InLoop c =
     bnd (receiveTcpOrTlsMessage env (example_app env)) (\<lambda>_. client_turns n env InLoop) c"
  by (simp add: turn_in_loop bnd_def return_def split: sum.splits)

lemma turns_leave:
  assumes "\<not> isSocketActive c"
  shows "client_turns (Suc n) env InLoop c = leave_thread env c"
proof (cases "leave_thread env c")
  case (Inr r)
  with assms show ?thesis
    by (cases r) (auto simp: turn_in_loop bnd_def return_def dest: leave_thread_finishes)
qed (use assms in \<open>simp add: turn_in_loop bnd_def\<close>)

lemma serve_receive:
  "isSocketActive c \<Longrightarrow> bnd (serve_loop (Suc n) env) f c =
     bnd (receiveTcpOrTlsMessage env (example_app env)) (\<lambda>_. bnd (serve_loop n env) f) c"
  by (simp add: bnd_def gets_def split: sum.splits)

lemma turns_loop:
  "client_turns (Suc n) env InLoop c =
     bnd (serve_loop n env) (\<lambda>left. if left then leave_thread env else client_turn env InLoop) c"
proof (induction n arbitrary: c)
  case 0
  have "client_turns 0 env = return" by (rule ext) simp
  then show ?case by (simp add: bnd_return_right run_simps turn_in_loop)
next
  case (Suc n)
  show ?case
  proof (cases "isSocketActive c")
    case True
    have "client_turns (Suc n) env InLoop =
        bnd (serve_loop n env) (\<lambda>left. if left then leave_thread env else client_turn env InLoop)"
      by (rule ext) (rule Suc.IH)
    then show ?thesis unfolding turns_receive [OF True] serve_receive [OF True] by simp
  qed (simp add: turns_leave run_simps del: client_turns.simps)
qed

lemma serve_loop_left: "serve_loop n env c = Inr (left, c') \<Longrightarrow> isSocketActive c' \<longleftrightarrow> \<not> left"
  by (induction n arbitrary: c) (auto simp: prog_eq_Inr split: if_splits)

lemma serve_loop_running: "serve_loop n env c = Inr (False, c') \<Longrightarrow> isSocketActive c'"
  by (simp add: serve_loop_left)

lemma turns_left:
  assumes "client_turns n env InLoop c = Inr (InLoop, c')"
  shows "serve_loop n env c = Inr (\<not> isSocketActive c', c')"
  using assms
proof (induction n arbitrary: c)
  case 0
  then show ?case by (auto simp: run_simps)
next
  case (Suc n)
  then show ?case
    by (auto simp: turn_in_loop prog_eq_Inr run_simps split: if_splits dest: leave_thread_finishes)
qed

lemma turns_start: "client_turns (Suc n) env Starting c = client_turns n env InLoop (configured_client c)"
  by (simp add: client_turn_def)
    (simp add: thn_def bnd_assoc bnd_return configured_client_run [unfolded thn_def])

lemma thread_start:
  "client_thread n env c =
     bnd (serve_loop n env)
       (\<lambda>left. if left then thn (leave_thread env) (return True) else return False) (configured_client c)"
proof -
  have "bnd (if left then thn (triggerDisconnection (example_app env)) (return True) else return False)
          (\<lambda>left. thn (on_cond left destroyAliveCheckTimer) (return left)) =
        (if left then thn (leave_thread env) (return True) else return False)" for left
    by (simp add: leave_thread_def thn_def on_cond_def bnd_assoc bnd_return)
  then show ?thesis
    by (simp add: client_thread_def handleClient_def thn_def bnd_assoc configured_client_run [unfolded thn_def])
qed

lemma turns_thread:
  "client_thread n env c = Inr (True, c') \<longleftrightarrow>
   client_turns (Suc (Suc n)) env Starting c = Inr (Finished, c')"
proof -
  let ?left = "\<lambda>c2. serve_loop n env (configured_client c) = Inr (True, c2) \<and>
      leave_thread env c2 = Inr (Finished, c')"
  have "client_turn env InLoop c2 \<noteq> Inr (Finished, c')" if "isSocketActive c2" for c2
    using that by (auto simp: turn_in_loop prog_eq_Inr)
  then have "client_turns (Suc (Suc n)) env Starting c = Inr (Finished, c') \<longleftrightarrow> (\<exists>c2. ?left c2)"
    unfolding turns_start turns_loop bnd_eq_Inr by (auto split: if_splits dest!: serve_loop_running)
  moreover have "client_thread n env c = Inr (True, c') \<longleftrightarrow> (\<exists>c2. ?left c2)"
    unfolding thread_start bnd_eq_Inr
    by (auto simp: prog_eq_Inr split: if_splits dest: leave_thread_finishes)
  ultimately show ?thesis by simp
qed

end
