(* ===== verification/Doip_Process.thy ===== *)
theory Doip_Process
  imports Doip_Main Doip_Turns
begin

text \<open>
  The whole process of \<open>exampleDoIPServer.cpp\<close>: the threads that \<open>main\<close> starts and the detached
  thread of every accepted client, interleaved by a schedule. A client's thread takes its turns of
  \<open>Doip_Turns\<close> on its own connection and on the one counter that all threads share; every client
  has a world of its own, which answers from the client's own history.
\<close>

section \<open>The process\<close>

datatype agent =
    Of_main main_thread
  | Of_client nat      \<comment> \<open>the detached \<open>std::thread(handleClient, ...)\<close> of the k-th client\<close>

type_synonym client_thread_state = "phase \<times> example_conn"

record process =
  shared :: program
  threads :: "client_thread_state list"

type_synonym 'r process_prog = "(process, 'r) prog"

definition static_process :: process where
  "static_process = \<lparr>shared = static_program, threads = []\<rparr>"

text \<open>A client that was accepted gets its thread.\<close>

definition start_threads :: "process \<Rightarrow> process" where
  "start_threads pr =
     pr\<lparr>threads := threads pr @ map (Pair Starting) (drop (length (threads pr)) (clients (shared pr)))\<rparr>"

definition on_shared :: "'r main_prog \<Rightarrow> 'r process_prog" where
  "on_shared m pr =
     (case m (shared pr) of
        Inl e \<Rightarrow> Inl e
      | Inr (x, p) \<Rightarrow> Inr (x, start_threads (pr\<lparr>shared := p\<rparr>)))"

text \<open>A turn of a client's thread, on the counter as it is now.\<close>

definition client_move :: "env \<Rightarrow> nat \<Rightarrow> unit process_prog" where
  "client_move env k pr =
     (if k < length (threads pr) then
        let (ph, c) = threads pr ! k in
        case client_turn env ph (c\<lparr>app_state := connections_counter (shared pr)\<rparr>) of
          Inl e \<Rightarrow> Inl e
        | Inr (ph', c') \<Rightarrow>
            Inr ((), pr\<lparr>shared := (shared pr)\<lparr>connections_counter := app_state c'\<rparr>,
                        threads := (threads pr)[k := (ph', c')]\<rparr>)
      else Inr ((), pr))"

definition process_step :: "env \<Rightarrow> (nat \<Rightarrow> env) \<Rightarrow> agent \<Rightarrow> unit process_prog" where
  "process_step env envs a =
     (case a of
        Of_main t \<Rightarrow> on_shared (main_step env t)
      | Of_client k \<Rightarrow> uncaught (client_move (envs k) k))"

primrec run_process :: "env \<Rightarrow> (nat \<Rightarrow> env) \<Rightarrow> agent list \<Rightarrow> unit process_prog" where
  "run_process env envs [] = return ()"
| "run_process env envs (a # as) = thn (process_step env envs a) (run_process env envs as)"

definition example_process :: "env \<Rightarrow> (nat \<Rightarrow> env) \<Rightarrow> agent list \<Rightarrow> unit process_prog" where
  "example_process env envs schedule =
     thn (on_shared (on_server ConfigureDoipServer))
    (thn (on_shared (modify (\<lambda>p. p\<lparr>serverActive := True\<rparr>)))
         (run_process env envs schedule))"

section \<open>What a turn does to the counter\<close>

text \<open>How often a thread has lowered the counter: when it was left, and when its timer expired.\<close>

definition departures :: "client_thread_state \<Rightarrow> int" where
  "departures t = of_bool (fst t = Finished) + of_bool (timeout (aliveCheckTimer (snd t)))"

lemma departures_bounds: "0 \<le> departures t" "departures t \<le> 2"
  by (simp_all add: departures_def)

lemma departures_app_state [simp]: "departures (ph, c\<lparr>app_state := a\<rparr>) = departures (ph, c)"
  by (simp add: departures_def)

lemma turn_departures:
  assumes "client_turn env ph c = Inr (ph', c')"
    and "timeout (aliveCheckTimer c) \<longrightarrow> disabled (aliveCheckTimer c)"
  shows "app_state c' + departures (ph', c') = app_state c + departures (ph, c)"
    and "timeout (aliveCheckTimer c') \<longrightarrow> disabled (aliveCheckTimer c')"
proof -
  have "app_state c' + departures (ph', c') = app_state c + departures (ph, c) \<and>
      (timeout (aliveCheckTimer c') \<longrightarrow> disabled (aliveCheckTimer c'))"
  proof (cases ph)
    case Starting
    with assms show ?thesis
      by (auto simp: client_turn_def configured_client_run run_simps configured_client_def departures_def)
  next
    case Finished
    with assms show ?thesis by (auto simp: client_turn_def run_simps)
  next
    case InLoop
    note turn = assms(1) [unfolded InLoop turn_in_loop]
    show ?thesis
    proof (cases "isSocketActive c")
      case True
      with turn obtain q where run: "receiveTcpOrTlsMessage env (example_app env) c = Inr (q, c')"
        and ph': "ph' = InLoop" by (auto simp: prog_eq_Inr)
      let ?k = "app_state c + of_bool (timeout (aliveCheckTimer c))"
      have "counted ?k c" using assms(2) by (simp add: counted_def)
      with run have "counted ?k c'" by (auto dest: preservesD [OF example_counted.inv_receive])
      with ph' InLoop show ?thesis by (auto simp: counted_def departures_def split: if_splits)
    next
      case False
      with turn InLoop assms(2) show ?thesis
        by (auto simp: leave_thread_def triggerDisconnection_def call_member_def prog_eq_Inr fail_def
            destroyAliveCheckTimer_def run_simps departures_def
            split: option.splits if_splits dest!: CloseConnection_split)
    qed
  qed
  then show "app_state c' + departures (ph', c') = app_state c + departures (ph, c)"
    and "timeout (aliveCheckTimer c') \<longrightarrow> disabled (aliveCheckTimer c')" by blast+
qed

section \<open>What every schedule keeps\<close>

lemma sum_list_replace:
  "k < length xs \<Longrightarrow> sum_list (xs[k := x]) = sum_list xs + x - (xs ! k :: int)"
  by (induction xs arbitrary: k) (auto split: nat.split)

text \<open>
  The thread \<open>t\<close> of the client that was accepted as \<open>c0\<close> is where it would be after \<open>n\<close> turns on
  its own, from a counter of 0.
\<close>

definition alone_for :: "nat \<Rightarrow> env \<Rightarrow> example_conn \<Rightarrow> client_thread_state \<Rightarrow> bool" where
  "alone_for n env c0 t \<longleftrightarrow>
     client_turns n env Starting (c0\<lparr>app_state := 0\<rparr>) = Inr (fst t, (snd t)\<lparr>app_state := - departures t\<rparr>) \<and>
     (timeout (aliveCheckTimer (snd t)) \<longrightarrow> disabled (aliveCheckTimer (snd t)))"

definition alone :: "env \<Rightarrow> example_conn \<Rightarrow> client_thread_state \<Rightarrow> bool" where
  "alone env c0 t \<longleftrightarrow> (\<exists>n. alone_for n env c0 t)"

lemma alone_start: "fresh_client c \<Longrightarrow> alone_for 0 env c (Starting, c)"
  unfolding alone_for_def
  by (auto simp: fresh_client_def newDoIPConnection_def newAliveCheckTimer_def departures_def return_def
       dest: arg_cong [where f = aliveCheckTimer])

lemma alone_turn:
  assumes "alone_for n env c0 (ph, c)" and "client_turn env ph (c\<lparr>app_state := k\<rparr>) = Inr (ph', c')"
  shows "alone_for (Suc n) env c0 (ph', c')"
    and "app_state c' = k - departures (ph', c') + departures (ph, c)"
proof -
  let ?d = "departures (ph, c)" and ?d' = "departures (ph', c')"
  from assms(1) have n: "client_turns n env Starting (c0\<lparr>app_state := 0\<rparr>) = Inr (ph, c\<lparr>app_state := - ?d\<rparr>)"
    and stopped: "timeout (aliveCheckTimer c) \<longrightarrow> disabled (aliveCheckTimer c)"
    by (auto simp: alone_for_def)
  from turn_departures [OF assms(2)] stopped
  show count: "app_state c' = k - ?d' + ?d" by simp
  have "int_min \<le> app_state c' + (- ?d - k)" "app_state (c\<lparr>app_state := k\<rparr>) + (- ?d - k) \<le> int_max"
    using departures_bounds [of "(ph, c)"] departures_bounds [of "(ph', c')"] count
    by (simp_all add: int_min_def int_max_def)
  from blindD(2) [OF blind_turn assms(2) this] count
  have "client_turn env ph (c\<lparr>app_state := - ?d\<rparr>) = Inr (ph', c'\<lparr>app_state := - ?d'\<rparr>)" by simp
  with n have "client_turns (Suc n) env Starting (c0\<lparr>app_state := 0\<rparr>) = Inr (ph', c'\<lparr>app_state := - ?d'\<rparr>)"
    by (simp only: client_turns_later) (simp add: bnd_def)
  then show "alone_for (Suc n) env c0 (ph', c')"
    using turn_departures(2) [OF assms(2)] stopped by (simp add: alone_for_def)
qed

definition process_ok :: "(nat \<Rightarrow> env) \<Rightarrow> process \<Rightarrow> bool" where
  "process_ok envs pr \<longleftrightarrow>
     configured (server (shared pr)) \<and> list_all fresh_client (clients (shared pr)) \<and>
     length (threads pr) = length (clients (shared pr)) \<and>
     (\<forall>k < length (threads pr). alone (envs k) (clients (shared pr) ! k) (threads pr ! k)) \<and>
     connections_counter (shared pr) = int (length (threads pr)) - sum_list (map departures (threads pr))"

lemma client_moves:
  assumes "client_move env k pr = Inr (x, pr')" and "k < length (threads pr)"
    and "alone_for n env c0 (threads pr ! k)"
  obtains t where "alone_for (Suc n) env c0 t"
    and "connections_counter (shared pr') =
         connections_counter (shared pr) - departures t + departures (threads pr ! k)"
    and "pr' = pr\<lparr>shared := (shared pr)\<lparr>connections_counter := connections_counter (shared pr')\<rparr>,
                  threads := (threads pr)[k := t]\<rparr>"
proof -
  obtain ph c where t: "threads pr ! k = (ph, c)" by (cases "threads pr ! k")
  with assms(1,2) obtain ph' c' where
    turn: "client_turn env ph (c\<lparr>app_state := connections_counter (shared pr)\<rparr>) = Inr (ph', c')"
    and pr': "pr' = pr\<lparr>shared := (shared pr)\<lparr>connections_counter := app_state c'\<rparr>,
                      threads := (threads pr)[k := (ph', c')]\<rparr>"
    by (auto simp: client_move_def split: sum.splits)
  from alone_turn [OF assms(3) [unfolded t] turn] that [of "(ph', c')"] show ?thesis
    by (simp add: pr' t)
qed

lemma client_move_ok: "preserves (process_ok envs) (client_move (envs k) k)"
proof (rule preservesI)
  fix pr x pr'
  assume ok: "process_ok envs pr" and run: "client_move (envs k) k pr = Inr (x, pr')"
  show "process_ok envs pr'"
  proof (cases "k < length (threads pr)")
    case False
    with ok run show ?thesis by (simp add: client_move_def)
  next
    case True
    with ok obtain n where "alone_for n (envs k) (clients (shared pr) ! k) (threads pr ! k)"
      by (auto simp: process_ok_def alone_def)
    from client_moves [OF run True this] obtain t where
      t: "alone_for (Suc n) (envs k) (clients (shared pr) ! k) t"
      and count: "connections_counter (shared pr') =
           connections_counter (shared pr) - departures t + departures (threads pr ! k)"
      and pr': "pr' = pr\<lparr>shared := (shared pr)\<lparr>connections_counter := connections_counter (shared pr')\<rparr>,
                  threads := (threads pr)[k := t]\<rparr>" .
    have "clients (shared pr') = clients (shared pr)" "server (shared pr') = server (shared pr)"
      "threads pr' = (threads pr)[k := t]" by (subst pr', simp)+
    moreover have "sum_list (map departures ((threads pr)[k := t])) =
        sum_list (map departures (threads pr)) + departures t - departures (threads pr ! k)"
      using True by (simp add: map_update sum_list_replace)
    moreover have "alone (envs k) (clients (shared pr) ! k) t" using t by (auto simp: alone_def)
    ultimately show ?thesis
      using ok True count by (auto simp: process_ok_def nth_list_update)
  qed
qed

lemma uncaught_preserves: "preserves I m \<Longrightarrow> preserves I (uncaught m)"
  by (rule preservesI) (auto simp: uncaught_eq_Inr dest: preservesD)

lemma main_move_ok: "preserves (process_ok envs) (on_shared (main_step env t))"
proof (rule preservesI)
  fix pr x pr'
  assume ok: "process_ok envs pr" and "on_shared (main_step env t) pr = Inr (x, pr')"
  then obtain p where step: "main_step env t (shared pr) = Inr (x, p)"
    and pr': "pr' = start_threads (pr\<lparr>shared := p\<rparr>)"
    by (auto simp: on_shared_def split: sum.splits)
  from main_step_accepts [OF step] ok have "accepts_at_most_one (shared pr) p"
    by (simp add: process_ok_def)
  then consider "clients p = clients (shared pr)" "connections_counter p = connections_counter (shared pr)"
      "configured (server p)"
    | c where "fresh_client c" "clients p = clients (shared pr) @ [c]"
      "connections_counter p = connections_counter (shared pr) + 1" "configured (server p)"
    by (auto simp: accepts_at_most_one_def)
  then show "process_ok envs pr'"
  proof cases
    case 1
    with ok show ?thesis by (simp add: process_ok_def pr' start_threads_def)
  next
    case (2 c)
    have "departures (Starting, c) = 0"
      using 2(1) by (auto simp: fresh_client_def newDoIPConnection_def newAliveCheckTimer_def departures_def
          dest: arg_cong [where f = aliveCheckTimer])
    moreover have "alone env c (Starting, c)" for env using alone_start [OF 2(1)] by (auto simp: alone_def)
    ultimately show ?thesis using 2 ok
      by (auto simp: process_ok_def pr' start_threads_def nth_append less_Suc_eq)
  qed
qed

lemma process_step_ok: "preserves (process_ok envs) (process_step env envs a)"
  by (cases a) (simp_all add: process_step_def main_move_ok uncaught_preserves client_move_ok)

lemma run_process_ok: "preserves (process_ok envs) (run_process env envs as)"
  by (induction as) (auto intro!: pres process_step_ok)

definition started_process :: process where
  "started_process = \<lparr>shared = started_program, threads = []\<rparr>"

lemma started_process:
  "example_process env envs schedule static_process = run_process env envs schedule started_process"
  "process_ok envs started_process"
proof -
  have main: "on_server ConfigureDoipServer static_program =
      Inr ((), static_program\<lparr>server := server started_program\<rparr>)"
    using started_program(10) by (simp add: on_server_def static_program_def)
  then have "started_program = static_program\<lparr>server := server started_program, serverActive := True\<rparr>"
    by (subst started_program_def) simp
  moreover have "clients static_program = []" by (simp add: static_program_def)
  ultimately show "example_process env envs schedule static_process = run_process env envs schedule started_process"
    by (simp add: example_process_def on_shared_def start_threads_def started_process_def
      static_process_def main thn_def bnd_def modify_def)
  show "process_ok envs started_process"
    using started_program(2,4,8) by (simp add: process_ok_def started_process_def program_ok_def)
qed

lemma process_state:
  "example_process env envs schedule static_process = Inr ((), pr) \<Longrightarrow> process_ok envs pr"
  using preservesD [OF run_process_ok _ started_process(2)] by (auto simp: started_process(1))


section \<open>Every client on its own\<close>

lemma app_state_again: "c\<lparr>app_state := a\<rparr> = d\<lparr>app_state := b\<rparr> \<Longrightarrow> c = d\<lparr>app_state := app_state c\<rparr>"
  by (metis DoIPConnection.surjective DoIPConnection.update_convs(8))

lemma in_loop_turns: "client_turns n env InLoop c = Inr (ph, c') \<Longrightarrow> ph \<noteq> Starting"
  by (cases n)
     (auto simp: turns_loop bnd_eq_Inr turn_in_loop return_def dest!: leave_thread_finishes
       simp del: client_turns.simps(2) split: if_splits)

lemma starting_turns: "client_turns n env Starting c = Inr (Starting, c') \<Longrightarrow> c' = c"
  by (cases n) (auto simp: turns_start run_simps dest: in_loop_turns simp del: client_turns.simps(2))

lemma turns_finished:
  assumes "client_turns n env InLoop c = Inr (Finished, c')"
  obtains m c2 where "serve_loop m env c = Inr (True, c2)" and "leave_thread env c2 = Inr (Finished, c')"
proof (cases n)
  case (Suc m)
  with assms obtain left c2 where run: "serve_loop m env c = Inr (left, c2)"
    and turn: "(if left then leave_thread env else client_turn env InLoop) c2 = Inr (Finished, c')"
    by (auto simp: turns_loop bnd_eq_Inr simp del: client_turns.simps)
  have "left"
    using turn serve_loop_left [OF run]
    by (cases left) (auto simp: turn_in_loop prog_eq_Inr)
  with run turn that show ?thesis by simp
qed (use assms in \<open>simp add: run_simps\<close>)

lemma leave_thread_trace:
  assumes "leave_thread env c = Inr (ph, c')"
  shows "trace c' = trace c" "peer_of c' = peer_of c"
    "timeout (aliveCheckTimer c') = timeout (aliveCheckTimer c)"
  using assms
  by (auto simp: leave_thread_def triggerDisconnection_def call_member_def prog_eq_Inr fail_def
      destroyAliveCheckTimer_def run_simps peer_of_def
      split: option.splits if_splits dest!: CloseConnection_split)

lemma new_connection_app_state: "new_connection (c\<lparr>app_state := a\<rparr>) = new_connection c"
  by (cases c) (simp add: new_connection_def newDoIPConnection_def)

lemma fresh_client_new:
  assumes "fresh_client c"
  shows "logicalGatewayAddress c = LOGICAL_ADDRESS" and "client_sock c \<noteq> 0 \<Longrightarrow> new_connection c"
proof -
  show g: "logicalGatewayAddress c = LOGICAL_ADDRESS"
    using assms unfolding fresh_client_def newDoIPConnection_def
    by (metis DoIPConnection.select_convs(6))
  show "client_sock c \<noteq> 0 \<Longrightarrow> new_connection c"
    using assms g by (simp add: fresh_client_def new_connection_def)
qed

lemma alone_stream:
  assumes new: "new_connection c0" and "alone env c0 (ph, c)" and "\<not> timeout (aliveCheckTimer c)"
  shows "\<exists>bs. received (trace c) = received (trace c0) @ bs \<and>
          (ssl c0 \<noteq> None \<and> announces_limit bs \<or>
           written (trace c) = written (trace c0) @
             map (map Some) (server_output (logicalGatewayAddress c0) Unrouted (fst (frames bs))) \<and>
           (if isSocketActive c then snd (frames bs) = [] \<and> peer_of c = server_peer Unrouted (fst (frames bs))
            else peer_of c = Closed))"
proof -
  let ?new = "c0\<lparr>app_state := 0\<rparr>" and ?c = "c\<lparr>app_state := - departures (ph, c)\<rparr>"
  from assms(2) obtain n where run: "client_turns n env Starting ?new = Inr (ph, ?c)"
    by (auto simp: alone_def alone_for_def)
  have same: "peer_of ?c = peer_of c" "isSocketActive ?c \<longleftrightarrow> isSocketActive c"
    by (simp_all add: peer_of_def isSocketActive_def)
  have served: "\<exists>bs. received (trace d) = received (trace c0) @ bs \<and>
          (ssl c0 \<noteq> None \<and> announces_limit bs \<or>
           written (trace d) = written (trace c0) @
             map (map Some) (server_output (logicalGatewayAddress c0) Unrouted (fst (frames bs))) \<and>
           (if left then peer_of d = Closed
            else snd (frames bs) = [] \<and> peer_of d = server_peer Unrouted (fst (frames bs))))"
    if "serve_loop m env (configured_client ?new) = Inr (left, d)" "\<not> timeout (aliveCheckTimer d)" for m left d
    using served_stream [of ?new m env left d] that new by (simp add: new_connection_app_state)
  show ?thesis
  proof (cases ph)
    case Starting
    with run have "?c = ?new" by (auto dest: starting_turns)
    from app_state_again [OF this] have c: "c = c0\<lparr>app_state := app_state c\<rparr>" .
    have "isSocketActive c0" "peer_of c0 = Unrouted"
      using new by (simp_all add: new_connection_members peer_of_def isSocketActive_def)
    then show ?thesis
      by (subst (1 2 3 4) c, intro exI [of _ "[]"]) (simp add: server_peer_def isSocketActive_def peer_of_def)
  next
    case InLoop
    with run obtain m where "client_turns m env InLoop (configured_client ?new) = Inr (InLoop, ?c)"
      by (cases n) (auto simp: run_simps turns_start simp del: client_turns.simps(2))
    from turns_left [OF this] served [of m "\<not> isSocketActive ?c" ?c] assms(3) same
    show ?thesis by (cases "isSocketActive c") (simp_all del: not_None_eq)
  next
    case Finished
    with run obtain m where "client_turns m env InLoop (configured_client ?new) = Inr (Finished, ?c)"
      by (cases n) (auto simp: run_simps turns_start simp del: client_turns.simps(2))
    then obtain m c2 where loop: "serve_loop m env (configured_client ?new) = Inr (True, c2)"
      and leave: "leave_thread env c2 = Inr (Finished, ?c)"
      by (rule turns_finished)
    note d = leave_thread_trace [OF leave]
    have "\<not> isSocketActive c"
      using serve_loop_left [OF loop] d(2) same by (simp add: isSocketActive_def closed_iff [symmetric])
    with served [OF loop] d assms(3) same show ?thesis by (simp del: not_None_eq)
  qed
qed

section \<open>Counting turns\<close>

lemma step_turns:
  assumes ok: "process_ok envs pr" and k: "k < length (threads pr)"
    and t: "alone_for n (envs k) c0 (threads pr ! k)" and run: "process_step env envs a pr = Inr (x, pr')"
  shows "k < length (threads pr') \<and> clients (shared pr') ! k = clients (shared pr) ! k \<and>
         alone_for (n + count_list [a] (Of_client k)) (envs k) c0 (threads pr' ! k)"
proof (cases a)
  case (Of_main m)
  with run obtain p where step: "main_step env m (shared pr) = Inr (x, p)"
    and pr': "pr' = start_threads (pr\<lparr>shared := p\<rparr>)"
    by (auto simp: process_step_def on_shared_def split: sum.splits)
  from main_step_accepts [OF step] ok obtain cs where "clients p = clients (shared pr) @ cs"
    by (auto simp: process_ok_def accepts_at_most_one_def)
  with Of_main k t ok show ?thesis by (simp add: pr' start_threads_def nth_append process_ok_def)
next
  case (Of_client j)
  with run have move: "client_move (envs j) j pr = Inr (x, pr')"
    by (simp add: process_step_def uncaught_eq_Inr)
  show ?thesis
  proof (cases "j = k")
    case True
    from client_moves [OF move [unfolded True] k t] obtain t' where
      t': "alone_for (Suc n) (envs k) c0 t'"
      and pr': "pr' = pr\<lparr>shared := (shared pr)\<lparr>connections_counter := connections_counter (shared pr')\<rparr>,
                  threads := (threads pr)[k := t']\<rparr>" .
    have "clients (shared pr') = clients (shared pr)" "threads pr' = (threads pr)[k := t']"
      by (subst pr', simp)+
    with True Of_client k t' show ?thesis by simp
  next
    case False
    with move have "clients (shared pr') = clients (shared pr)" "length (threads pr') = length (threads pr)"
      "threads pr' ! k = threads pr ! k"
      by (auto simp: client_move_def split: if_splits sum.splits prod.splits)
    with False Of_client k t show ?thesis by simp
  qed
qed

lemma run_turns:
  assumes "process_ok envs pr" and "k < length (threads pr)"
    and "alone_for n (envs k) c0 (threads pr ! k)" and "run_process env envs as pr = Inr (x, pr')"
  shows "k < length (threads pr') \<and> clients (shared pr') ! k = clients (shared pr) ! k \<and>
         alone_for (n + count_list as (Of_client k)) (envs k) c0 (threads pr' ! k)"
  using assms
proof (induction as arbitrary: pr n)
  case Nil
  then show ?case by (simp add: run_simps)
next
  case (Cons a as)
  from Cons.prems(4) obtain y pr1 where step: "process_step env envs a pr = Inr (y, pr1)"
    and rest: "run_process env envs as pr1 = Inr (x, pr')" by (auto simp: thn_eq_Inr)
  note one = step_turns [OF Cons.prems(1-3) step]
  have "process_ok envs pr1" by (rule preservesD [OF process_step_ok step Cons.prems(1)])
  from Cons.IH [OF this conjunct1 [OF one] conjunct2 [OF conjunct2 [OF one]] rest] one
  show ?case by (auto simp: add.assoc split: if_splits)
qed

text \<open>A thread that had enough turns after its stream ended is at its end.\<close>

lemma enough_turns_finish:
  assumes "fresh_client c0" and "client_sock c0 \<noteq> 0" and "ended n env" and "n + 3 \<le> m"
    and alone: "alone_for m env c0 (ph, c)"
  shows "ph = Finished \<and> client_sock c = 0 \<and> ssl c = None"
proof -
  let ?new = "c0\<lparr>app_state := 0\<rparr>" and ?c = "c\<lparr>app_state := - departures (ph, c)\<rparr>"
  obtain i where m: "m = Suc (Suc i)" and i: "n < i" using assms(4) by (cases m; cases "m - 1") auto
  have turns: "client_turns m env Starting ?new = Inr (ph, ?c)" using alone by (simp add: alone_for_def)
  have new: "new_connection ?new" using assms(1,2) by (simp add: fresh_client_new new_connection_app_state)
  obtain d where loop: "serve_loop i env (configured_client ?new) = Inr (True, d)"
    and last: "leave_thread env d = Inr (ph, ?c)"
  proof -
    from turns obtain left d where loop: "serve_loop i env (configured_client ?new) = Inr (left, d)"
      and rest: "(if left then leave_thread env else client_turn env InLoop) d = Inr (ph, ?c)"
      unfolding m turns_start turns_loop by (auto simp: bnd_eq_Inr)
    from serve_loop_ends [OF assms(3) _ loop] i have "left" by simp
    with loop rest show thesis by (intro that [of d]) simp_all
  qed
  from leave_thread_finishes [OF last] have fin: "ph = Finished" .
  then have "client_thread i env ?new = Inr (True, ?c)" using turns by (simp add: turns_thread m)
  from client_thread_result [OF new this] obtain c2 where
    "serve_loop i env (configured_client ?new) = Inr (True, c2)"
    and "client_sock ?c = client_sock c2" and "client_sock c2 = 0 \<longrightarrow> ssl ?c = None" .
  with serve_loop_ends [OF assms(3), of _ i] i fin show ?thesis by simp
qed

end
