(* ===== verification/Doip_Process_Runs.thy ===== *)
theory Doip_Process_Runs
  imports Doip_Process
begin

text \<open>
  The properties of the whole process, under every schedule, and runs of it on concrete worlds.
\<close>

section \<open>A tester that was not activated\<close>

text \<open>A peer whose next bytes come in one piece each: the header, then the payload.\<close>

definition sends_whole :: "env \<Rightarrow> example_conn \<Rightarrow> byte list \<Rightarrow> bool" where
  "sends_whole env c m \<longleftrightarrow>
     (let n = of_nat (length (drop 8 m)) :: u64;
          a1 = env (trace c) (Recv (client_sock c) 8);
          tr1 = trace c @ [(Recv (client_sock c) 8, a1)];
          a2 = env tr1 (NewArray n);
          tr2 = tr1 @ [(NewArray n, a2)];
          a3 = env tr2 (Recv (client_sock c) n)
      in ret a1 = 8 \<and> bytes a1 = take 8 m \<and> 0 \<le> ret a2 \<and>
         ret a3 = int (length (drop 8 m)) \<and> bytes a3 = drop 8 m)"

lemma receive_whole:
  assumes "ssl c = None" and "timerThreads (aliveCheckTimer c) = 0"
    and "a = env (trace c) (Recv (client_sock c) n)" and "0 < n" and "unat n = length bs"
    and "ret a = int (length bs)" and "bytes a = bs" and "int (length bs) \<le> int_max"
  shows "receiveFixedNumberOfBytesFromTcpOrTls env app n (replicate (length bs) None) c =
         Inr ((n, map Some bs), c\<lparr>trace := trace c @ [(Recv (client_sock c) n, a)]\<rparr>)"
proof -
  have un: "uint n = int (length bs)" using assms(5) by (simp add: uint_nat)
  have n: "word_of_nat (length bs) = n" by (simp add: assms(5) [symmetric])
  have pos: "0 < length bs" using assms(4,5) by (simp add: word_less_nat_alt)
  have contract: "read_contract n a" using assms(6-8) un by (simp add: read_contract_def)
  have slice: "timer_slice env app c = Inr ((), c)"
    using assms(2) by (simp add: timer_slice_def run_simps)
  have read: "blocking_read env app n c =
      Inr (a, c\<lparr>trace := trace c @ [(Recv (client_sock c) n, a)]\<rparr>)"
    using assms(1,3) by (simp add: blocking_read_def run_simps slice)
  have stop: "receive_loop env app 0 n b d = Inr ((n, b), d)" for b d
    by (simp add: receive_loop.simps [of env app 0] return_def)
  have put: "put_bytes (replicate (length bs) None) 0 bs = Inr (map Some bs)"
    using put_bytes_next [of bs "length bs" "[]"] by simp
  show ?thesis
    unfolding receiveFixedNumberOfBytesFromTcpOrTls_def receive_loop.simps [of env app n]
    using assms(4,6,7) pos contract
    by (simp add: bnd_def [of "blocking_read env app n"] read run_simps put n stop)
qed

lemma unrouted_request:
  assumes ok: "serving False False c" and on: "client_sock c \<noteq> 0" and unrouted: "routedClientAddress c = None"
    and v: "header_spec (take 8 m) = Accepted DIAGNOSTICMESSAGE (length (drop 8 m))" and len: "12 < length m"
    "int (length m) \<le> int_max"
    and sends: "sends_whole env c m" and quiet: "\<not> timeout (aliveCheckTimer c)"
  shows "receiveTcpOrTlsMessage env (example_app env) c = Inl BadPointer"
proof -
  let ?p = "drop 8 m" and ?n = "of_nat (length (drop 8 m)) :: u64" and ?fd = "client_sock c"
  let ?a1 = "env (trace c) (Recv ?fd 8)"
  let ?c1 = "c\<lparr>trace := trace c @ [(Recv ?fd 8, ?a1)]\<rparr>"
  let ?c2 = "?c1\<lparr>trace := trace ?c1 @ [(NewArray ?n, env (trace ?c1) (NewArray ?n))]\<rparr>"
  let ?a3 = "env (trace ?c2) (Recv ?fd ?n)"
  let ?c3 = "?c2\<lparr>trace := trace ?c2 @ [(Recv ?fd ?n, ?a3)]\<rparr>"
  from sends have a: "ret ?a1 = 8" "bytes ?a1 = take 8 m" "0 \<le> ret (env (trace ?c1) (NewArray ?n))"
    "ret ?a3 = int (length ?p)" "bytes ?a3 = ?p"
    by (simp_all add: sends_whole_def Let_def)
  have tcp: "ssl c = None" and idle: "timerThreads (aliveCheckTimer c) = 0" "\<not> active (aliveCheckTimer c)"
    and app: "notify_application c \<noteq> None"
    using ok unrouted by (auto simp: serving_def conn_ok_def timer_of_client_def timer_inv_def)
  have un: "unat ?n = length ?p"
    using len(2) by (simp add: unat_of_nat int_max_def)
  have pos: "0 < ?n" using un len(1) by (simp add: word_less_nat_alt)
  have header: "receiveFixedNumberOfBytesFromTcpOrTls env (example_app env) 8 (replicate 8 None) c =
      Inr ((8, map Some (take 8 m)), ?c1)"
    using receive_whole [of c ?a1 env 8 "take 8 m" "example_app env"] tcp idle a len
    by (simp add: int_max_def del: replicate_Cons_numeral)
  have payload: "receiveFixedNumberOfBytesFromTcpOrTls env (example_app env) ?n (replicate (length ?p) None) ?c2 =
      Inr ((?n, map Some ?p), ?c3)"
    using receive_whole [of ?c2 ?a3 env ?n ?p "example_app env"] tcp idle a(4,5) len un pos
    by (simp add: int_max_def)
  obtain action where parse: "parseGenericHeader (map Some (take 8 m)) 8 = Inr action"
    and act: "verdict_of action = Some (Accepted DIAGNOSTICMESSAGE (length ?p))"
    using parse_header_eq [of "take 8 m" 8 "[]"] len v by auto
  from act obtain k where ty: "action_type action = Some DIAGNOSTICMESSAGE"
    and k: "action_payloadLength action = Some k" "unat k = length ?p"
    by (auto simp: verdict_of_def split: option.splits if_splits)
  from k(2) un have kn: "k = ?n" by (simp add: word_unat_eq_iff)
  have react: "reactOnReceivedTcpMessage env (example_app env) action ?n (Some (map Some ?p)) ?c3 =
      Inl BadPointer"
    using react_example_unrouted [OF ty, of ?c3 "Some (map Some ?p)" ?p env ?n] unrouted app len by simp
  have cut: "(ucast (ucast ?n :: u32) :: u64) = ?n"
    using len(2) un cut_of_nat [of "length ?p"] unat_ucast_u32_u64 [of "ucast ?n"]
    by (simp add: word_unat_eq_iff int_max_def)
  have "receive_payload env (example_app env) ?n ?c1 = Inr (Some (Some (map Some ?p)), ?c3)"
    using payload a(3) pos un cut
    by (simp add: receive_payload_def run_simps bnd_def [of "receiveFixedNumberOfBytesFromTcpOrTls _ _ _ _"])
  then show ?thesis
    using header parse idle quiet react
    by (simp add: receiveTcpOrTlsMessage_def run_simps bnd_def [of "receiveFixedNumberOfBytesFromTcpOrTls _ _ _ _"]
      bnd_def [of "receive_payload _ _ _"] GenericHeaderLength_def k kn del: replicate_Cons_numeral)
qed


lemma run_process_append:
  "run_process env envs (as @ bs) = thn (run_process env envs as) (run_process env envs bs)"
  by (induction as) (simp_all add: thn_def bnd_return bnd_assoc)

lemma in_loop_serving:
  assumes "fresh_client c0" and "client_sock c0 \<noteq> 0" and "alone env c0 (InLoop, c)"
  shows "serving (ssl c0 \<noteq> None) False c"
proof -
  let ?new = "c0\<lparr>app_state := 0\<rparr>" and ?c = "c\<lparr>app_state := - departures (InLoop, c)\<rparr>"
  from assms(3) obtain n where "client_turns n env Starting ?new = Inr (InLoop, ?c)"
    by (auto simp: alone_def alone_for_def)
  then obtain m where "client_turns m env InLoop (configured_client ?new) = Inr (InLoop, ?c)"
    by (cases n) (auto simp: run_simps turns_start simp del: client_turns.simps(2))
  from turns_left [OF this] have loop: "serve_loop m env (configured_client ?new) = Inr (\<not> isSocketActive c, ?c)"
    by (simp add: isSocketActive_def)
  from assms(1,2) have "new_connection ?new" by (simp add: fresh_client_new new_connection_app_state)
  then have "serving (ssl c0 \<noteq> None) False (configured_client ?new)"
    by (rule configured_client_serving) auto
  from hoareD(1) [OF serve_loop_safe this loop] show ?thesis by simp
qed

lemma in_loop_open:
  assumes "alone env c0 (InLoop, c)" and "client_sock c \<noteq> 0"
  shows "client_sock c0 \<noteq> 0"
proof
  assume closed: "client_sock c0 = 0"
  let ?new = "c0\<lparr>app_state := 0\<rparr>" and ?c = "c\<lparr>app_state := - departures (InLoop, c)\<rparr>"
  from assms(1) obtain n where "client_turns n env Starting ?new = Inr (InLoop, ?c)"
    by (auto simp: alone_def alone_for_def)
  then obtain m where "client_turns m env InLoop (configured_client ?new) = Inr (InLoop, ?c)"
    by (cases n) (auto simp: run_simps turns_start simp del: client_turns.simps(2))
  from turns_left [OF this] closed serve_loop_closed [of "configured_client ?new" m env]
  have "?c = configured_client ?new" by simp
  then have "client_sock ?c = client_sock (configured_client ?new)" by simp
  with closed assms(2) show False by simp
qed

lemma client_turn_safe:
  "hoare (serving tls r) (client_errors tls r) (client_turn env InLoop) (\<lambda>_ _. True)"
proof (rule hoareI)
  fix c :: example_conn
  assume s: "serving tls r c"
  have "hoare (serving tls r) (client_errors tls r) (leave_thread env) (\<lambda>_ _. True)"
    unfolding leave_thread_def
    by (rule wp_thn [OF _ example_errors.serving_trigger], rule wp_thn [OF _ destroy_safe])
       (auto intro: hoare_no_error simp: run_simps)
  moreover have "hoare (serving tls r) (client_errors tls r)
      (bnd (receiveTcpOrTlsMessage env (example_app env)) (\<lambda>_. return InLoop)) (\<lambda>_ _. True)"
    by (rule wp_bnd [OF _ example_errors.serving_receive]) (auto intro: hoare_no_error simp: run_simps)
  ultimately show "case client_turn env InLoop c of Inl e \<Rightarrow> e \<in> client_errors tls r | Inr (x, c') \<Rightarrow> True"
    using s unfolding turn_in_loop hoare_def by auto
qed

section \<open>A run of the process\<close>

text \<open>While only the threads of \<open>main\<close> are scheduled, the process is the program of \<open>Doip_Main\<close>.\<close>

lemma main_turns:
  assumes "run_schedule env ts p = Inr ((), p')" and "configured (server p)"
  shows "run_process env envs (map Of_main ts) \<lparr>shared = p, threads = map (Pair Starting) (clients p)\<rparr> =
         Inr ((), \<lparr>shared = p', threads = map (Pair Starting) (clients p')\<rparr>)"
  using assms
proof (induction ts arbitrary: p)
  case Nil
  then show ?case by (simp add: run_simps)
next
  case (Cons t ts)
  from Cons.prems(1) obtain p1 where step: "main_step env t p = Inr ((), p1)"
    and rest: "run_schedule env ts p1 = Inr ((), p')" by (auto simp: thn_eq_Inr)
  from main_step_accepts [OF step Cons.prems(2)] have p1: "configured (server p1)"
    and "\<exists>cs. clients p1 = clients p @ cs" by (auto simp: accepts_at_most_one_def)
  then have "process_step env envs (Of_main t) \<lparr>shared = p, threads = map (Pair Starting) (clients p)\<rparr> =
      Inr ((), \<lparr>shared = p1, threads = map (Pair Starting) (clients p1)\<rparr>)"
    using step by (auto simp: process_step_def on_shared_def start_threads_def)
  with Cons.IH [OF rest p1] show ?case by (simp add: thn_def bnd_def)
qed

lemma main_process:
  assumes "main_program env ts static_program = Inr ((), p)"
  shows "example_process env envs (map Of_main ts) static_process =
         Inr ((), \<lparr>shared = p, threads = map (Pair Starting) (clients p)\<rparr>)"
proof -
  have "configured (server started_program)" using started_program(2) by (simp add: program_ok_def)
  with main_turns [of env ts started_program p envs] assms started_program(1,4) show ?thesis
    by (simp add: started_process(1)) (simp add: started_process_def)
qed

text \<open>A client that is scheduled alone takes its turns.\<close>

lemma only_client_turns:
  assumes "client_turns n (envs 0) ph c = Inr (ph', c')"
    and "threads pr = [(ph, c)]" and "app_state c = connections_counter (shared pr)"
  shows "run_process env envs (replicate n (Of_client 0)) pr =
         Inr ((), pr\<lparr>shared := (shared pr)\<lparr>connections_counter := app_state c'\<rparr>, threads := [(ph', c')]\<rparr>)"
  using assms
proof (induction n arbitrary: pr ph c)
  case 0
  then show ?case by (auto simp: run_simps)
next
  case (Suc n)
  from Suc.prems(1) obtain ph1 c1 where turn: "client_turn (envs 0) ph c = Inr (ph1, c1)"
    and rest: "client_turns n (envs 0) ph1 c1 = Inr (ph', c')" by (auto simp: bnd_eq_Inr)
  let ?pr = "pr\<lparr>shared := (shared pr)\<lparr>connections_counter := app_state c1\<rparr>, threads := [(ph1, c1)]\<rparr>"
  have "c\<lparr>app_state := connections_counter (shared pr)\<rparr> = c" by (simp add: Suc.prems(3) [symmetric])
  with turn Suc.prems(2) have "process_step env envs (Of_client 0) pr = Inr ((), ?pr)"
    by (simp add: process_step_def uncaught_def client_move_def)
  with Suc.IH [OF rest, of ?pr] show ?case by (simp add: thn_def bnd_def)
qed

text \<open>The first client that \<open>main_world\<close> lets in, and the tester's script, four calls later.\<close>

definition first_client :: example_conn where
  "first_client =
     newDoIPConnection
       [(Socket True, answers 4),
        (Bind 4 \<lparr>sin_family = Some AF_INET, sin_port = Some ServerPortTcpUdp, sin_addr = Some INADDR_ANY\<rparr>,
         answers 4),
        (Listen 4 5, answers 4), (Accept 4, answers 4)]
       1 4 LOGICAL_ADDRESS None"

definition later :: "env \<Rightarrow> env" where
  "later env tr k = env (drop 4 tr) k"

lemma first_client_accepted:
  "\<exists>p. main_program main_world [Listener False, Listener False] static_program = Inr ((), p) \<and>
       clients p = [first_client] \<and> connections_counter p = 1"
proof -
  have "LogicalGatewayAddress (server started_program) = LOGICAL_ADDRESS"
    using started_program(2) by (simp add: program_ok_def configured_def)
  then have "\<exists>s. listenTcpOrTls 1 main_world False 0 (server started_program) = Inr ([first_client], s)"
    by (simp add: listenTcpOrTls_def setupTcpOrTlsSocket_def open_listener_def set_server_address_def
        waitForTcpConnection_def run_simps main_world_def answers_def thn_def bnd_def add_int_def
        int_min_def int_max_def first_client_def started_program newDoIPConnection_def)
  then obtain s where "listenTcpOrTls 1 main_world False 0 (server started_program) = Inr ([first_client], s)"
    by blast
  then obtain p where run: "run_schedule main_world (replicate 2 (Listener False)) started_program = Inr ((), p)"
    and p: "clients p = [first_client]"
    using listener_schedule [of 1 main_world False started_program "[first_client]" s] started_program
    by (auto simp: numeral_2_eq_2)
  from preservesD [OF run_schedule_ok run started_program(2)] p have "connections_counter p = 1"
    by (simp add: program_ok_def)
  with run p show ?thesis by (auto simp: started_program(1) numeral_2_eq_2)
qed

text \<open>A schedule that accepts this client and then runs its thread.\<close>

definition first_schedule :: "nat \<Rightarrow> agent list" where
  "first_schedule n = map Of_main [Listener False, Listener False] @ replicate n (Of_client 0)"

lemma first_client_runs:
  assumes "client_turns n (envs 0) Starting first_client = Inr (ph, c)"
  shows "\<exists>pr. example_process main_world envs (first_schedule n) static_process = Inr ((), pr) \<and>
              threads pr = [(ph, c)] \<and> clients (shared pr) = [first_client] \<and>
              connections_counter (shared pr) = app_state c"
proof -
  obtain p where main: "main_program main_world [Listener False, Listener False] static_program = Inr ((), p)"
    and p: "clients p = [first_client]" "connections_counter p = 1"
    using first_client_accepted by blast
  let ?pr = "\<lparr>shared = p, threads = [(Starting, first_client)]\<rparr>"
  from main_process [OF main, of envs] p have
    "run_process main_world envs (map Of_main [Listener False, Listener False]) started_process = Inr ((), ?pr)"
    by (simp add: started_process(1))
  moreover have "app_state first_client = connections_counter (shared ?pr)"
    using p by (simp add: first_client_def newDoIPConnection_def)
  ultimately show ?thesis
    using only_client_turns [where env = main_world and envs = envs and pr = ?pr, OF assms] p
    by (simp add: started_process(1) first_schedule_def run_process_append thn_def bnd_def
        del: run_process.simps list.map)
qed

lemma first_client_outcome:
  assumes "case client_turns n (envs 0) Starting first_client of Inl e \<Rightarrow> False | Inr (ph, c) \<Rightarrow> P ph c"
  obtains pr ph c where "example_process main_world envs (first_schedule n) static_process = Inr ((), pr)"
    and "threads pr = [(ph, c)]" and "clients (shared pr) = [first_client]"
    and "connections_counter (shared pr) = app_state c" and "P ph c"
  using assms first_client_runs [of n envs]
  by (cases "client_turns n (envs 0) Starting first_client") (auto split: prod.splits)

lemma tester_turns:
  "case client_turns 6 (later tester_world) Starting first_client of Inl e \<Rightarrow> False
   | Inr (ph, c) \<Rightarrow> ph = Finished \<and> \<not> timeout (aliveCheckTimer c) \<and> received (trace c) = tester_stream \<and> app_state c = 0"
  by code_simp


text \<open>After its activation the tester is silent until the timer expires.\<close>

definition sleeping_world :: env where
  "sleeping_world = script
     [delivers (take 8 tester_stream), answers 0, delivers (take 7 (drop 8 tester_stream)),
      answers 17, answers 0, answers 1, answers 60000000000]"

lemma sleeping_turns:
  "case client_turns 6 (later sleeping_world) Starting first_client of Inl e \<Rightarrow> False
   | Inr (ph, c) \<Rightarrow> ph = Finished \<and> timeout (aliveCheckTimer c) \<and> app_state c = -1"
  by code_simp

lemma first_client_simps [simp]:
  "received (trace first_client) = []" "written (trace first_client) = []"
  "ssl first_client = None" "client_sock first_client = 4" "routedClientAddress first_client = None"
  "aliveCheckTimer first_client = newAliveCheckTimer"
  by (simp_all add: first_client_def newDoIPConnection_def received_def written_def)

section \<open>Properties\<close>

text \<open>
  C1. Every client is served. Under every schedule of the threads of the process (those of
  \<open>main\<close> and one for each accepted client) and in every world, the connection of
  each client whose alive check timer has not expired has consumed some bytes \<open>bs\<close>
  and written exactly \<open>server_output\<close> of the complete messages in them; if it is
  open, the bytes are whole messages and it is in the state that the protocol gives after them.
  The other clients, the listeners and the shared counter make no difference. The exception is
  a TLS stream with a header that announces 0xFFFFFFFF bytes.
\<close>

theorem every_client_served:
  assumes "example_process env envs schedule static_process = Inr ((), pr)"
    and "k < length (threads pr)" and "c0 = clients (shared pr) ! k" and "c = snd (threads pr ! k)"
    and "client_sock c0 \<noteq> 0" and "\<not> timeout (aliveCheckTimer c)"
  shows "\<exists>bs. received (trace c) = received (trace c0) @ bs \<and>
          (ssl c0 \<noteq> None \<and> announces_limit bs \<or>
           written (trace c) = written (trace c0) @
             map (map Some) (server_output LOGICAL_ADDRESS Unrouted (fst (frames bs))) \<and>
           (if isSocketActive c then snd (frames bs) = [] \<and> peer_of c = server_peer Unrouted (fst (frames bs))
            else peer_of c = Closed))"
proof -
  have ok: "process_ok envs pr" by (rule process_state [OF assms(1)])
  with assms(2,3) have fresh: "fresh_client c0" by (simp add: process_ok_def list_all_length)
  have new: "new_connection c0" and g: "logicalGatewayAddress c0 = LOGICAL_ADDRESS"
    using fresh_client_new [OF fresh] assms(5) by simp_all
  have "alone (envs k) c0 (fst (threads pr ! k), c)"
    using ok assms(2-4) by (simp add: process_ok_def)
  from alone_stream [OF new this assms(6)] g show ?thesis by simp
qed

theorem every_client_served_witness:
  "\<exists>pr c. example_process main_world (\<lambda>k. later tester_world) (first_schedule 6) static_process = Inr ((), pr) \<and>
     threads pr = [(Finished, c)] \<and> received (trace c) = tester_stream \<and>
     written (trace c) = map (map Some) (server_output LOGICAL_ADDRESS Unrouted (fst (frames tester_stream)))"
proof -
  obtain pr ph c where pr: "example_process main_world (\<lambda>k. later tester_world) (first_schedule 6) static_process = Inr ((), pr)"
    "threads pr = [(ph, c)]" "clients (shared pr) = [first_client]"
    and c: "ph = Finished \<and> \<not> timeout (aliveCheckTimer c) \<and> received (trace c) = tester_stream \<and> app_state c = 0"
    by (rule first_client_outcome [where envs = "\<lambda>k. later tester_world", OF tester_turns])
  have g: "ph = Finished" "received (trace c) = tester_stream" "\<not> timeout (aliveCheckTimer c)"
    using c by simp_all
  have at: "0 < length (threads pr)" "first_client = clients (shared pr) ! 0" "c = snd (threads pr ! 0)"
    by (simp_all add: pr(2,3))
  have on: "client_sock first_client \<noteq> 0" by simp
  obtain bs where "received (trace c) = received (trace first_client) @ bs"
    and "ssl first_client \<noteq> None \<and> announces_limit bs \<or>
           written (trace c) = written (trace first_client) @
             map (map Some) (server_output LOGICAL_ADDRESS Unrouted (fst (frames bs)))"
    using every_client_served [OF pr(1) at on g(3)] by blast
  with g(2) have "written (trace c) = map (map Some) (server_output LOGICAL_ADDRESS Unrouted (fst (frames tester_stream)))"
    by simp
  with pr g show ?thesis by blast
qed

text \<open>
  C5. Clients do not interfere. Under every schedule of the whole process, the thread of each
  client is in the state, phase and connection, that its own turns alone lead to from the
  connection as it was accepted, in its own world, up to the value of the shared counter, from
  which only its own departures are subtracted; and when it has finished,
  \<open>client_thread\<close> alone returns with that connection.
\<close>

theorem clients_do_not_interfere:
  assumes "example_process env envs schedule static_process = Inr ((), pr)"
    and "k < length (threads pr)" and "c0 = clients (shared pr) ! k" and "threads pr ! k = (ph, c)"
  shows "\<exists>n. client_turns n (envs k) Starting (c0\<lparr>app_state := 0\<rparr>) =
              Inr (ph, c\<lparr>app_state := - departures (ph, c)\<rparr>) \<and>
             (if ph = Finished
              then client_thread n (envs k) (c0\<lparr>app_state := 0\<rparr>) =
                     Inr (True, c\<lparr>app_state := - departures (ph, c)\<rparr>)
              else True)"
proof -
  let ?new = "c0\<lparr>app_state := 0\<rparr>" and ?c = "c\<lparr>app_state := - departures (ph, c)\<rparr>"
  have "process_ok envs pr" by (rule process_state [OF assms(1)])
  with assms(2-4) have "alone (envs k) c0 (ph, c)" by (auto simp: process_ok_def)
  then obtain n where n: "client_turns n (envs k) Starting ?new = Inr (ph, ?c)"
    by (auto simp: alone_def alone_for_def)
  have "client_thread n (envs k) ?new = Inr (True, ?c)"
    if "client_turns n (envs k) Starting ?new = Inr (Finished, ?c)"
  proof -
    have "client_turns (Suc (Suc n)) (envs k) Starting ?new = Inr (Finished, ?c)"
      unfolding client_turns_later [of "Suc n"] client_turns_later [of n]
      using that by (simp add: bnd_def client_turn_def return_def)
    then show ?thesis by (simp add: turns_thread)
  qed
  with n show ?thesis by (intro exI [of _ n]) auto
qed

theorem clients_do_not_interfere_witness:
  "\<exists>n c. client_thread n (later tester_world) (first_client\<lparr>app_state := 0\<rparr>) = Inr (True, c) \<and>
         received (trace c) = tester_stream"
proof -
  obtain pr ph c where pr: "example_process main_world (\<lambda>k. later tester_world) (first_schedule 6) static_process = Inr ((), pr)"
    "threads pr = [(ph, c)]" "clients (shared pr) = [first_client]"
    and c: "ph = Finished \<and> \<not> timeout (aliveCheckTimer c) \<and> received (trace c) = tester_stream \<and> app_state c = 0"
    by (rule first_client_outcome [where envs = "\<lambda>k. later tester_world", OF tester_turns])
  have g: "ph = Finished" "received (trace c) = tester_stream" using c by simp_all
  from clients_do_not_interfere [OF pr(1), of 0 first_client ph c] pr(2,3) g(1)
  obtain n where "client_thread n (later tester_world) (first_client\<lparr>app_state := 0\<rparr>) =
      Inr (True, c\<lparr>app_state := - departures (ph, c)\<rparr>)" by auto
  then show ?thesis
    by (intro exI [of _ n] exI [of _ "c\<lparr>app_state := - departures (ph, c)\<rparr>"]) (simp add: g(2))
qed

text \<open>
  C20. The example program. Under every schedule of the whole process, the vehicle message is
  the constant one of the configuration (VIN FOOBAR filled up with zeros, logical address 0x28,
  zero EID, GID and further action), every accepted client is, when its descriptor is not 0, a
  new connection with the gateway's address and has a thread, and the counter of connections is
  the number of accepted clients less the finished ones and less those whose timer expired: a
  client that timed out is subtracted twice.
\<close>

theorem example_program:
  assumes "example_process env envs schedule static_process = Inr ((), pr)"
  shows "vehicle_message (server (shared pr)) = Inr (map Some
           (header_bytes (0x00, 0x04) 32 @ map of_char ''FOOBAR00000000000'' @ [0x00, 0x28] @
            replicate 13 0)) \<and>
         list_all (\<lambda>c. logicalGatewayAddress c = LOGICAL_ADDRESS \<and>
                        (if client_sock c = 0 then True else new_connection c)) (clients (shared pr)) \<and>
         length (threads pr) = length (clients (shared pr)) \<and>
         connections_counter (shared pr) =
           int (length (clients (shared pr)))
           - int (length (filter (\<lambda>(ph, c). ph = Finished) (threads pr)))
           - int (length (filter (\<lambda>(ph, c). timeout (aliveCheckTimer c)) (threads pr)))"
proof -
  have ok: "process_ok envs pr" by (rule process_state [OF assms])
  have "sum_list (map departures ts) =
      int (length (filter (\<lambda>(ph, c). ph = Finished) ts)) +
      int (length (filter (\<lambda>(ph, c). timeout (aliveCheckTimer c)) ts))" for ts
    by (induction ts) (auto simp: departures_def)
  moreover have "list_all (\<lambda>c. logicalGatewayAddress c = LOGICAL_ADDRESS \<and>
      (if client_sock c = 0 then True else new_connection c)) (clients (shared pr))"
    using ok fresh_client_new by (auto simp: process_ok_def list_all_iff)
  ultimately show ?thesis
    using ok configured_message [of "server (shared pr)"] by (simp add: process_ok_def)
qed

theorem example_program_witness:
  "\<exists>pr c. example_process main_world (\<lambda>k. later sleeping_world) (first_schedule 6) static_process = Inr ((), pr) \<and>
     threads pr = [(Finished, c)] \<and> timeout (aliveCheckTimer c) \<and> connections_counter (shared pr) = -1"
proof -
  obtain pr ph c where pr: "example_process main_world (\<lambda>k. later sleeping_world) (first_schedule 6) static_process = Inr ((), pr)"
    "threads pr = [(ph, c)]" "clients (shared pr) = [first_client]"
    and c: "ph = Finished \<and> timeout (aliveCheckTimer c) \<and> app_state c = -1"
    by (rule first_client_outcome [where envs = "\<lambda>k. later sleeping_world", OF sleeping_turns])
  from example_program [OF pr(1)] pr(2,3) c have "connections_counter (shared pr) = -1" by simp
  with pr c show ?thesis by blast
qed

text \<open>
  C18. A tester that was not activated ends the process. Whatever the process did before, when
  the next turn of a TCP client that has not activated routing finds a whole diagnostic message
  with data, the process dereferences the uninitialised \<open>routedClientAddress\<close> and
  stops, with all its connections.
\<close>

theorem unrouted_tester_ends_process:
  assumes "example_process env envs schedule static_process = Inr ((), pr)"
    and "k < length (threads pr)" and "threads pr ! k = (InLoop, c)"
    and "ssl (clients (shared pr) ! k) = None" and "client_sock c \<noteq> 0" and "routedClientAddress c = None"
    and "\<not> timeout (aliveCheckTimer c)"
    and "header_spec (take 8 m) = Accepted DIAGNOSTICMESSAGE (length (drop 8 m))" and "12 < length m"
    and "int (length m) \<le> int_max" and "sends_whole (envs k) c m"
  shows "example_process env envs (schedule @ [Of_client k]) static_process = Inl BadPointer"
proof -
  let ?c = "c\<lparr>app_state := connections_counter (shared pr)\<rparr>"
  have ok: "process_ok envs pr" by (rule process_state [OF assms(1)])
  with assms(2,3) have new: "fresh_client (clients (shared pr) ! k)"
    and alone: "alone (envs k) (clients (shared pr) ! k) (InLoop, c)"
    by (auto simp: process_ok_def list_all_length)
  from in_loop_serving [OF new in_loop_open [OF alone assms(5)] alone] assms(4) have "serving False False ?c" by simp
  moreover have "sends_whole (envs k) ?c m" using assms(11) by (simp add: sends_whole_def)
  ultimately have "receiveTcpOrTlsMessage (envs k) (example_app (envs k)) ?c = Inl BadPointer"
    using assms(5-10) by (intro unrouted_request) simp_all
  then have "client_turn (envs k) InLoop ?c = Inl BadPointer"
    using assms(5) by (simp add: turn_in_loop isSocketActive_def bnd_def)
  with assms(2,3) have "process_step env envs (Of_client k) pr = Inl BadPointer"
    by (simp add: process_step_def uncaught_def client_move_def)
  with assms(1) show ?thesis
    by (simp add: started_process(1) run_process_append thn_def bnd_def)
qed

definition rogue_world :: "byte list \<Rightarrow> env" where
  "rogue_world m tr k =
     (case k of Recv fd n \<Rightarrow> delivers (if n = 8 then take 8 m else drop 8 m) | _ \<Rightarrow> answers 0)"

theorem unrouted_tester_ends_process_witness:
  "example_process main_world (\<lambda>k. rogue_world (drop 15 tester_stream))
     (first_schedule 1 @ [Of_client 0]) static_process = Inl BadPointer"
proof -
  let ?m = "drop 15 tester_stream" and ?c = "configured_client first_client"
  have turns: "client_turns 1 (rogue_world ?m) Starting first_client = Inr (InLoop, ?c)"
    by (simp add: turns_start return_def del: client_turns.simps(2))
  obtain pr where pr: "example_process main_world (\<lambda>k. rogue_world ?m) (first_schedule 1) static_process = Inr ((), pr)"
    "threads pr = [(InLoop, ?c)]" "clients (shared pr) = [first_client]"
    using first_client_runs [of 1 "\<lambda>k. rogue_world ?m"] turns by auto
  have len: "length tester_stream = 30" by code_simp
  have "sends_whole (rogue_world ?m) ?c ?m"
    unfolding sends_whole_def Let_def rogue_world_def by (simp add: delivers_def answers_def len)
  with unrouted_tester_ends_process [OF pr(1), of 0 ?c ?m] pr tester_messages(3) len show ?thesis
    by (simp add: newAliveCheckTimer_def int_max_def)
qed

text \<open>
  C19. A failed TLS handshake ends the process. Whatever the process did before, once the TLS
  listener is set up, its next attempt to accept a client whose handshake fails throws an
  exception that nobody catches, and the process terminates, with all its connections.
\<close>

theorem failed_handshake_ends_process:
  assumes "example_process env envs schedule static_process = Inr ((), pr)"
    and "Listener True \<in> set (ready (shared pr))" and "\<And>tr h. ret (env tr (SSL_accept h)) \<le> 0"
  shows "example_process env envs (schedule @ [Of_main (Listener True)]) static_process = Inl Terminate"
proof -
  have "process_ok envs pr" by (rule process_state [OF assms(1)])
  then have "configured (server (shared pr))" by (simp add: process_ok_def)
  then obtain fd where fd: "server_socket_tls (server (shared pr)) = Some fd" by (auto simp: configured_def)
  have "\<exists>msg. (waitForTlsConnection env (connections_counter (shared pr)) :: example_conn server_prog)
      (server (shared pr)) = Inl (RuntimeError msg)"
    using assms(3) by (simp add: waitForTlsConnection_def run_simps fd)
  then have "main_step env (Listener True) (shared pr) = Inl Terminate"
    using assms(2)
    by (auto simp: main_step_def uncaught_def listenTcpOrTls_step_def bnd_def gets_def on_server_def)
  then have "process_step env envs (Of_main (Listener True)) pr = Inl Terminate"
    by (simp add: process_step_def on_shared_def)
  with assms(1) show ?thesis
    by (simp add: started_process(1) run_process_append thn_def bnd_def)
qed

theorem failed_handshake_ends_process_witness:
  "example_process main_world (\<lambda>k. main_world) [Of_main (Listener True), Of_main (Listener True)] static_process =
     Inl Terminate"
proof -
  obtain s1 where opened: "setupTcpOrTlsSocket main_world True (server started_program) = Inr ((), s1)"
    by (simp add: setupTcpOrTlsSocket_def setup_context_def create_context_def
        configure_context_client_auth_def open_listener_def set_server_address_def run_simps
        main_world_def answers_def thn_def bnd_def)
  let ?p = "started_program\<lparr>server := s1, ready := [Listener True]\<rparr>"
  have "main_step main_world (Listener True) started_program = Inr ((), ?p)"
    using opened started_program(3)
    by (simp add: main_step_def uncaught_eq_Inr listenTcpOrTls_step_def run_simps thn_eq_Inr
        on_server_eq_Inr set_ready_def)
  then have "main_program main_world [Listener True] static_program = Inr ((), ?p)"
    by (simp add: started_program(1) thn_def bnd_def return_def)
  from main_process [OF this, of "\<lambda>k. main_world"] have
    run: "example_process main_world (\<lambda>k. main_world) [Of_main (Listener True)] static_process =
      Inr ((), \<lparr>shared = ?p, threads = map (Pair Starting) (clients ?p)\<rparr>)" by simp
  have "ret (main_world tr (SSL_accept h)) \<le> 0" for tr h
    by (simp add: main_world_def answers_def)
  from failed_handshake_ends_process [OF run _ this] show ?thesis by simp
qed

text \<open>
  C6. Every client finishes. When the reads of an accepted client deliver nothing after the
  n-th call of its thread, and a schedule, whatever else it holds, gives that thread n + 3 more
  turns, then in the state the process comes to the thread has finished, its socket is closed
  and its TLS object released.
\<close>

theorem every_client_finishes:
  assumes "example_process env envs before static_process = Inr ((), pr)" and "k < length (threads pr)"
    and "client_sock (clients (shared pr) ! k) \<noteq> 0"
    and "ended n (envs k)" and "n + 3 \<le> count_list after (Of_client k)"
    and "example_process env envs (before @ after) static_process = Inr ((), pr')"
  shows "\<exists>c. threads pr' ! k = (Finished, c) \<and> client_sock c = 0 \<and> ssl c = None"
proof -
  have ok: "process_ok envs pr" by (rule process_state [OF assms(1)])
  let ?c0 = "clients (shared pr) ! k"
  obtain m where m: "alone_for m (envs k) ?c0 (threads pr ! k)"
    using ok assms(2) by (auto simp: process_ok_def alone_def)
  have "run_process env envs after pr = Inr ((), pr')"
    using assms(1,6) by (simp add: started_process(1) run_process_append thn_def bnd_def)
  from run_turns [OF ok assms(2) m this]
  have "alone_for (m + count_list after (Of_client k)) (envs k) ?c0 (threads pr' ! k)" by simp
  moreover have "fresh_client ?c0" using ok assms(2) by (simp add: process_ok_def list_all_length)
  ultimately show ?thesis
    using enough_turns_finish [of ?c0 n "envs k" "m + count_list after (Of_client k)"] assms(3-5)
    by (cases "threads pr' ! k") simp
qed

lemma long_tester_turns:
  "case client_turns 19 (later tester_world) Starting first_client of Inl e \<Rightarrow> False
   | Inr (ph, c) \<Rightarrow> True"
  by code_simp

theorem every_client_finishes_witness:
  "\<exists>pr c. example_process main_world (\<lambda>k. later tester_world) (first_schedule 19) static_process = Inr ((), pr) \<and>
     threads pr ! 0 = (Finished, c) \<and> client_sock c = 0 \<and> ssl c = None"
proof -
  let ?envs = "\<lambda>k :: nat. later tester_world"
  obtain pr0 ph0 c0 where start: "example_process main_world ?envs (first_schedule 0) static_process = Inr ((), pr0)"
    and pr0: "threads pr0 = [(ph0, c0)]" "clients (shared pr0) = [first_client]"
    by (rule first_client_outcome [where n = 0 and envs = ?envs and P = "\<lambda>ph c. True"])
      (auto simp: return_def)
  obtain pr ph c where run: "example_process main_world ?envs (first_schedule 19) static_process = Inr ((), pr)"
    by (rule first_client_outcome [where envs = ?envs, OF long_tester_turns])
  have split: "first_schedule 19 = first_schedule 0 @ replicate 19 (Of_client 0)"
    by (simp add: first_schedule_def)
  have count: "16 + 3 \<le> count_list (replicate 19 (Of_client 0)) (Of_client 0)"
    by (simp add: numeral_eq_Suc)
  have "ended 16 (later tester_world)" by (auto simp: ended_def later_def tester_world_def silent_def)
  with every_client_finishes [OF start _ _ _ count run [unfolded split]] pr0 run show ?thesis by auto
qed

text \<open>
  C17. What a client can do to the process. From every state the process can reach, a turn of a
  client's thread can fail only in its message loop, with the errors in
  \<open>run_errors\<close>: a failed allocation and a read that breaks its contract; over TLS
  a released object or an unwritten value; before an activation the uninitialised
  \<open>routedClientAddress\<close>; or with an overflow of the counter.
\<close>

theorem client_turn_errors:
  assumes "example_process env envs schedule static_process = Inr ((), pr)"
    and "k < length (threads pr)" and "c0 = clients (shared pr) ! k" and "threads pr ! k = (ph, c)"
    and "client_sock c0 \<noteq> 0"
    and "example_process env envs (schedule @ [Of_client k]) static_process = Inl e"
  shows "ph = InLoop \<and> e \<in> run_errors (ssl c0 \<noteq> None) (routedClientAddress c \<noteq> None) \<union> {SignedOverflow}"
proof -
  let ?c = "c\<lparr>app_state := connections_counter (shared pr)\<rparr>"
  have ok: "process_ok envs pr" by (rule process_state [OF assms(1)])
  with assms(2-4) have a: "fresh_client c0" "alone (envs k) c0 (ph, c)"
    by (auto simp: process_ok_def list_all_length)
  have "uncaught (client_move (envs k) k) pr = Inl e"
    using assms(1,6) by (simp add: started_process(1) run_process_append thn_def bnd_def process_step_def
        return_def split: sum.splits prod.splits)
  then obtain e' where turn: "client_turn (envs k) ph ?c = Inl e'" and e: "e = e' \<or> (\<exists>msg. e' = RuntimeError msg)"
    using assms(2,4) by (auto simp: uncaught_def client_move_def split: sum.splits cpp_error.splits)
  have ph: "ph = InLoop"
    using turn configured_client_run [of "return InLoop" ?c]
    by (cases ph) (simp_all add: client_turn_def return_def)
  with in_loop_serving [OF a(1) assms(5)] a(2) have "serving (ssl c0 \<noteq> None) False ?c" by simp
  then have "serving (ssl c0 \<noteq> None) (routedClientAddress c \<noteq> None) ?c"
    by (auto simp: serving_def split: option.splits)
  from hoareD(2) [OF client_turn_safe this] turn ph
  have "e' \<in> client_errors (ssl c0 \<noteq> None) (routedClientAddress c \<noteq> None)" by simp
  with e ph show ?thesis by (auto simp: run_errors_def split: if_splits)
qed

text \<open>A world that claims to have read a byte and delivers none.\<close>

definition lying_world :: env where
  "lying_world tr k = answers 1"

theorem client_turn_errors_witness:
  "example_process main_world (\<lambda>k. lying_world) (first_schedule 1 @ [Of_client 0]) static_process = Inl EnvContract \<and>
   EnvContract \<in> run_errors False False \<union> {SignedOverflow}"
proof -
  let ?c = "configured_client first_client"
  have "client_turns 1 lying_world Starting first_client = Inr (InLoop, ?c)"
    by (simp add: turns_start return_def del: client_turns.simps(2))
  then obtain pr where pr: "example_process main_world (\<lambda>k. lying_world) (first_schedule 1) static_process = Inr ((), pr)"
    "threads pr = [(InLoop, ?c)]" "clients (shared pr) = [first_client]"
    "connections_counter (shared pr) = app_state ?c"
    using first_client_runs [of 1 "\<lambda>k. lying_world"] by auto
  have "client_turn lying_world InLoop (?c\<lparr>app_state := app_state ?c\<rparr>) = Inl EnvContract"
    by code_simp
  then have run: "example_process main_world (\<lambda>k. lying_world) (first_schedule 1 @ [Of_client 0]) static_process =
      Inl EnvContract"
    using pr by (simp add: started_process(1) run_process_append thn_def bnd_def process_step_def
        uncaught_def client_move_def)
  from client_turn_errors [OF pr(1) _ _ _ _ run] pr run show ?thesis by simp
qed

end
