(* ===== verification/Doip_Identity.thy ===== *)
theory Doip_Identity
  imports Doip_Server
begin

text \<open>
  The identity of the vehicle: what the server tells of itself in every vehicle identification
  response and announcement, as a function of the calls the application made. The calls of the
  class \<open>DoIPServer\<close> are labels, a run is a list of them, and the state they leave is refined
  against an abstract identity that only the setters change.
\<close>

section \<open>The calls of the server\<close>

datatype server_call =
    SetUp bool
  | SetUpUdp
  | AcceptTcp
  | AcceptTls
  | ReceiveUdp
  | CloseTls
  | CloseTcp
  | CloseUdp
  | Announce
  | EIDdefault
  | GiveVIN string
  | GiveGateway u16
  | GiveEID u64
  | GiveGID u64
  | GiveFAR u32
  | GiveNum int
  | GiveInterval int

text \<open>What a call does; what it returns does not matter here.\<close>

definition forget :: "'r server_prog \<Rightarrow> unit server_prog" where
  "forget m = bnd m (\<lambda>_. return ())"

fun run_call :: "env \<Rightarrow> server_call \<Rightarrow> unit server_prog" where
  "run_call env (SetUp isTls) = setupTcpOrTlsSocket env isTls"
| "run_call env SetUpUdp = setupUdpSocket env"
| "run_call env AcceptTcp =
     forget (waitForTcpConnection env () :: (unit, unit) DoIPConnection server_prog)"
| "run_call env AcceptTls =
     forget (waitForTlsConnection env () :: (unit, unit) DoIPConnection server_prog)"
| "run_call env ReceiveUdp = forget (receiveUdpMessage env)"
| "run_call env CloseTls = closeTlsSocket env"
| "run_call env CloseTcp = closeTcpSocket env"
| "run_call env CloseUdp = closeUdpSocket env"
| "run_call env Announce = forget (sendVehicleAnnouncement env)"
| "run_call env EIDdefault = setEIDdefault env"
| "run_call env (GiveVIN v) = setVIN v"
| "run_call env (GiveGateway a) = setLogicalGatewayAddress a"
| "run_call env (GiveEID x) = setEID x"
| "run_call env (GiveGID x) = setGID x"
| "run_call env (GiveFAR x) = setFAR x"
| "run_call env (GiveNum i) = setA_DoIP_Announce_Num i"
| "run_call env (GiveInterval i) = setA_DoIP_Announce_Interval i"

primrec run_calls :: "env \<Rightarrow> server_call list \<Rightarrow> unit server_prog" where
  "run_calls env [] = return ()"
| "run_calls env (k # ks) = thn (run_call env k) (run_calls env ks)"

section \<open>The abstract identity\<close>

text \<open>The EID was never set, was given, or is the hardware address.\<close>

datatype eid_source = NoEID | GivenEID u64 | HardwareEID

record identity =
  id_vin :: string
  id_gateway :: u16
  id_eid :: eid_source
  id_gid :: u64
  id_far :: u32
  id_num :: int
  id_interval :: int

definition new_identity :: identity where
  "new_identity =
     \<lparr>id_vin = ''00000000000000000'', id_gateway = 0, id_eid = NoEID, id_gid = 0, id_far = 0,
      id_num = 3, id_interval = 500\<rparr>"

text \<open>Only the setters change it.\<close>

fun identity_call :: "identity \<Rightarrow> server_call \<Rightarrow> identity" where
  "identity_call i EIDdefault = i\<lparr>id_eid := HardwareEID\<rparr>"
| "identity_call i (GiveVIN v) = i\<lparr>id_vin := v\<rparr>"
| "identity_call i (GiveGateway a) = i\<lparr>id_gateway := a\<rparr>"
| "identity_call i (GiveEID x) = i\<lparr>id_eid := GivenEID x\<rparr>"
| "identity_call i (GiveGID x) = i\<lparr>id_gid := x\<rparr>"
| "identity_call i (GiveFAR x) = i\<lparr>id_far := x\<rparr>"
| "identity_call i (GiveNum n) = i\<lparr>id_num := n\<rparr>"
| "identity_call i (GiveInterval n) = i\<lparr>id_interval := n\<rparr>"
| "identity_call i _ = i"

definition identity_of :: "server_call list \<Rightarrow> identity" where
  "identity_of ks = foldl identity_call new_identity ks"

text \<open>
  The hardware address that a history knows: the first six bytes of the last answer, and
  unwritten cells for what it did not deliver.
\<close>

definition answered_address :: "answer \<Rightarrow> buffer" where
  "answered_address a = take 6 ((if 0 \<le> ret a then map Some (bytes a) else []) @ replicate 6 None)"

definition hardware_address :: "history \<Rightarrow> buffer" where
  "hardware_address tr =
     foldl (\<lambda>e (k, a). if hardware_query k then answered_address a else e) (replicate 6 None) tr"

lemma hardware_address_step:
  "hardware_address (tr @ [(k, a)]) =
   (if hardware_query k then answered_address a else hardware_address tr)"
  by (simp add: hardware_address_def)

definition eid_cells :: "history \<Rightarrow> eid_source \<Rightarrow> buffer" where
  "eid_cells tr e =
     (case e of NoEID \<Rightarrow> replicate 6 None
      | GivenEID x \<Rightarrow> map Some (id_bytes x)
      | HardwareEID \<Rightarrow> hardware_address tr)"

text \<open>The vehicle identification message of an identity (ISO 13400-2, table 5).\<close>

definition identity_message :: "history \<Rightarrow> identity \<Rightarrow> buffer" where
  "identity_message tr i =
     map Some (header_bytes (0x00, 0x04) 32 @ vin_field (id_vin i) @
       [ucast (drop_bit 8 (id_gateway i)), ucast (id_gateway i)]) @
     eid_cells tr (id_eid i) @ map Some (id_bytes (id_gid i)) @ [Some (ucast (id_far i))]"

section \<open>The calls refine it\<close>

definition has_identity :: "identity \<Rightarrow> DoIPServer \<Rightarrow> bool" where
  "has_identity i s \<longleftrightarrow>
     VIN s = id_vin i \<and> LogicalGatewayAddress s = id_gateway i \<and>
     EID s = eid_cells (trace s) (id_eid i) \<and> GID s = map Some (id_bytes (id_gid i)) \<and>
     FurtherActionReq s = ucast (id_far i) \<and> A_DoIP_Announce_Num s = id_num i \<and>
     A_DoIP_Announce_Interval s = id_interval i"

interpretation identity: server_invariant "has_identity i" for i
  by unfold_locales
     (simp_all add: has_identity_def eid_cells_def hardware_address_step split: eid_source.splits)

lemma hardware_address_length [simp]: "length (hardware_address tr) = 6"
  by (induction tr rule: rev_induct)
     (auto simp: hardware_address_def answered_address_def split: prod.splits)

lemma eid_cells_length [simp]: "length (eid_cells tr e) = 6"
  by (cases e) (simp_all add: eid_cells_def)

lemma low_byte: "byte_at 0 w = ucast w"
  by (rule bit_word_eqI) (auto simp: bit_byte_at bit_simps)

lemma high_byte: "byte_at 8 w = ucast (drop_bit 8 w)"
  by (rule bit_word_eqI) (auto simp: bit_byte_at bit_simps)

lemma has_identity_new: "has_identity new_identity (newDoIPServer tr)"
proof -
  have "replicate 6 (Some 0) = map Some (id_bytes 0)" by code_simp
  then show ?thesis
    by (simp add: has_identity_def new_identity_def newDoIPServer_def eid_cells_def
        del: replicate_Cons_numeral)
qed

lemma has_identity_message:
  assumes "has_identity i s"
  shows "vehicle_message s = Inr (identity_message (trace s) i)"
  using assms
  by (simp add: vehicle_message_def createVehicleIdentificationResponse_eq has_identity_def
      identity_message_def low_byte high_byte)

lemma first_six: "take 6 (take 14 (xs @ replicate 14 c)) = take 6 (xs @ replicate 6 c)"
proof -
  have "take 6 (take 14 (xs @ replicate 14 c)) = take 6 (xs @ replicate 14 c)"
    unfolding take_take by simp
  moreover have "take (6 - length xs) (replicate 14 c) = take (6 - length xs) (replicate 6 c)"
    unfolding take_replicate by simp
  ultimately show ?thesis by (simp only: take_append)
qed

text \<open>\<open>setEIDdefault\<close>: the first six of the fourteen bytes of \<open>sa_data\<close>.\<close>

lemma setEIDdefault_stores:
  assumes "length (EID s) = 6" and "f = env (trace s) (Socket False)"
    and "a = env (trace s @ [(Socket False, f)]) (GetHwAddr (ret f) ''ens33'')"
    and "tr = [(Socket False, f), (GetHwAddr (ret f) ''ens33'', a)]"
  shows "setEIDdefault env s =
         Inr ((), s\<lparr>trace := trace s @ tr @ [(CloseFd (ret f), env (trace s @ tr) (CloseFd (ret f)))],
                    EID := answered_address a\<rparr>)"
proof -
  let ?mac = "take 14 ((if 0 \<le> ret a then map Some (bytes a) else []) @ replicate 14 None)"
  have "copy_loop 6 (EID s) 0 mac 0 = Inr (take 6 mac)" if "length mac = 14" for mac
    using that assms(1) by (simp add: copy_loop_eq)
  moreover have "length ?mac = 14" by simp
  ultimately have copied: "copy_loop 6 (EID s) 0 ?mac 0 = Inr (answered_address a)"
    unfolding answered_address_def first_six [symmetric] by blast
  show ?thesis
    unfolding setEIDdefault_def Let_def
    using copied
    by (cases "0 \<le> ret a")
       (simp_all add: run_simps assms(2) [symmetric] assms(3) [symmetric] assms(4)
         del: take_append replicate_Cons_numeral)
qed

lemma has_identity_default:
  assumes "setEIDdefault env s = Inr (u, s')" and "has_identity i s"
  shows "has_identity (i\<lparr>id_eid := HardwareEID\<rparr>) s'"
proof -
  have "length (EID s) = 6" using assms(2) by (simp add: has_identity_def)
  from setEIDdefault_stores [where env = env, OF this refl refl refl] assms show ?thesis
    by (auto simp: has_identity_def eid_cells_def hardware_address_def hardware_query_def)
qed

lemma run_call_refines:
  assumes "run_call env k s = Inr (u, s')" and "has_identity i s"
  shows "has_identity (identity_call i k) s'"
proof -
  have keeps: "has_identity i s'" if "preserves (has_identity i) (run_call env k)"
    using preservesD [OF that assms] .
  have forget: "preserves (has_identity i) (forget m)" if "preserves (has_identity i) m"
    for m :: "'r server_prog"
    unfolding forget_def by (intro pres that)
  note inv = identity.inv_setup identity.inv_setup_udp identity.inv_accept identity.inv_receive_udp
    identity.inv_close identity.inv_announce
  have len: "length (EID s) = 6" "length (GID s) = 6" using assms(2) by (simp_all add: has_identity_def)
  show ?thesis
  proof (cases k)
    case EIDdefault
    with assms show ?thesis by (simp add: has_identity_default)
  next
    case (GiveEID x)
    with assms len show ?thesis
      by (auto simp: setEID_def prog_eq_Inr write_id_eq has_identity_def eid_cells_def)
  next
    case (GiveGID x)
    with assms len show ?thesis
      by (auto simp: setGID_def prog_eq_Inr write_id_eq has_identity_def)
  next
    case (GiveFAR x)
    with assms show ?thesis by (auto simp: setFAR_def prog_eq_Inr has_identity_def low_byte)
  next
    case (GiveVIN v)
    with assms show ?thesis by (auto simp: setVIN_def prog_eq_Inr has_identity_def)
  next
    case (GiveGateway a)
    with assms show ?thesis by (auto simp: setLogicalGatewayAddress_def prog_eq_Inr has_identity_def)
  next
    case (GiveNum n)
    with assms show ?thesis by (auto simp: setA_DoIP_Announce_Num_def prog_eq_Inr has_identity_def)
  next
    case (GiveInterval n)
    with assms show ?thesis
      by (auto simp: setA_DoIP_Announce_Interval_def prog_eq_Inr has_identity_def)
  qed (simp_all add: keeps forget inv)
qed

lemma run_calls_refine:
  assumes "run_calls env ks s = Inr (u, s')" and "has_identity i s"
  shows "has_identity (foldl identity_call i ks) s'"
  using assms
proof (induction ks arbitrary: i s)
  case Nil
  then show ?case by (simp add: return_eq_Inr)
next
  case (Cons k ks)
  then obtain s1 where "run_call env k s = Inr ((), s1)" and "run_calls env ks s1 = Inr (u, s')"
    by (auto simp: thn_eq_Inr)
  with Cons show ?case by (auto dest: run_call_refines)
qed

section \<open>The property\<close>

text \<open>
  C31. The vehicle's identity. Whatever calls an application makes on a new server, in any
  order and with whatever network traffic in between, if they return then the vehicle
  identification message is that of the abstract identity, which only the setters change: the
  VIN padded to 17 characters, the gateway address, the EID that was set last, the low 48 bits
  of the GID and the low byte of the further action code that were set last, each at its place.
  The EID is unwritten memory if none was ever set, and after \<open>setEIDdefault\<close> it
  is the hardware address of the last query. The announcement count and interval are those set
  last.
\<close>

theorem identity_of_calls:
  assumes "run_calls env ks (newDoIPServer tr) = Inr ((), s)"
  shows "vehicle_message s = Inr (identity_message (trace s) (identity_of ks)) \<and>
         A_DoIP_Announce_Num s = id_num (identity_of ks) \<and>
         A_DoIP_Announce_Interval s = id_interval (identity_of ks)"
proof -
  have "has_identity (identity_of ks) s"
    unfolding identity_of_def using assms has_identity_new by (rule run_calls_refine)
  with has_identity_message show ?thesis by (simp add: has_identity_def)
qed

theorem identity_of_calls_witness:
  "\<exists>s. run_calls (\<lambda>tr k. \<lparr>ret = 0, bytes = [1, 2, 3, 4, 5, 6, 7, 8, 9, 10, 11, 12, 13, 14], sender = uninit_sockaddr\<rparr>)
         [GiveVIN ''FOOBAR'', EIDdefault, GiveGID 0x0A0B0C0D0E0F] (newDoIPServer []) = Inr ((), s) \<and>
       vehicle_message s = Inr (map Some (header_bytes (0x00, 0x04) 32 @ vin_field ''FOOBAR'' @ [0, 0] @
         [1, 2, 3, 4, 5, 6] @ [0x0A, 0x0B, 0x0C, 0x0D, 0x0E, 0x0F] @ [0]))"
proof -
  let ?a = "\<lparr>ret = 0, bytes = [1, 2, 3, 4, 5, 6, 7, 8, 9, 10, 11, 12, 13, 14], sender = uninit_sockaddr\<rparr>"
  let ?ks = "[GiveVIN ''FOOBAR'', EIDdefault, GiveGID 0x0A0B0C0D0E0F]"
  let ?s = "(newDoIPServer [])\<lparr>VIN := ''FOOBAR''\<rparr>"
  have "length (EID ?s) = 6" by (simp add: newDoIPServer_def)
  from setEIDdefault_stores [where env = "\<lambda>tr k. ?a", OF this refl refl refl] obtain tr where
    default: "setEIDdefault (\<lambda>tr k. ?a) ?s = Inr ((), ?s\<lparr>trace := tr, EID := answered_address ?a\<rparr>)"
    and hw: "hardware_address tr = answered_address ?a"
    by (auto simp: newDoIPServer_def hardware_address_def hardware_query_def
        simp del: replicate_Cons_numeral)
  obtain s where run: "run_calls (\<lambda>tr k. ?a) ?ks (newDoIPServer []) = Inr ((), s)" and "trace s = tr"
    using default by (simp add: setVIN_def setGID_def run_simps thn_def bnd_def write_id_eq
        newDoIPServer_def del: replicate_Cons_numeral)
  moreover have "answered_address ?a = map Some [1, 2, 3, 4, 5, 6]" by code_simp
  moreover have "id_bytes 0x0A0B0C0D0E0F = [0x0A, 0x0B, 0x0C, 0x0D, 0x0E, 0x0F]" by code_simp
  ultimately show ?thesis
    using identity_of_calls [OF run] hw
    by (simp add: identity_message_def identity_of_def new_identity_def eid_cells_def)
qed

end
