(* ===== verification/Doip_Wire.thy ===== *)
theory Doip_Wire
  imports Doip_Connection_Ops
begin

text \<open>
  What the library's messages mean: the properties of the generic header, of the diagnostic
  messages and of routing activation, each stated of the code's functions alone.
\<close>

section \<open>The generic header\<close>

text \<open>
  C9. The parser of the generic header agrees with its reference. On any buffer that starts
  with eight written bytes \<open>parseGenericHeader\<close> returns, and the action it returns
  stands for the verdict that the tables of \<open>header_spec\<close> give (synchronisation
  pattern, then payload type, then length), while a length argument below eight leaves every
  field unwritten.
\<close>

theorem parseGenericHeader_refines:
  assumes "8 \<le> length h"
  shows "\<exists>a. parseGenericHeader (map Some h @ rest) n = Inr a \<and>
             (if n < 8 then a = uninit_action else verdict_of a = Some (header_spec h))"
proof (cases "n < 8")
  case True
  then show ?thesis by (simp add: parse_short)
next
  case False
  then show ?thesis using parse_header_eq [OF assms, of n rest] by simp
qed

theorem parseGenericHeader_refines_witness:
  "\<exists>a. parseGenericHeader (map Some [0x02, 0xFD, 0x80, 0x01, 0, 0, 0, 5] @ [None]) 8 = Inr a \<and>
       verdict_of a = Some (Accepted DIAGNOSTICMESSAGE 5)"
proof -
  have "header_spec [0x02, 0xFD, 0x80, 0x01, 0, 0, 0, 5] = Accepted DIAGNOSTICMESSAGE 5"
    by code_simp
  then show ?thesis
    using parseGenericHeader_refines [of "[0x02, 0xFD, 0x80, 0x01, 0, 0, 0, 5]" "[None]" 8] by simp
qed

text \<open>
  C21. Creating a header. For every type and every 32-bit length,
  \<open>createGenericHeader\<close> fails with a write out of bounds exactly when eight plus
  the length wraps around 32 bits, and otherwise yields version, inverse version, the type's
  code and the length in big-endian order, followed by as many unwritten bytes as the length
  says; types without a code leave the two type bytes unwritten.
\<close>

theorem createGenericHeader_outcome:
  "createGenericHeader t len =
   (if 2 ^ 32 - 8 \<le> unat len then Inl OutOfBounds
    else Inr ((case wire_type t of
                 Some w \<Rightarrow> map Some (header_bytes w len)
               | None \<Rightarrow> (map Some (header_bytes (0, 0) len))[2 := None, 3 := None])
              @ replicate (unat len) None))"
  by (auto simp: createGenericHeader_overflow createGenericHeader_eq createGenericHeader_untyped
      not_le split: option.split)

text \<open>
  C15. Header round trip. For each payload type with a code on the wire and each length that
  leaves room for the header, parsing what \<open>createGenericHeader\<close> writes gives the
  same type and length when the length is one the type allows, and otherwise the invalid length
  code. Negative acknowledgements, routing activation responses and alive check responses are
  written but not recognised on reading.
\<close>

theorem header_round_trip:
  assumes "unat len < 2 ^ 32 - 8" and "wire_type t = Some w" and "8 \<le> n"
  shows "\<exists>m a. createGenericHeader t len = Inr m \<and> parseGenericHeader m n = Inr a \<and>
           verdict_of a = Some
             (if t \<in> {NEGATIVEACK, ROUTINGACTIVATIONRESPONSE, ALIVECHECKRESPONSE}
              then Rejected UnknownPayloadTypeCode (unat len)
              else if length_table t (unat len) then Accepted t (unat len)
              else Rejected InvalidPayloadLengthCode (unat len))"
proof -
  have "header_spec (header_bytes w len @ []) =
      (if t \<in> {NEGATIVEACK, ROUTINGACTIVATIONRESPONSE, ALIVECHECKRESPONSE}
       then Rejected UnknownPayloadTypeCode (unat len)
       else if length_table t (unat len) then Accepted t (unat len)
       else Rejected InvalidPayloadLengthCode (unat len))"
    unfolding header_spec_bytes using assms(2)
    by (cases t) (auto simp: type_table.simps)
  then show ?thesis
    using parse_header_eq [of "header_bytes w len" n "replicate (unat len) None"] assms
    by (simp add: createGenericHeader_eq)
qed

theorem header_round_trip_witness:
  "\<exists>m a. createGenericHeader DIAGNOSTICMESSAGE 6 = Inr m \<and> parseGenericHeader m 8 = Inr a \<and>
         verdict_of a = Some (Accepted DIAGNOSTICMESSAGE 6)"
  using header_round_trip [of 6 DIAGNOSTICMESSAGE "(0x80, 0x01)" 8] by simp

text \<open>
  Short acknowledgements are accepted. On a header of a diagnostic acknowledgement whose
  length is below five, the parser stores the invalid length code but returns the type of the
  acknowledgement, not a negative acknowledgement, since the branch has no return.
\<close>

lemma short_ack_accepted:
  assumes "positive \<longleftrightarrow> lo = 0x02" and "lo \<in> {0x02, 0x03}" and "unat len < 5"
  shows "parseGenericHeader (map Some (header_bytes (0x80, lo) len) @ rest) 8 =
         Inr \<lparr>action_type = Some (if positive then DIAGNOSTICPOSITIVEACK else DIAGNOSTICNEGATIVEACK),
              action_value = Some InvalidPayloadLengthCode,
              action_payloadLength = Some (ucast len)\<rparr>"
  using assms
  by (auto simp: parse_synced type_table.simps checked_action_def nack_action_def uninit_action_def
      u32_eq_numeral_iff)

lemma short_ack_accepted_witness:
  "parseGenericHeader (map Some (header_bytes (0x80, 0x03) 4)) 8 =
   Inr \<lparr>action_type = Some DIAGNOSTICNEGATIVEACK, action_value = Some InvalidPayloadLengthCode,
        action_payloadLength = Some 4\<rparr>"
  using short_ack_accepted [of False 3 4 "[]"] by simp

lemma byte_at_be16 [simp]: "byte_at 8 (be16 a b) = a" "byte_at 0 (be16 a b) = b"
  by (rule bit_word_eqI; auto simp: bit_byte_at be16_def bit_simps dest: bit_imp_le_length)+

section \<open>Diagnostic messages\<close>

text \<open>
  C14. Diagnostic message round trip. The message that \<open>createDiagnosticMessage\<close>
  builds from a source address, a target address and any non-empty data is accepted by the
  header parser with the right type and length, and \<open>parseDiagnosticMessage\<close> on
  its payload delivers exactly the target address and the data when the source address is the
  routed one, and answers with the invalid source address code, delivering nothing, when it is
  not.
\<close>

theorem diagnostic_round_trip:
  assumes "0 < length data" and "int (length data) \<le> int_max - 4"
    and "client = Some (Some a # Some b # r)"
  shows "\<exists>m act. createDiagnosticMessage sa (Some [Some ty, Some tz]) data (int (length data)) = Inr m \<and>
           length m = 12 + length data \<and> parseGenericHeader m 8 = Inr act \<and>
           verdict_of act = Some (Accepted DIAGNOSTICMESSAGE (4 + length data)) \<and>
           parseDiagnosticMessage deliver client (Some (drop 8 m)) (4 + int (length data)) s =
             (if be16 a b = sa
              then thn (deliver (be16 ty tz) data (int (length data))) (return ValidDiagnosticMessageCode) s
              else Inr (InvalidSourceAddressCode, s))"
proof -
  let ?n = "int (length data)"
  let ?w = "word_of_int (4 + ?n) :: u32"
  let ?m = "map Some (header_bytes (0x80, 0x01) ?w) @
            [Some (byte_at 8 sa), Some (byte_at 0 sa), Some ty, Some tz] @ data"
  have built: "createDiagnosticMessage sa (Some [Some ty, Some tz]) data ?n = Inr ?m"
    using createDiagnosticMessage_eq [of "[Some ty, Some tz]" ?n data sa] assms by simp
  have w: "unat ?w = 4 + length data"
    using unat_word_of_int_u32 [of "4 + ?n"] assms(2) by (simp add: int_max_def nat_add_distrib)
  have "header_spec (header_bytes (0x80, 0x01) ?w @ []) = Accepted DIAGNOSTICMESSAGE (4 + length data)"
    unfolding header_spec_bytes w using assms(1) by (simp add: type_table.simps)
  then obtain act where parse: "parseGenericHeader ?m 8 = Inr act"
    and v: "verdict_of act = Some (Accepted DIAGNOSTICMESSAGE (4 + length data))"
    using parse_header_eq [of "header_bytes (0x80, 0x01) ?w" 8] by auto
  have "be16 a b = sa \<longleftrightarrow> (byte_at 8 sa, byte_at 0 sa) = (a, b)"
    by (metis be16_byte_at byte_at_be16 prod.inject)
  then have "parseDiagnosticMessage deliver client (Some (drop 8 ?m)) (4 + ?n) s =
      (if be16 a b = sa
       then thn (deliver (be16 ty tz) data ?n) (return ValidDiagnosticMessageCode) s
       else Inr (InvalidSourceAddressCode, s))"
    using parseDiagnosticMessage_other_address [of "4 + ?n" "byte_at 8 sa" "byte_at 0 sa" a b deliver r
        "Some ty # Some tz # data" s]
      parseDiagnosticMessage_delivers [of "4 + ?n" data deliver a b r ty tz s]
    by (auto simp: assms(3))
  with built parse v show ?thesis by simp
qed

theorem diagnostic_round_trip_witness:
  "\<exists>m act. createDiagnosticMessage 0x0E00 (Some [Some 0, Some 0x28]) [Some 0x22] 1 = Inr m \<and>
     length m = 13 \<and> parseGenericHeader m 8 = Inr act \<and>
     verdict_of act = Some (Accepted DIAGNOSTICMESSAGE 5) \<and>
     parseDiagnosticMessage (\<lambda>ta d n s. Inr ((), (ta, d, n) # s)) (Some [Some 0x0E, Some 0])
       (Some (drop 8 m)) 5 [] = Inr (ValidDiagnosticMessageCode, [(0x28, [Some 0x22], 1)])"
proof -
  have addresses: "be16 0x0E 0 = 0x0E00" "be16 0 0x28 = 0x28" by code_simp+
  show ?thesis
    using diagnostic_round_trip [where data = "[Some 0x22]" and sa = "0x0E00" and a = "0x0E" and b = 0
        and ty = 0 and tz = "0x28" and r = "[]" and s = "[]"
        and deliver = "\<lambda>ta d n s. Inr ((), (ta, d, n) # s)"]
    by (simp add: addresses int_max_def thn_def bnd_def return_def)
qed

text \<open>
  C22. Parsing a diagnostic message, on every branch: a payload shorter than four bytes gets
  the unknown target address code, a source address other than the routed one the invalid
  source address code, both without calling the application; otherwise the application is
  called once with the target address and the data behind the addresses.
\<close>

theorem parseDiagnosticMessage_outcome:
  "parseDiagnosticMessage deliver (Some [Some sa1, Some sa0]) (Some (map Some p)) (int (length p)) s =
   (if length p < 4 then Inr (UnknownTargetAddressCode, s)
    else if take 2 p \<noteq> [sa1, sa0] then Inr (InvalidSourceAddressCode, s)
    else thn (deliver (be16 (p ! 2) (p ! 3)) (map Some (drop 4 p)) (int (length p) - 4))
           (return ValidDiagnosticMessageCode) s)"
proof (cases "length p < 4")
  case True
  then show ?thesis by (simp add: parseDiagnosticMessage_short return_def)
next
  case False
  then obtain a b t1 t0 d where p: "p = a # b # t1 # t0 # d"
    by (cases p; cases "tl p"; cases "tl (tl p)"; cases "tl (tl (tl p))") auto
  then show ?thesis
    using parseDiagnosticMessage_other_address [of "int (length p)" a b sa1 sa0 deliver "[]" "map Some (t1 # t0 # d)" s]
      parseDiagnosticMessage_delivers [of "int (length p)" "map Some d" deliver sa1 sa0 "[]" t1 t0 s]
    by auto
qed

text \<open>
  Acknowledgement round trip. \<open>createDiagnosticACK\<close> writes the thirteen bytes
  of a positive or negative acknowledgement; the header parser accepts them with the right
  type, and byte 12, which the client reads, is the code.
\<close>

lemma diagnostic_ack_round_trip:
  "\<exists>m act. createDiagnosticACK positive sa [Some a, Some b] code = Inr m \<and>
           m = map Some (ack_message positive sa a b code) \<and>
           parseGenericHeader m 13 = Inr act \<and>
           verdict_of act =
             Some (Accepted (if positive then DIAGNOSTICPOSITIVEACK else DIAGNOSTICNEGATIVEACK) 5) \<and>
           rd m 12 = Inr code"
proof -
  let ?lo = "if positive then 0x02 else 0x03 :: byte"
  have "unat (5 :: u32) = 5" by simp
  then have "header_spec (header_bytes (0x80, ?lo) 5 @ []) =
      Accepted (if positive then DIAGNOSTICPOSITIVEACK else DIAGNOSTICNEGATIVEACK) 5"
    unfolding header_spec_bytes by (simp add: type_table.simps)
  then show ?thesis
    using parse_header_eq [of "header_bytes (0x80, ?lo) 5" 13
        "map Some [byte_at 8 sa, byte_at 0 sa, a, b, code]"]
    by (simp add: createDiagnosticACK_eq ack_message_def rd_def cell_def nth_append)
qed

section \<open>Routing activation\<close>

text \<open>
  C23. Routing activation, on every payload: an address outside 0x0E00 to 0x0FFF is refused as
  unknown, then an activation type other than 0x00 and 0x01 as unsupported, and anything else
  is activated; a payload of fewer than two bytes, or of two bytes with a known address, is
  read out of bounds.
\<close>

theorem parseRoutingActivation_outcome:
  "parseRoutingActivation (map Some p) =
   (case p of
      a # b # rest \<Rightarrow>
        if be16 a b \<notin> {0x0E00 .. 0x0FFF} then Inr UnknownSourceAddressCode
        else (case rest of
                [] \<Rightarrow> Inl OutOfBounds
              | t # _ \<Rightarrow> Inr (if t \<in> {0x00, 0x01} then SuccessfullyRoutedCode
                               else UnsupportedRoutingTypeCode))
    | _ \<Rightarrow> Inl OutOfBounds)"
proof (cases "2 < length p")
  case True
  then obtain a b t r where "p = a # b # t # r"
    by (metis One_nat_def Suc_1 Suc_le_length_iff Suc_le_eq)
  then show ?thesis by (auto simp: parseRoutingActivation_eq)
next
  case False
  then consider "p = []" | a where "p = [a]" | a b where "p = [a, b]"
    by (cases p; cases "tl p"; cases "tl (tl p)") auto
  then show ?thesis
  proof cases
    case 3
    have "unat (be16 a b) < 2 ^ 16" using unsigned_less [of "be16 a b"] by simp
    then have "unat (ucast (be16 a b) :: u32) = unat (be16 a b)"
      by (simp add: unsigned_ucast_eq take_bit_nat_eq_self_iff)
    with 3 show ?thesis
      by (auto simp: parseRoutingActivation_def rd_def cell_def address_word Let_def
          checkSourceAddress_iff word_le_nat_alt)
  qed (simp_all add: parseRoutingActivation_def rd_def cell_def)
qed

end
