(* ===== verification/Doip_Client.thy ===== *)
theory Doip_Client
  imports Doip_Env Doip_Diagnostic
begin

text \<open>
  The tester's side, \<open>libdoipclient/src/DoIPClient.cpp\<close> and the class in \<open>DoIPClient_h.h\<close>:
  connecting, requesting routing activation, sending diagnostic messages, discovering vehicles
  and reading their identification. The record \<open>DoIPClient\<close> has one field per member.

  \<open>startTcpConnection\<close> calls \<open>connect\<close> until it succeeds, perhaps for ever. Its first argument
  bounds the number of calls; the result says whether the method has returned.
\<close>

section \<open>State (DoIPClient\_h.h)\<close>

definition serverPortNr :: u16 where "serverPortNr = 13400"
definition maxDataSize :: nat where "maxDataSize = 64"

record DoIPClient = world +
  receivedData :: buffer
  sockFd :: "int option"
  sockFd_udp :: "int option"
  connected :: "int option"
  client_broadcast :: int
  serverAddr :: sockaddr_in
  clientAddr :: sockaddr_in
  sourceAddress :: buffer
  VINResult :: buffer
  LogicalAddressResult :: buffer
  EIDResult :: buffer
  GIDResult :: buffer
  FurtherActionReqResult :: "byte option"
  emptyMessageCounter :: int

type_synonym 'a client_prog = "(DoIPClient, 'a) prog"

definition newDoIPClient :: "history \<Rightarrow> DoIPClient" where
  "newDoIPClient tr =
     \<lparr>trace = tr, receivedData = replicate maxDataSize None, sockFd = None, sockFd_udp = None,
      connected = None, client_broadcast = 1, serverAddr = uninit_sockaddr,
      clientAddr = uninit_sockaddr, sourceAddress = replicate 2 None,
      VINResult = replicate 17 None, LogicalAddressResult = replicate 2 None,
      EIDResult = replicate 6 None, GIDResult = replicate 6 None,
      FurtherActionReqResult = None, emptyMessageCounter = 0\<rparr>"

section \<open>Connections\<close>

text \<open>\<open>while(!connectedFlag) _connected = connect(...)\<close>\<close>

primrec connect_loop :: "nat \<Rightarrow> env \<Rightarrow> int \<Rightarrow> bool client_prog" where
  "connect_loop 0 env fd = return False"
| "connect_loop (Suc n) env fd =
     bnd (gets serverAddr) (\<lambda>a.
     bnd (ext_ret env (Connect fd a)) (\<lambda>r.
     thn (modify (\<lambda>c. c\<lparr>connected := Some r\<rparr>))
         (if r \<noteq> -1 then return True else connect_loop n env fd)))"

definition set_server_text :: "env \<Rightarrow> string \<Rightarrow> unit client_prog" where
  "set_server_text env text =
     bnd (inet_aton env text) (\<lambda>addr.
     on_cond (addr \<noteq> None)
       (modify (\<lambda>c. c\<lparr>serverAddr := (serverAddr c)\<lparr>sin_addr := addr\<rparr>\<rparr>)))"

definition startTcpConnection :: "nat \<Rightarrow> env \<Rightarrow> bool client_prog" where
  "startTcpConnection n env =
     bnd (ext_ret env (Socket True)) (\<lambda>fd.
     thn (modify (\<lambda>c. c\<lparr>sockFd := Some fd\<rparr>))
    (if 0 \<le> fd then
       thn (modify (\<lambda>c. c\<lparr>serverAddr :=
              (serverAddr c)\<lparr>sin_family := Some AF_INET, sin_port := Some serverPortNr\<rparr>\<rparr>))
      (thn (set_server_text env ''127.0.0.1'')
           (connect_loop n env fd))
     else return True))"

definition startUdpConnection :: "env \<Rightarrow> unit client_prog" where
  "startUdpConnection env =
     bnd (ext_ret env (Socket False)) (\<lambda>fd.
     thn (modify (\<lambda>c. c\<lparr>sockFd_udp := Some fd\<rparr>))
    (on_cond (0 \<le> fd)
      (let address = \<lparr>sin_family = Some AF_INET, sin_port = Some serverPortNr,
                      sin_addr = Some INADDR_ANY\<rparr>
       in thn (modify (\<lambda>c. c\<lparr>serverAddr := address, clientAddr := address\<rparr>))
              (bnd (gets clientAddr) (\<lambda>a. ext_do env (Bind fd a))))))"

definition closeTcpConnection :: "env \<Rightarrow> unit client_prog" where
  "closeTcpConnection env =
     bnd (gets sockFd) (\<lambda>fd. bnd (lift (determinate fd)) (\<lambda>fd. ext_do env (CloseFd fd)))"

definition closeUdpConnection :: "env \<Rightarrow> unit client_prog" where
  "closeUdpConnection env =
     bnd (gets sockFd_udp) (\<lambda>fd. bnd (lift (determinate fd)) (\<lambda>fd. ext_do env (CloseFd fd)))"

definition reconnectServer :: "nat \<Rightarrow> env \<Rightarrow> bool client_prog" where
  "reconnectServer n env = thn (closeTcpConnection env) (startTcpConnection n env)"

section \<open>Sending\<close>

text \<open>\<open>write(_sockFd, message, n)\<close>\<close>

definition client_write :: "env \<Rightarrow> buffer \<Rightarrow> int \<Rightarrow> unit client_prog" where
  "client_write env message n =
     bnd (gets sockFd) (\<lambda>fd.
     bnd (lift (determinate fd)) (\<lambda>fd.
     bnd (lift (if 0 \<le> n \<and> nat n \<le> length message then Inr (take (nat n) message)
                else Inl OutOfBounds)) (\<lambda>m. ext_do env (Write fd m))))"

definition buildRoutingActivationRequest :: "(int \<times> buffer) result" where
  "buildRoutingActivationRequest =
     rbind (writes
       [(0, 0x02), (1, 0xFD), (2, 0x00), (3, 0x05), (4, 0x00), (5, 0x00), (6, 0x00), (7, 0x07),
        (8, 0x0E), (9, 0x00), (10, 0x00), (11, 0x00), (12, 0x00), (13, 0x00), (14, 0x00)]
       (replicate 15 None)) (\<lambda>rareq. Inr (15, rareq))"

definition sendRoutingActivationRequest :: "env \<Rightarrow> unit client_prog" where
  "sendRoutingActivationRequest env =
     bnd (lift buildRoutingActivationRequest) (\<lambda>(n, rareq). client_write env rareq n)"

definition sendDiagnosticMessage :: "env \<Rightarrow> ptr \<Rightarrow> buffer \<Rightarrow> int \<Rightarrow> unit client_prog" where
  "sendDiagnosticMessage env targetAddress userData userDataLength =
     bnd (lift (createDiagnosticMessage 0x0E00 targetAddress userData userDataLength)) (\<lambda>message.
     bnd (lift (add_int (GenericHeaderLength + DiagnosticMessageMinimumLength) userDataLength))
       (\<lambda>n. client_write env message n))"

definition sendAliveCheckResponse :: "env \<Rightarrow> unit client_prog" where
  "sendAliveCheckResponse env =
     bnd (lift (createGenericHeader ALIVECHECKRESPONSE (word_of_int 2))) (\<lambda>message.
     bnd (gets sourceAddress) (\<lambda>sa.
     bnd (lift (copy_loop 2 message 8 sa 0)) (\<lambda>message.
     client_write env message (GenericHeaderLength + 2))))"

definition buildVehicleIdentificationRequest :: "(int \<times> buffer) result" where
  "buildVehicleIdentificationRequest =
     rbind (writes
       [(0, 0x02), (1, 0xFD), (2, 0x00), (3, 0x01), (4, 0x00), (5, 0x00), (6, 0x00), (7, 0x00)]
       (replicate 8 None)) (\<lambda>rareq. Inr (8, rareq))"

definition sendVehicleIdentificationRequest :: "env \<Rightarrow> string \<Rightarrow> unit client_prog" where
  "sendVehicleIdentificationRequest env address =
     thn (set_server_text env address)
    (bnd (gets sockFd_udp) (\<lambda>fd.
     bnd (lift (determinate fd)) (\<lambda>fd.
     bnd (gets client_broadcast) (\<lambda>b.
     thn (ext_do env (SetBroadcast fd b))
    (bnd (lift buildVehicleIdentificationRequest) (\<lambda>(n, rareq).
     bnd (gets serverAddr) (\<lambda>a. ext_do env (Sendto fd (take (nat n) rareq) a))))))))"

definition setSourceAddress :: "ptr \<Rightarrow> unit client_prog" where
  "setSourceAddress address =
     bnd (lift (deref address)) (\<lambda>a.
     bnd (gets sourceAddress) (\<lambda>sa.
     bnd (lift (copy_loop 2 sa 0 a 0)) (\<lambda>sa.
     modify (\<lambda>c. c\<lparr>sourceAddress := sa\<rparr>))))"

definition getSockFd :: "int client_prog" where
  "getSockFd = bnd (gets sockFd) (\<lambda>fd. lift (determinate fd))"

definition getConnected :: "int client_prog" where
  "getConnected = bnd (gets connected) (\<lambda>r. lift (determinate r))"

section \<open>Receiving\<close>

text \<open>A receive call stores its bytes at the start of \<open>_receivedData\<close>.\<close>

definition store_received :: "answer \<Rightarrow> unit client_prog" where
  "store_received a =
     (if 0 \<le> ret a \<and> ret a \<noteq> int (length (bytes a)) then fail EnvContract
      else bnd (gets receivedData) (\<lambda>d.
           bnd (lift (put_bytes d 0 (if 0 \<le> ret a then bytes a else []))) (\<lambda>d.
           modify (\<lambda>c. c\<lparr>receivedData := d\<rparr>))))"

text \<open>\<open>printf\<close> reads the bytes it prints.\<close>

fun print_received :: "buffer \<Rightarrow> nat \<Rightarrow> nat \<Rightarrow> byte list result" where
  "print_received d i 0 = Inr []"
| "print_received d i (Suc n) =
     rbind (rd d i) (\<lambda>x. rbind (print_received d (i + 1) n) (\<lambda>xs. Inr (x # xs)))"

text \<open>
  \<open>receiveMessage\<close>; its result says whether it returned, and the code of a diagnostic
  acknowledgement that it printed.
\<close>

definition receiveMessage :: "nat \<Rightarrow> env \<Rightarrow> (bool \<times> byte option) client_prog" where
  "receiveMessage fuel env =
     bnd (gets sockFd) (\<lambda>fd.
     bnd (lift (determinate fd)) (\<lambda>fd.
     bnd (ext_call env (Recv fd (of_nat maxDataSize))) (\<lambda>a.
     thn (store_received a)
    (if ret a = 0 then
       bnd (gets emptyMessageCounter) (\<lambda>n.
       bnd (lift (add_int n 1)) (\<lambda>n.
       thn (modify (\<lambda>c. c\<lparr>emptyMessageCounter := n\<rparr>))
      (if n = 5 then
         thn (modify (\<lambda>c. c\<lparr>emptyMessageCounter := 0\<rparr>))
        (bnd (reconnectServer fuel env) (\<lambda>b. return (b, None)))
       else return (True, None))))
     else
       bnd (gets receivedData) (\<lambda>d.
       bnd (lift (print_received d 0 (nat (ret a)))) (\<lambda>_.
       bnd (lift (parseGenericHeader d (ret a))) (\<lambda>action.
       bnd (lift (determinate (action_type action))) (\<lambda>t.
       if t = DIAGNOSTICPOSITIVEACK \<or> t = DIAGNOSTICNEGATIVEACK
       then bnd (lift (rd d 12)) (\<lambda>code. return (True, Some code))
       else return (True, None)))))))))"

definition parseVIResponseInformation :: "buffer \<Rightarrow> unit client_prog" where
  "parseVIResponseInformation data =
     bnd (gets VINResult) (\<lambda>vin.
     bnd (lift (copy_loop 17 vin 0 data 8)) (\<lambda>vin.
     thn (modify (\<lambda>c. c\<lparr>VINResult := vin\<rparr>))
    (bnd (gets LogicalAddressResult) (\<lambda>la.
     bnd (lift (copy_loop 2 la 0 data 25)) (\<lambda>la.
     thn (modify (\<lambda>c. c\<lparr>LogicalAddressResult := la\<rparr>))
    (bnd (gets EIDResult) (\<lambda>eid.
     bnd (lift (copy_loop 6 eid 0 data 27)) (\<lambda>eid.
     thn (modify (\<lambda>c. c\<lparr>EIDResult := eid\<rparr>))
    (bnd (gets GIDResult) (\<lambda>gid.
     bnd (lift (copy_loop 6 gid 0 data 33)) (\<lambda>gid.
     thn (modify (\<lambda>c. c\<lparr>GIDResult := gid\<rparr>))
    (bnd (lift (cell data 39)) (\<lambda>far.
     modify (\<lambda>c. c\<lparr>FurtherActionReqResult := far\<rparr>))))))))))))))"

definition receiveUdpMessageClient :: "env \<Rightarrow> unit client_prog" where
  "receiveUdpMessageClient env =
     bnd (gets sockFd_udp) (\<lambda>fd.
     bnd (lift (determinate fd)) (\<lambda>fd.
     bnd (ext_call env (Recvfrom fd (of_nat maxDataSize))) (\<lambda>a.
     thn (store_received a)
    (thn (on_cond (0 \<le> ret a) (modify (\<lambda>c. c\<lparr>clientAddr := sender a\<rparr>)))
    (bnd (gets receivedData) (\<lambda>d.
     bnd (lift (parseGenericHeader d (ret a))) (\<lambda>action.
     bnd (lift (determinate (action_type action))) (\<lambda>t.
     on_cond (VEHICLEIDENTRESPONSE = t) (parseVIResponseInformation d)))))))))"

section \<open>Display\<close>

text \<open>The text that \<open>displayVIResponseInformation\<close> prints.\<close>

definition hex_digit :: "nat \<Rightarrow> char" where
  "hex_digit n = ''0123456789ABCDEF'' ! n"

definition hex2 :: "byte \<Rightarrow> string" where
  "hex2 b = [hex_digit (unat b div 16), hex_digit (unat b mod 16)]"

fun show_cells :: "(byte \<Rightarrow> string) \<Rightarrow> buffer \<Rightarrow> nat \<Rightarrow> nat \<Rightarrow> string result" where
  "show_cells f b i 0 = Inr []"
| "show_cells f b i (Suc n) =
     rbind (rd b i) (\<lambda>x. rbind (show_cells f b (i + 1) n) (\<lambda>t. Inr (f x @ t)))"

definition displayVIResponseInformation :: "DoIPClient \<Rightarrow> string result" where
  "displayVIResponseInformation c =
     rbind (show_cells (\<lambda>b. [char_of (unat b)]) (VINResult c) 0 17) (\<lambda>vin.
     rbind (show_cells hex2 (LogicalAddressResult c) 0 2) (\<lambda>la.
     rbind (show_cells hex2 (EIDResult c) 0 6) (\<lambda>eid.
     rbind (show_cells hex2 (GIDResult c) 0 6) (\<lambda>gid.
     rbind (determinate (FurtherActionReqResult c)) (\<lambda>far.
     Inr (''VIN: '' @ vin @ [CHR 0x0A] @ ''LogicalAddress: '' @ la @ [CHR 0x0A] @
          ''EID: '' @ eid @ [CHR 0x0A] @ ''GID: '' @ gid @ [CHR 0x0A] @
          ''FurtherActionRequest: '' @ hex2 far @ [CHR 0x0A]))))))"

section \<open>The members keep their sizes and the counter its range\<close>

definition client_ok :: "DoIPClient \<Rightarrow> bool" where
  "client_ok c \<longleftrightarrow>
     length (receivedData c) = maxDataSize \<and> length (sourceAddress c) = 2 \<and>
     length (VINResult c) = 17 \<and> length (LogicalAddressResult c) = 2 \<and>
     length (EIDResult c) = 6 \<and> length (GIDResult c) = 6 \<and>
     0 \<le> emptyMessageCounter c \<and> emptyMessageCounter c < 5"

lemma client_ok_new: "client_ok (newDoIPClient tr)"
  by (simp add: client_ok_def newDoIPClient_def)

lemma client_ok_unread [simp]:
  "client_ok (c\<lparr>trace := tr\<rparr>) = client_ok c"
  "client_ok (c\<lparr>sockFd := fd\<rparr>) = client_ok c"
  "client_ok (c\<lparr>sockFd_udp := fd\<rparr>) = client_ok c"
  "client_ok (c\<lparr>connected := r\<rparr>) = client_ok c"
  "client_ok (c\<lparr>serverAddr := a\<rparr>) = client_ok c"
  "client_ok (c\<lparr>clientAddr := a\<rparr>) = client_ok c"
  "client_ok (c\<lparr>FurtherActionReqResult := x\<rparr>) = client_ok c"
  by (simp_all add: client_ok_def)

lemma client_ok_calls [pres]:
  "preserves client_ok (ext_call env k)"
  "preserves client_ok (ext_ret env k)"
  "preserves client_ok (ext_do env k)"
  by (simp_all add: preserves_def run_simps)

lemma client_ok_set_server_text [pres]: "preserves client_ok (set_server_text env a)"
  unfolding set_server_text_def inet_aton_def
  by (intro pres preserves_modify) (auto intro!: pres split: list.split)

lemma client_ok_connect_loop [pres]: "preserves client_ok (connect_loop n env fd)"
  by (induction n) (auto intro!: pres preserves_modify)

lemma client_ok_start [pres]: "preserves client_ok (startTcpConnection n env)"
  unfolding startTcpConnection_def by (intro pres preserves_modify) simp_all

lemma client_ok_start_udp [pres]: "preserves client_ok (startUdpConnection env)"
  unfolding startUdpConnection_def Let_def by (intro pres preserves_modify) simp_all

lemma client_ok_close [pres]:
  "preserves client_ok (closeTcpConnection env)" "preserves client_ok (closeUdpConnection env)"
  unfolding closeTcpConnection_def closeUdpConnection_def by (intro pres)+

lemma client_ok_reconnect [pres]: "preserves client_ok (reconnectServer n env)"
  unfolding reconnectServer_def by (intro pres)

lemma client_ok_write [pres]: "preserves client_ok (client_write env m n)"
  unfolding client_write_def by (intro pres)

lemma client_ok_send [pres]:
  "preserves client_ok (sendRoutingActivationRequest env)"
  "preserves client_ok (sendDiagnosticMessage env ta d n)"
  "preserves client_ok (sendAliveCheckResponse env)"
  "preserves client_ok (sendVehicleIdentificationRequest env a)"
  unfolding sendRoutingActivationRequest_def sendDiagnosticMessage_def
    sendAliveCheckResponse_def sendVehicleIdentificationRequest_def
  by (intro pres)+

lemma client_ok_store [pres]: "preserves client_ok (store_received a)"
  by (rule preservesI)
     (auto simp: store_received_def prog_eq_Inr client_ok_def fail_def split: if_splits
       dest!: put_bytes_length)

lemma client_ok_setSourceAddress [pres]: "preserves client_ok (setSourceAddress a)"
proof (rule preservesI)
  fix c u c'
  assume ok: "client_ok c" and run: "setSourceAddress a c = Inr (u, c')"
  then obtain b sa where sa: "copy_loop 2 (sourceAddress c) 0 b 0 = Inr sa"
    and c': "c' = c\<lparr>sourceAddress := sa\<rparr>"
    by (auto simp: setSourceAddress_def prog_eq_Inr)
  from sa have "length sa = length (sourceAddress c)" by (rule copy_loop_length)
  with ok c' show "client_ok c'" by (simp add: client_ok_def)
qed

text \<open>The five fields of a vehicle identification response.\<close>

definition store_response :: "buffer \<Rightarrow> DoIPClient \<Rightarrow> DoIPClient" where
  "store_response d c =
     c\<lparr>VINResult := take 17 (drop 8 d), LogicalAddressResult := take 2 (drop 25 d),
       EIDResult := take 6 (drop 27 d), GIDResult := take 6 (drop 33 d),
       FurtherActionReqResult := d ! 39\<rparr>"

lemma parseVIResponseInformation_eq:
  assumes "client_ok c" and "40 \<le> length d"
  shows "parseVIResponseInformation d c = Inr ((), store_response d c)"
  using assms
  by (simp add: parseVIResponseInformation_def run_simps copy_loop_eq client_ok_def cell_def
      store_response_def)

lemma client_ok_parseVI [pres]: "preserves client_ok (parseVIResponseInformation d)"
proof (rule preservesI)
  fix c u c'
  assume ok: "client_ok c" and "parseVIResponseInformation d c = Inr (u, c')"
  then obtain v l e g f where len: "length v = length (VINResult c)"
    "length l = length (LogicalAddressResult c)" "length e = length (EIDResult c)"
    "length g = length (GIDResult c)"
    and c': "c' = c\<lparr>VINResult := v, LogicalAddressResult := l, EIDResult := e, GIDResult := g,
                    FurtherActionReqResult := f\<rparr>"
    by (auto simp: parseVIResponseInformation_def prog_eq_Inr dest!: copy_loop_length)
  from ok len show "client_ok c'" unfolding c' by (simp add: client_ok_def)
qed

lemma client_ok_receive_udp [pres]: "preserves client_ok (receiveUdpMessageClient env)"
  unfolding receiveUdpMessageClient_def by (intro pres preserves_modify) simp

text \<open>An empty read is counted, and the fifth one makes the client reconnect.\<close>

lemma client_ok_counted: "client_ok c \<Longrightarrow> 0 \<le> i \<Longrightarrow> i < 5 \<Longrightarrow> client_ok (c\<lparr>emptyMessageCounter := i\<rparr>)"
  by (simp add: client_ok_def)

lemma client_ok_receive [pres]: "preserves client_ok (receiveMessage fuel env)"
proof (rule preservesI)
  fix c x c'
  assume ok: "client_ok c" and run: "receiveMessage fuel env c = Inr (x, c')"
  from run obtain a fd c1 where
    store: "store_received a (c\<lparr>trace := trace c @ [(Recv fd (of_nat maxDataSize), a)]\<rparr>) = Inr ((), c1)"
    and rest: "(if ret a = 0 then
       bnd (gets emptyMessageCounter) (\<lambda>n.
       bnd (lift (add_int n 1)) (\<lambda>n.
       thn (modify (\<lambda>c. c\<lparr>emptyMessageCounter := n\<rparr>))
      (if n = 5 then
         thn (modify (\<lambda>c. c\<lparr>emptyMessageCounter := 0\<rparr>))
        (bnd (reconnectServer fuel env) (\<lambda>b. return (b, None)))
       else return (True, None))))
     else
       bnd (gets receivedData) (\<lambda>d.
       bnd (lift (print_received d 0 (nat (ret a)))) (\<lambda>_.
       bnd (lift (parseGenericHeader d (ret a))) (\<lambda>action.
       bnd (lift (determinate (action_type action))) (\<lambda>t.
       if t = DIAGNOSTICPOSITIVEACK \<or> t = DIAGNOSTICNEGATIVEACK
       then bnd (lift (rd d 12)) (\<lambda>code. return (True, Some code))
       else return (True, None)))))) c1 = Inr (x, c')"
    by (auto simp: receiveMessage_def bnd_eq_Inr thn_eq_Inr gets_eq_Inr lift_eq_Inr ext_call_run)
  have ok1: "client_ok c1"
    using store by (rule preservesD [OF client_ok_store]) (simp add: ok)
  show "client_ok c'"
  proof (cases "ret a = 0")
    case False
    with rest have "c' = c1" by (auto simp: prog_eq_Inr split: if_splits)
    with ok1 show ?thesis by simp
  next
    case True
    let ?n = "emptyMessageCounter c1 + 1"
    from True rest have "(if ?n = 5
        then \<exists>b. reconnectServer fuel env (c1\<lparr>emptyMessageCounter := 0\<rparr>) = Inr (b, c')
        else c' = c1\<lparr>emptyMessageCounter := ?n\<rparr>)"
      by (auto simp: prog_eq_Inr add_int_def split: if_splits)
    moreover have "0 \<le> ?n" "?n \<noteq> 5 \<Longrightarrow> ?n < 5" using ok1 by (auto simp: client_ok_def)
    ultimately show ?thesis
      using ok1 by (auto simp: client_ok_counted split: if_splits
          dest: preservesD [OF client_ok_reconnect])
  qed
qed

text \<open>The public operations, in any order.\<close>

inductive client_step :: "env \<Rightarrow> DoIPClient \<Rightarrow> DoIPClient \<Rightarrow> bool" for env where
  cl_start: "startTcpConnection n env c = Inr (b, d) \<Longrightarrow> client_step env c d"
| cl_start_udp: "startUdpConnection env c = Inr (u, d) \<Longrightarrow> client_step env c d"
| cl_close: "closeTcpConnection env c = Inr (u, d) \<Longrightarrow> client_step env c d"
| cl_close_udp: "closeUdpConnection env c = Inr (u, d) \<Longrightarrow> client_step env c d"
| cl_reconnect: "reconnectServer n env c = Inr (b, d) \<Longrightarrow> client_step env c d"
| cl_activate: "sendRoutingActivationRequest env c = Inr (u, d) \<Longrightarrow> client_step env c d"
| cl_diagnose: "sendDiagnosticMessage env ta dat n c = Inr (u, d) \<Longrightarrow> client_step env c d"
| cl_alive: "sendAliveCheckResponse env c = Inr (u, d) \<Longrightarrow> client_step env c d"
| cl_identify: "sendVehicleIdentificationRequest env a c = Inr (u, d) \<Longrightarrow> client_step env c d"
| cl_receive: "receiveMessage n env c = Inr (x, d) \<Longrightarrow> client_step env c d"
| cl_receive_udp: "receiveUdpMessageClient env c = Inr (u, d) \<Longrightarrow> client_step env c d"
| cl_address: "setSourceAddress sa c = Inr (u, d) \<Longrightarrow> client_step env c d"

inductive_cases client_stepE: "client_step env c d"

lemma client_step_ok: "client_step env c d \<Longrightarrow> client_ok c \<Longrightarrow> client_ok d"
  by (erule client_stepE;
      erule (1) preservesD [rotated];
      intro client_ok_start client_ok_start_udp client_ok_close client_ok_reconnect client_ok_send
        client_ok_receive client_ok_receive_udp client_ok_setSourceAddress)

definition client_init :: "DoIPClient \<Rightarrow> bool" where
  "client_init c \<longleftrightarrow> c = newDoIPClient (trace c)"

interpretation client_machine:
  inductive_invariant client_init "client_step env" client_ok for env
proof unfold_locales
  show "client_init c \<Longrightarrow> client_ok c" for c
    unfolding client_init_def using client_ok_new by metis
qed (rule client_step_ok)

section \<open>What the operations do\<close>

definition activation_request :: "byte list" where
  "activation_request = header_bytes (0x00, 0x05) 7 @ [0x0E, 0x00, 0x00, 0x00, 0x00, 0x00, 0x00]"

lemma buildRoutingActivationRequest_eq:
  "buildRoutingActivationRequest = Inr (15, map Some activation_request)"
  by (simp add: buildRoutingActivationRequest_def put_def activation_request_def header_bytes_def
      byte_at_def)

lemma buildVehicleIdentificationRequest_eq:
  "buildVehicleIdentificationRequest = Inr (8, map Some (header_bytes (0x00, 0x01) 0))"
  by (simp add: buildVehicleIdentificationRequest_def put_def header_bytes_def byte_at_def)

lemma client_write_run:
  assumes "sockFd c = Some fd" and "n = int (length m)"
  shows "client_write env m n c =
         Inr ((), c\<lparr>trace := trace c @ [(Write fd m, env (trace c) (Write fd m))]\<rparr>)"
  using assms by (simp add: client_write_def run_simps)

lemma sendRoutingActivationRequest_run:
  assumes "sockFd c = Some fd"
  shows "\<exists>tr. sendRoutingActivationRequest env c = Inr ((), c\<lparr>trace := trace c @ tr\<rparr>) \<and>
              written tr = [map Some activation_request]"
  using client_write_run [OF assms, of 15 "map Some activation_request" env]
  by (simp add: sendRoutingActivationRequest_def buildRoutingActivationRequest_eq bnd_prim_run
      activation_request_def)

lemma sendAliveCheckResponse_run:
  assumes "sockFd c = Some fd" and "sourceAddress c = [x, y]"
  shows "\<exists>tr. sendAliveCheckResponse env c = Inr ((), c\<lparr>trace := trace c @ tr\<rparr>) \<and>
              written tr = [map Some (header_bytes (0x00, 0x08) 2) @ [x, y]]"
proof -
  have "createGenericHeader ALIVECHECKRESPONSE (word_of_int 2) =
      Inr (map Some (header_bytes (0x00, 0x08) 2) @ [None, None])"
    by (simp add: createGenericHeader_eq)
  then show ?thesis
    using assms(2) client_write_run [OF assms(1), of 10 "map Some (header_bytes (0x00, 0x08) 2) @ [x, y]" env]
    by (simp add: sendAliveCheckResponse_def run_simps copy_loop_eq GenericHeaderLength_def
        take_Cons')
qed

lemma sendDiagnosticMessage_run:
  assumes "sockFd c = Some fd" and "int (length data) \<le> int_max - 12"
  shows "\<exists>tr. sendDiagnosticMessage env (Some [Some a, Some b]) (map Some data) (int (length data)) c =
                Inr ((), c\<lparr>trace := trace c @ tr\<rparr>) \<and>
              written tr = [map Some (header_bytes (0x80, 0x01) (word_of_int (4 + int (length data))) @
                              [0x0E, 0x00, a, b] @ data)]"
proof -
  let ?m = "map Some (header_bytes (0x80, 0x01) (word_of_int (4 + int (length data))) @
              [0x0E, 0x00, a, b] @ data)"
  have m: "createDiagnosticMessage 0x0E00 (Some [Some a, Some b]) (map Some data) (int (length data)) =
      Inr ?m"
    using assms(2) createDiagnosticMessage_eq [of "[Some a, Some b]" "int (length data)"
        "map Some data" "0x0E00"]
    by (simp add: int_max_def byte_at_def)
  have n: "add_int (GenericHeaderLength + DiagnosticMessageMinimumLength) (int (length data)) =
      Inr (12 + int (length data))"
    using assms(2) by (simp add: add_int_def int_max_def int_min_def GenericHeaderLength_def
        DiagnosticMessageMinimumLength_def)
  show ?thesis
    using client_write_run [OF assms(1), of "12 + int (length data)" ?m env]
    by (simp add: sendDiagnosticMessage_def run_simps m n)
qed

text \<open>If \<open>connect\<close> answers at some point, the client gets connected.\<close>

lemma connect_loop_connects:
  assumes "\<And>tr a. n \<le> length tr \<Longrightarrow> ret (env tr (Connect fd a)) \<noteq> -1"
  shows "\<exists>m tr r. m \<le> Suc (n - length (trace c)) \<and> r \<noteq> -1 \<and>
           (\<forall>k \<ge> m. connect_loop k env fd c =
              Inr (True, c\<lparr>trace := trace c @ tr, connected := Some r\<rparr>))"
proof (induction "n - length (trace c)" arbitrary: c)
  case 0
  let ?k = "Connect fd (serverAddr c)"
  from 0 assms have "ret (env (trace c) ?k) \<noteq> -1" by simp
  then have "connect_loop k env fd c =
      Inr (True, c\<lparr>trace := trace c @ [(?k, env (trace c) ?k)], connected := Some (ret (env (trace c) ?k))\<rparr>)"
    if "Suc 0 \<le> k" for k
    using that by (cases k) (simp_all add: run_simps)
  with \<open>ret (env (trace c) ?k) \<noteq> -1\<close> show ?case
    by (intro exI [of _ "Suc 0"] exI [of _ "[(?k, env (trace c) ?k)]"]
        exI [of _ "ret (env (trace c) ?k)"]) simp
next
  case (Suc d)
  let ?k = "Connect fd (serverAddr c)"
  let ?r = "ret (env (trace c) ?k)"
  let ?c = "c\<lparr>trace := trace c @ [(?k, env (trace c) ?k)], connected := Some ?r\<rparr>"
  show ?case
  proof (cases "?r = -1")
    case False
    then have "connect_loop k env fd c = Inr (True, ?c)" if "Suc 0 \<le> k" for k
      using that by (cases k) (simp_all add: run_simps)
    with False show ?thesis
      by (intro exI [of _ "Suc 0"] exI [of _ "[(?k, env (trace c) ?k)]"] exI [of _ ?r]) simp
  next
    case True
    from Suc.hyps(2) have "d = n - length (trace ?c)" by simp
    from Suc.hyps(1) [OF this] obtain m tr r where m: "m \<le> Suc (n - length (trace ?c))" "r \<noteq> -1"
      and run: "\<And>k. m \<le> k \<Longrightarrow> connect_loop k env fd ?c =
        Inr (True, ?c\<lparr>trace := trace ?c @ tr, connected := Some r\<rparr>)"
      by blast
    have "connect_loop k env fd c =
        Inr (True, c\<lparr>trace := trace c @ (?k, env (trace c) ?k) # tr, connected := Some r\<rparr>)"
      if "Suc m \<le> k" for k
      using that True run [of "k - 1"] by (cases k) (simp_all add: run_simps)
    with m Suc.hyps(2) show ?thesis
      by (intro exI [of _ "Suc m"] exI [of _ "(?k, env (trace c) ?k) # tr"] exI [of _ r]) auto
  qed
qed

end
