(* ===== verification/Doip_Sslecho.thy ===== *)
theory Doip_Sslecho
  imports Doip_Worlds
begin

text \<open>
  The TLS echo program \<open>examples/tls_example.c\<close>, a server and a client in one executable, on which
  the TLS side of the library was tried out. The variables of its \<open>main\<close> and the flag
  \<open>server_running\<close> are a record; \<open>exit(EXIT_FAILURE)\<close> is the error \<open>ExitFailure\<close>. What it prints
  of the messages it receives is kept in \<open>shown\<close>, other output is left out. Its loops may run for
  ever; they take a bound on the iterations and return whether they were left.
\<close>

section \<open>State\<close>

record sslecho = world +
  server_running :: bool
  ssl_object :: nat           \<comment> \<open>\<open>SSL *ssl\<close>; 0 is \<open>NULL\<close>\<close>
  server_skt :: int
  client_skt :: int
  rxbuf :: buffer
  shown :: "byte list list"   \<comment> \<open>the texts printed as \<open>Received: %s\<close>\<close>

type_synonym 'r echo_prog = "(sslecho, 'r) prog"

definition echo_port :: u16 where "echo_port = 4433"
definition rxcap :: int where "rxcap = 128"
definition BUFFERSIZE :: int where "BUFFERSIZE = 1024"

definition newSslecho :: sslecho where
  "newSslecho =
     \<lparr>trace = [], server_running = True, ssl_object = 0, server_skt = -1, client_skt = -1,
      rxbuf = replicate (nat rxcap) None, shown = []\<rparr>"

section \<open>C strings\<close>

text \<open>The characters up to the terminating zero, as \<open>strlen\<close> and \<open>%s\<close> read them.\<close>

fun c_text :: "buffer \<Rightarrow> byte list result" where
  "c_text [] = Inl OutOfBounds"
| "c_text (None # b) = Inl Indeterminate"
| "c_text (Some x # b) = (if x = 0 then Inr [] else rbind (c_text b) (\<lambda>t. Inr (x # t)))"

text \<open>\<open>strcmp(b, text) == 0\<close> for a constant text; the comparison stops at the first difference.\<close>

fun c_equals :: "buffer \<Rightarrow> byte list \<Rightarrow> bool result" where
  "c_equals [] text = Inl OutOfBounds"
| "c_equals (None # b) text = Inl Indeterminate"
| "c_equals (Some x # b) [] = Inr (x = 0)"
| "c_equals (Some x # b) (y # text) = (if x = y then c_equals b text else Inr False)"

definition kill_text :: "byte list" where
  "kill_text = [0x6B, 0x69, 0x6C, 0x6C, 0x0A]"

section \<open>Setting up\<close>

definition create_echo_socket :: "env \<Rightarrow> bool \<Rightarrow> int echo_prog" where
  "create_echo_socket env isServer =
     bnd (ext_ret env (Socket True)) (\<lambda>s.
     if s < 0 then fail ExitFailure else
     thn (on_cond isServer
           (bnd (ext_ret env (SetReuseAddr s)) (\<lambda>r.
            if r < 0 then fail ExitFailure else
            bnd (ext_ret env (Bind s
                  \<lparr>sin_family = Some AF_INET, sin_port = Some echo_port, sin_addr = Some INADDR_ANY\<rparr>)) (\<lambda>r.
            if r < 0 then fail ExitFailure else
            bnd (ext_ret env (Listen s 1)) (\<lambda>r.
            if r < 0 then fail ExitFailure else return ())))))
         (return s))"

definition create_echo_context :: "env \<Rightarrow> bool \<Rightarrow> nat echo_prog" where
  "create_echo_context env isServer =
     bnd (ext_ret env (if isServer then SSL_CTX_new else SSL_CTX_new_client)) (\<lambda>c.
     if nat c = 0 then fail ExitFailure else return (nat c))"

definition configure_server_context :: "env \<Rightarrow> nat \<Rightarrow> unit echo_prog" where
  "configure_server_context env c =
     bnd (ext_ret env (SSL_CTX_use_certificate_chain_file c
           ''/home/kirill/Desktop/work/bthesis/libdoip/ca_keys/server-cert.pem'')) (\<lambda>r.
     if r \<le> 0 then fail ExitFailure else
     bnd (ext_ret env (SSL_CTX_use_PrivateKey_file c
           ''/home/kirill/Desktop/work/bthesis/libdoip/ca_keys/server-key.pem'')) (\<lambda>r.
     if r \<le> 0 then fail ExitFailure else return ()))"

definition configure_client_context :: "env \<Rightarrow> nat \<Rightarrow> unit echo_prog" where
  "configure_client_context env c =
     thn (ext_do env (SSL_CTX_set_default_verify_paths c))
    (bnd (ext_ret env (SSL_CTX_load_verify_locations c
           ''/home/kirill/Desktop/work/bthesis/libdoip/ca_keys/ca-cert.pem'')) (\<lambda>r.
     if r = 0 then fail ExitFailure else return ()))"

definition usage :: "'r echo_prog" where
  "usage = fail ExitFailure"

section \<open>One message\<close>

text \<open>\<open>rxlen = SSL_read(ssl, rxbuf, rxcap)\<close>.\<close>

definition echo_read :: "env \<Rightarrow> int echo_prog" where
  "echo_read env =
     bnd (gets ssl_object) (\<lambda>h.
     bnd (ext_call env (SSL_read h rxcap)) (\<lambda>a.
     if ret a \<le> 0 then return (ret a)
     else if ret a \<noteq> int (length (bytes a)) \<or> rxcap < ret a then fail EnvContract
     else
       bnd (gets rxbuf) (\<lambda>b.
       bnd (lift (put_bytes b 0 (bytes a))) (\<lambda>b.
       thn (modify (\<lambda>s. s\<lparr>rxbuf := b\<rparr>)) (return (ret a))))))"

text \<open>\<open>rxbuf[rxlen] = 0\<close>.\<close>

definition terminate_rxbuf :: "int \<Rightarrow> unit echo_prog" where
  "terminate_rxbuf rxlen =
     bnd (gets rxbuf) (\<lambda>b.
     bnd (lift (put b (nat rxlen) (Some 0))) (\<lambda>b. modify (\<lambda>s. s\<lparr>rxbuf := b\<rparr>)))"

text \<open>\<open>printf("Received: %s", rxbuf)\<close>.\<close>

definition show_rxbuf :: "unit echo_prog" where
  "show_rxbuf =
     bnd (gets rxbuf) (\<lambda>b.
     bnd (lift (c_text b)) (\<lambda>t. modify (\<lambda>s. s\<lparr>shown := shown s @ [t]\<rparr>)))"

section \<open>The server\<close>

text \<open>\<open>SSL_write(ssl, rxbuf, rxlen)\<close>; its result is only printed.\<close>

definition echo_back :: "env \<Rightarrow> int \<Rightarrow> unit echo_prog" where
  "echo_back env rxlen =
     bnd (gets ssl_object) (\<lambda>h.
     bnd (gets rxbuf) (\<lambda>b. ext_do env (SSL_write h (take (nat rxlen) b))))"

primrec echo_loop :: "nat \<Rightarrow> env \<Rightarrow> bool echo_prog" where
  "echo_loop 0 env = return False"
| "echo_loop (Suc n) env =
     bnd (echo_read env) (\<lambda>rxlen.
     if rxlen \<le> 0 then return True
     else
       thn (terminate_rxbuf rxlen)
      (bnd (gets rxbuf) (\<lambda>b.
       bnd (lift (c_equals b kill_text)) (\<lambda>kill.
       if kill then thn (modify (\<lambda>s. s\<lparr>server_running := False\<rparr>)) (return True)
       else thn show_rxbuf (thn (echo_back env rxlen) (echo_loop n env))))))"

definition release_client :: "env \<Rightarrow> unit echo_prog" where
  "release_client env =
     bnd (gets ssl_object) (\<lambda>h.
     thn (ext_do env (SSL_shutdown h))
    (thn (ext_do env (SSL_free h))
    (bnd (gets client_skt) (\<lambda>fd. ext_do env (CloseFd fd)))))"

text \<open>The body of \<open>while (server_running)\<close>; the result is that of the echo loop.\<close>

definition serve_echo_client :: "nat \<Rightarrow> env \<Rightarrow> nat \<Rightarrow> bool echo_prog" where
  "serve_echo_client n env c =
     bnd (gets server_skt) (\<lambda>server.
     bnd (ext_ret env (Accept server)) (\<lambda>client.
     thn (modify (\<lambda>s. s\<lparr>client_skt := client\<rparr>))
    (if client < 0 then fail ExitFailure else
     bnd (ext_ret env (SSL_new (Some c))) (\<lambda>h.
     thn (modify (\<lambda>s. s\<lparr>ssl_object := nat h\<rparr>))
    (bnd (ext_ret env (SSL_set_fd (nat h) client)) (\<lambda>r.
     if r = 0 then fail ExitFailure else
     bnd (ext_ret env (SSL_accept (nat h))) (\<lambda>r.
     bnd (if r \<le> 0 then thn (modify (\<lambda>s. s\<lparr>server_running := False\<rparr>)) (return True)
          else echo_loop n env) (\<lambda>left.
     if \<not> left then return False
     else bnd (gets server_running) (\<lambda>on. thn (on_cond on (release_client env)) (return True))))))))))"

primrec accept_echo_clients :: "nat \<Rightarrow> nat \<Rightarrow> env \<Rightarrow> nat \<Rightarrow> bool echo_prog" where
  "accept_echo_clients 0 n env c = bnd (gets server_running) (\<lambda>on. return (\<not> on))"
| "accept_echo_clients (Suc m) n env c =
     bnd (gets server_running) (\<lambda>on.
     if \<not> on then return True
     else bnd (serve_echo_client n env c) (\<lambda>left.
          if left then accept_echo_clients m n env c else return False))"

definition echo_server :: "nat \<Rightarrow> nat \<Rightarrow> env \<Rightarrow> nat \<Rightarrow> bool echo_prog" where
  "echo_server m n env c =
     thn (configure_server_context env c)
    (bnd (create_echo_socket env True) (\<lambda>fd.
     thn (modify (\<lambda>s. s\<lparr>server_skt := fd\<rparr>)) (accept_echo_clients m n env c)))"

section \<open>The client\<close>

text \<open>\<open>buffer\<close> after \<open>memset\<close>.\<close>

definition cleared_buffer :: buffer where
  "cleared_buffer = replicate (nat BUFFERSIZE) (Some 0)"

text \<open>The loop that sends lines.\<close>

primrec client_lines :: "nat \<Rightarrow> env \<Rightarrow> bool echo_prog" where
  "client_lines 0 env = return False"
| "client_lines (Suc n) env =
     bnd (ext_call env (Fgets BUFFERSIZE)) (\<lambda>a.
     if ret a = 0 then return True
     else if bytes a = [] \<or> BUFFERSIZE \<le> int (length (bytes a)) then fail EnvContract
     else
       bnd (lift (put_bytes cleared_buffer 0 (bytes a))) (\<lambda>txbuf.
       bnd (lift (rd txbuf 0)) (\<lambda>first.
       if first = 0x0A then return True
       else
         bnd (lift (c_text txbuf)) (\<lambda>text.
         bnd (gets ssl_object) (\<lambda>h.
         bnd (ext_ret env (SSL_write h (take (length text) txbuf))) (\<lambda>result.
         if result \<le> 0 then return True
         else
           bnd (echo_read env) (\<lambda>rxlen.
           if rxlen \<le> 0 then return True
           else thn (terminate_rxbuf rxlen) (thn show_rxbuf (client_lines n env)))))))))"

text \<open>Every \<open>goto exit\<close> is a return of True.\<close>

definition echo_tls_client :: "nat \<Rightarrow> env \<Rightarrow> nat \<Rightarrow> string \<Rightarrow> int \<Rightarrow> bool echo_prog" where
  "echo_tls_client n env h ip fd =
     bnd (ext_ret env (SSL_set_fd h fd)) (\<lambda>r.
     if r = 0 then return True else
     thn (ext_do env (SSL_set_tlsext_host_name h ip))
    (bnd (ext_ret env (SSL_set1_host h ip)) (\<lambda>r.
     if r = 0 then return True else
     bnd (ext_ret env (SSL_connect h)) (\<lambda>r.
     if r = 1 then client_lines n env else return True))))"

definition echo_client :: "nat \<Rightarrow> env \<Rightarrow> nat \<Rightarrow> string \<Rightarrow> bool echo_prog" where
  "echo_client n env c ip =
     thn (configure_client_context env c)
    (bnd (create_echo_socket env False) (\<lambda>fd.
     thn (modify (\<lambda>s. s\<lparr>client_skt := fd\<rparr>))
    (bnd (ext_call env (InetPton ip)) (\<lambda>a.
     let addr = (case bytes a of [b3, b2, b1, b0] \<Rightarrow> if ret a = 1 then Some (be32 b3 b2 b1 b0) else None
                 | _ \<Rightarrow> None) in
     bnd (ext_ret env (Connect fd
           \<lparr>sin_family = Some AF_INET, sin_port = Some echo_port, sin_addr = addr\<rparr>)) (\<lambda>r.
     if r \<noteq> 0 then return True else
     bnd (ext_ret env (SSL_new (Some c))) (\<lambda>h.
     thn (modify (\<lambda>s. s\<lparr>ssl_object := nat h\<rparr>)) (echo_tls_client n env (nat h) ip fd)))))))"

section \<open>main\<close>

text \<open>What follows the label \<open>exit\<close>.\<close>

definition echo_exit :: "env \<Rightarrow> nat \<Rightarrow> unit echo_prog" where
  "echo_exit env c =
     bnd (gets ssl_object) (\<lambda>h.
     thn (on_cond (h \<noteq> 0) (thn (ext_do env (SSL_shutdown h)) (ext_do env (SSL_free h))))
    (thn (ext_do env (SSL_CTX_free (Some c)))
    (bnd (gets client_skt) (\<lambda>client.
     thn (on_cond (client \<noteq> -1) (ext_do env (CloseFd client)))
    (bnd (gets server_skt) (\<lambda>server.
     on_cond (server \<noteq> -1) (ext_do env (CloseFd server))))))))"

text \<open>The result is True for \<open>EXIT_SUCCESS\<close>, and False when the bounds were too small.\<close>

definition echo_main :: "nat \<Rightarrow> nat \<Rightarrow> env \<Rightarrow> string list \<Rightarrow> bool echo_prog" where
  "echo_main m n env argv =
     thn (ext_do env IgnoreSigpipe)
    (if length argv < 2 then usage
     else
       let isServer = (case argv ! 1 of [] \<Rightarrow> False | x # xs \<Rightarrow> x = CHR ''s'') in
       if \<not> isServer \<and> length argv \<noteq> 3 then usage
       else
         bnd (create_echo_context env isServer) (\<lambda>c.
         bnd (if isServer then echo_server m n env c else echo_client n env c (argv ! 2)) (\<lambda>left.
         if left then thn (echo_exit env c) (return True) else return False)))"

end
