(* ===== verification/Doip_Sslecho_Loops.thy ===== *)
theory Doip_Sslecho_Loops
  imports Doip_Sslecho
begin

text \<open>
  The two loops of the TLS echo program: one round of either in the terms of what was read, written
  and printed, then whole runs as functions of the chunks that were read and the lines that were
  typed.
\<close>

section \<open>Texts in the buffer\<close>

abbreviation text_of :: "byte list \<Rightarrow> byte list" where
  "text_of bs \<equiv> takeWhile (\<lambda>x. x \<noteq> 0) bs"

lemma c_text_terminated [simp]: "c_text (map Some bs @ Some 0 # rest) = Inr (text_of bs)"
  by (induction bs) auto

lemma c_equals_terminated [simp]:
  "0 \<notin> set lit \<Longrightarrow> c_equals (map Some bs @ Some 0 # rest) lit = Inr (text_of bs = lit)"
proof (induction bs arbitrary: lit)
  case Nil
  then show ?case by (cases lit) auto
next
  case (Cons x bs)
  then show ?case by (cases lit) auto
qed

lemma kill_text_terminated [simp]: "0 \<notin> set kill_text"
  by (simp add: kill_text_def)

section \<open>What one read does\<close>

text \<open>The chunks that \<open>SSL_read\<close> delivered, one for each read that succeeded.\<close>

fun chunk_by :: "ext \<times> answer \<Rightarrow> byte list list" where
  "chunk_by (SSL_read h n, a) = (if 0 < ret a then [bytes a] else [])"
| "chunk_by _ = []"

definition chunks :: "history \<Rightarrow> byte list list" where
  "chunks tr = concat (map chunk_by tr)"

lemma chunks_simps [simp]: "chunks [] = []" "chunks (tr @ tr') = chunks tr @ chunks tr'" "chunks (e # tr) = chunk_by e @ chunks tr"
  by (simp_all add: chunks_def)

definition next_read :: "env \<Rightarrow> sslecho \<Rightarrow> answer" where
  "next_read env s = env (trace s) (SSL_read (ssl_object s) 128)"

definition has_read :: "env \<Rightarrow> sslecho \<Rightarrow> sslecho" where
  "has_read env s = s\<lparr>trace := trace s @ [(SSL_read (ssl_object s) 128, next_read env s)]\<rparr>"

definition whole_read :: "answer \<Rightarrow> bool" where
  "whole_read a \<longleftrightarrow> 0 < ret a \<and> ret a = int (length (bytes a)) \<and> ret a \<le> 128"

text \<open>The buffer with a chunk and its terminating zero.\<close>

definition terminated :: "byte list \<Rightarrow> buffer \<Rightarrow> buffer" where
  "terminated bs b = map Some bs @ Some 0 # drop (Suc (length bs)) b"

lemma terminated_length [simp]: "length bs < length b \<Longrightarrow> length (terminated bs b) = length b"
  by (simp add: terminated_def)

lemma take_terminated [simp]: "take (length bs) (terminated bs b) = map Some bs"
  by (simp add: terminated_def)

lemma c_text_terminated_buffer [simp]:
  "c_text (terminated bs b) = Inr (text_of bs)"
  "c_equals (terminated bs b) kill_text = Inr (text_of bs = kill_text)"
  by (simp_all add: terminated_def)

lemma echo_read_failed:
  "ret (next_read env s) \<le> 0 \<Longrightarrow> echo_read env s = Inr (ret (next_read env s), has_read env s)"
  by (simp add: echo_read_def run_simps next_read_def has_read_def rxcap_def)

lemma echo_read_contract:
  "0 < ret (next_read env s) \<Longrightarrow> \<not> whole_read (next_read env s) \<Longrightarrow> echo_read env s = Inl EnvContract"
  by (auto simp: echo_read_def run_simps next_read_def rxcap_def whole_read_def)

lemma read_stops:
  assumes "bnd (echo_read env) (\<lambda>r. if r \<le> 0 then return True else k r) s = Inr (x, s')"
    and "\<not> whole_read (next_read env s)"
  shows "x" and "s' = has_read env s" and "ret (next_read env s) \<le> 0"
proof -
  show le: "ret (next_read env s) \<le> 0"
    using assms by (cases "0 < ret (next_read env s)") (auto simp: bnd_def echo_read_contract)
  then show "x" "s' = has_read env s"
    using assms(1) by (simp_all add: bnd_def echo_read_failed run_simps)
qed

text \<open>A read with its \<open>rxbuf[rxlen] = 0\<close>: in bounds unless it has filled the buffer.\<close>

lemma read_and_terminate:
  assumes "whole_read (next_read env s)" and "length (rxbuf s) = 128"
    and "bs = bytes (next_read env s)"
  shows "bnd (echo_read env) (\<lambda>r. if r \<le> 0 then stop else thn (terminate_rxbuf r) (k r)) s =
         (if length bs = 128 then Inl OutOfBounds
          else k (int (length bs)) ((has_read env s)\<lparr>rxbuf := terminated bs (rxbuf s)\<rparr>))"
proof -
  let ?b = "map Some bs @ drop (length bs) (rxbuf s)"
  have len: "length bs \<le> 128" "ret (next_read env s) = int (length bs)" "bs \<noteq> []"
    using assms(1,3) by (auto simp: whole_read_def)
  have "put_bytes (rxbuf s) 0 bs = Inr ?b" using len(1) assms(2) by (simp add: put_bytes_def)
  then have read: "echo_read env s = Inr (int (length bs), (has_read env s)\<lparr>rxbuf := ?b\<rparr>)"
    using assms len by (simp add: echo_read_def run_simps next_read_def has_read_def rxcap_def whole_read_def)
  have "put ?b (length bs) (Some 0) = (if length bs = 128 then Inl OutOfBounds else Inr (terminated bs (rxbuf s)))"
  proof (cases "length bs = 128")
    case False
    with len(1) assms(2) have "drop (length bs) (rxbuf s) = rxbuf s ! length bs # drop (Suc (length bs)) (rxbuf s)"
      by (simp add: Cons_nth_drop_Suc)
    with False len(1) assms(2) show ?thesis by (simp add: put_def terminated_def list_update_append)
  qed (use assms(2) in \<open>simp add: put_def\<close>)
  then have "terminate_rxbuf (int (length bs)) ((has_read env s)\<lparr>rxbuf := ?b\<rparr>) =
      (if length bs = 128 then Inl OutOfBounds
       else Inr ((), (has_read env s)\<lparr>rxbuf := terminated bs (rxbuf s)\<rparr>))"
    by (simp add: terminate_rxbuf_def run_simps)
  with len(3) show ?thesis
    by (cases "length bs = 128")
       (simp_all add: bnd_run [where m = "echo_read env" and s = s, OF read] thn_run thn_run_Inl)
qed

text \<open>One round of the server's loop.\<close>

definition echoed :: "env \<Rightarrow> sslecho \<Rightarrow> byte list \<Rightarrow> sslecho" where
  "echoed env s bs =
     (let k = SSL_write (ssl_object s) (map Some bs); tr = trace (has_read env s)
      in s\<lparr>rxbuf := terminated bs (rxbuf s), shown := shown s @ [text_of bs], trace := tr @ [(k, env tr k)]\<rparr>)"

lemma echo_round:
  assumes "length (rxbuf s) = 128" and "a = next_read env s"
  shows "echo_loop (Suc n) env s =
     (if ret a \<le> 0 then Inr (True, has_read env s)
      else if \<not> whole_read a then Inl EnvContract
      else if length (bytes a) = 128 then Inl OutOfBounds
      else if text_of (bytes a) = kill_text
      then Inr (True, (has_read env s)\<lparr>rxbuf := terminated (bytes a) (rxbuf s), server_running := False\<rparr>)
      else echo_loop n env (echoed env s (bytes a)))"
proof -
  consider "ret a \<le> 0" | "0 < ret a" "\<not> whole_read a" | "0 < ret a" "whole_read a" by linarith
  then show ?thesis
  proof cases
    case 3
    show ?thesis
      using 3 assms unfolding echo_loop.simps
      by (subst read_and_terminate [where bs = "bytes a"])
         (auto simp: run_simps show_rxbuf_def echo_back_def echoed_def has_read_def Let_def thn_def bnd_def
            not_le)
  qed (use assms in \<open>simp_all add: bnd_def echo_read_failed echo_read_contract run_simps\<close>)
qed

lemma echoed_simps [simp]:
  "length bs < 128 \<Longrightarrow> length (rxbuf s) = 128 \<Longrightarrow> length (rxbuf (echoed env s bs)) = 128"
  "shown (echoed env s bs) = shown s @ [text_of bs]" "server_running (echoed env s bs) = server_running s"
  by (simp_all add: echoed_def Let_def)

lemma has_read_trace:
  "chunks (trace (has_read env s)) = chunks (trace s) @ (if 0 < ret (next_read env s) then [bytes (next_read env s)] else [])"
  "written (trace (has_read env s)) = written (trace s)"
  by (simp_all add: has_read_def)

lemma echoed_trace:
  "chunks (trace (echoed env s bs)) = chunks (trace (has_read env s))"
  "written (trace (echoed env s bs)) = written (trace s) @ [map Some bs]"
  by (simp_all add: echoed_def Let_def has_read_def written_def)

section \<open>What the echo server does for a client\<close>

text \<open>What is echoed: the chunks before the first one whose text is the kill command.\<close>

definition echo_of :: "byte list list \<Rightarrow> byte list list" where
  "echo_of cs = takeWhile (\<lambda>c. text_of c \<noteq> kill_text) cs"

lemma echo_loop_stream:
  assumes "echo_loop n env s = Inr (left, s')" and "length (rxbuf s) = 128"
  shows "\<exists>cs. chunks (trace s') = chunks (trace s) @ cs \<and> list_all (\<lambda>c. c \<noteq> [] \<and> length c < 128) cs \<and>
           written (trace s') = written (trace s) @ map (map Some) (echo_of cs) \<and>
           shown s' = shown s @ map text_of (echo_of cs) \<and>
           length cs \<le> Suc (length (echo_of cs)) \<and>
           (server_running s' \<longleftrightarrow> server_running s \<and> echo_of cs = cs) \<and> (left \<or> length cs = n)"
  using assms
proof (induction n arbitrary: s)
  case 0
  then show ?case by (intro exI [of _ "[]"]) (auto simp: run_simps echo_of_def)
next
  case (Suc n)
  let ?a = "next_read env s"
  note round = echo_round [OF Suc.prems(2) refl, of n env]
  show ?case
  proof (cases "ret ?a \<le> 0")
    case True
    with Suc.prems(1) have "left" "s' = has_read env s" by (simp_all add: round del: echo_loop.simps)
    with True show ?thesis
      by (intro exI [of _ "[]"]) (simp add: has_read_trace echo_of_def has_read_def)
  next
    case False
    with Suc.prems(1) have a: "whole_read ?a" "length (bytes ?a) \<noteq> 128"
      by (auto simp: round simp del: echo_loop.simps split: if_splits)
    then have short: "bytes ?a \<noteq> []" "length (bytes ?a) < 128" by (auto simp: whole_read_def)
    show ?thesis
    proof (cases "text_of (bytes ?a) = kill_text")
      case True
      with False a Suc.prems(1) have "left"
        "s' = (has_read env s)\<lparr>rxbuf := terminated (bytes ?a) (rxbuf s), server_running := False\<rparr>"
        by (simp_all add: round del: echo_loop.simps)
      with True False short show ?thesis
        by (intro exI [of _ "[bytes ?a]"]) (simp add: has_read_trace echo_of_def has_read_def)
    next
      case more: False
      with False a Suc.prems(1) have rest: "echo_loop n env (echoed env s (bytes ?a)) = Inr (left, s')"
        by (simp add: round del: echo_loop.simps)
      from Suc.IH [OF rest] short Suc.prems(2) obtain cs where
        cs: "chunks (trace s') = chunks (trace (echoed env s (bytes ?a))) @ cs"
          "list_all (\<lambda>c. c \<noteq> [] \<and> length c < 128) cs"
          "written (trace s') = written (trace (echoed env s (bytes ?a))) @ map (map Some) (echo_of cs)"
          "shown s' = shown (echoed env s (bytes ?a)) @ map text_of (echo_of cs)"
          "length cs \<le> Suc (length (echo_of cs))"
          "server_running s' \<longleftrightarrow> server_running (echoed env s (bytes ?a)) \<and> echo_of cs = cs"
          "left \<or> length cs = n" by auto
      have "echo_of (bytes ?a # cs) = bytes ?a # echo_of cs" using more by (simp add: echo_of_def)
      with cs short False show ?thesis
        by (intro exI [of _ "bytes ?a # cs"]) (simp add: echoed_trace has_read_trace)
    qed
  qed
qed

section \<open>What the echo client sends and shows\<close>

lemma line_buffer:
  assumes "length bs < 1024"
  shows "\<exists>rest. put_bytes cleared_buffer 0 bs = Inr (map Some bs @ Some 0 # rest)"
proof -
  have "put_bytes cleared_buffer 0 bs = Inr (map Some bs @ replicate (1024 - length bs) (Some 0))"
    using assms by (simp add: put_bytes_def cleared_buffer_def BUFFERSIZE_def del: replicate_Cons_numeral)
  moreover have "1024 - length bs = Suc (1023 - length bs)" using assms by simp
  then have "replicate (1024 - length bs) (Some (0 :: byte)) = Some 0 # replicate (1023 - length bs) (Some 0)"
    by (simp only: replicate_Suc)
  ultimately show ?thesis by auto
qed

lemma take_text_of: "take (length (text_of bs)) (map Some bs @ rest) = map Some (text_of bs)"
  by (induction bs) auto

text \<open>A line of the user, as it is sent.\<close>

definition sent_line :: "byte list \<Rightarrow> bool" where
  "sent_line l \<longleftrightarrow> 0 \<notin> set l \<and> length l < 1024 \<and> (l = [] \<or> hd l \<noteq> 0x0A)"

definition asked :: "env \<Rightarrow> sslecho \<Rightarrow> answer" where
  "asked env s = env (trace s) (Fgets 1024)"

text \<open>After \<open>fgets\<close> and \<open>SSL_write\<close>.\<close>

definition line_sent :: "env \<Rightarrow> sslecho \<Rightarrow> sslecho" where
  "line_sent env s =
     (let k = SSL_write (ssl_object s) (map Some (text_of (bytes (asked env s))));
          tr = trace s @ [(Fgets 1024, asked env s)]
      in s\<lparr>trace := tr @ [(k, env tr k)]\<rparr>)"

lemma client_round:
  assumes "client_lines (Suc n) env s = Inr (left, s')"
  shows "(left \<and> s' = s\<lparr>trace := trace s @ [(Fgets 1024, asked env s)]\<rparr>) \<or>
         sent_line (text_of (bytes (asked env s))) \<and>
         (left \<and> s' = line_sent env s \<or>
          bnd (echo_read env) (\<lambda>r. if r \<le> 0 then return True
            else thn (terminate_rxbuf r) (thn show_rxbuf (client_lines n env))) (line_sent env s) = Inr (left, s'))"
proof -
  let ?a = "asked env s" and ?bs = "bytes (asked env s)"
  consider "ret ?a = 0" | "ret ?a \<noteq> 0" "?bs = [] \<or> 1024 \<le> length ?bs"
    | "ret ?a \<noteq> 0" "?bs \<noteq> []" "length ?bs < 1024" by linarith
  then show ?thesis
  proof cases
    case 1
    with assms show ?thesis by (simp add: run_simps asked_def BUFFERSIZE_def)
  next
    case 2
    with assms show ?thesis by (auto simp: run_simps asked_def BUFFERSIZE_def)
  next
    case 3
    obtain rest where b: "put_bytes cleared_buffer 0 ?bs = Inr (map Some ?bs @ Some 0 # rest)"
      using line_buffer [OF 3(3)] by blast
    obtain x xs where bs: "?bs = x # xs" using 3(2) by (cases ?bs) auto
    have first: "rd (map Some ?bs @ Some 0 # rest) 0 = Inr x" by (simp add: bs rd_def cell_def)
    have "sent_line (text_of ?bs)" if "x \<noteq> 0x0A"
      using that 3(3) by (auto simp: sent_line_def bs dest: set_takeWhileD intro: le_less_trans [OF length_takeWhile_le])
    with assms 3 b first show ?thesis
      by (auto simp: run_simps asked_def [symmetric] BUFFERSIZE_def line_sent_def Let_def take_text_of
          simp del: takeWhile.simps take_append split: if_splits)
  qed
qed

lemma line_sent_trace:
  "chunks (trace (line_sent env s)) = chunks (trace s)"
  "written (trace (line_sent env s)) = written (trace s) @ [map Some (text_of (bytes (asked env s)))]"
  "rxbuf (line_sent env s) = rxbuf s" "shown (line_sent env s) = shown s"
  by (simp_all add: line_sent_def Let_def written_def)

lemma client_lines_stream:
  assumes "client_lines n env s = Inr (left, s')" and "length (rxbuf s) = 128"
  shows "\<exists>ls cs. written (trace s') = written (trace s) @ map (map Some) ls \<and>
           chunks (trace s') = chunks (trace s) @ cs \<and> shown s' = shown s @ map text_of cs \<and>
           list_all sent_line ls \<and> list_all (\<lambda>c. length c < 128) cs \<and>
           length cs \<le> length ls \<and> length ls \<le> Suc (length cs)"
  using assms
proof (induction n arbitrary: s)
  case 0
  then show ?case by (auto simp: run_simps)
next
  case (Suc n)
  let ?l = "text_of (bytes (asked env s))" and ?s = "line_sent env s"
  from client_round [OF Suc.prems(1)] consider
    "s' = s\<lparr>trace := trace s @ [(Fgets 1024, asked env s)]\<rparr>"
    | "sent_line ?l" "s' = ?s"
    | "sent_line ?l" "bnd (echo_read env) (\<lambda>r. if r \<le> 0 then return True
            else thn (terminate_rxbuf r) (thn show_rxbuf (client_lines n env))) ?s = Inr (left, s')" by blast
  then show ?case
  proof cases
    case 1
    then show ?thesis by (intro exI [of _ "[]"]) (simp add: written_def)
  next
    case 2
    then show ?thesis
      by (intro exI [of _ "[?l]"] exI [of _ "[]"]) (simp add: line_sent_trace)
  next
    case 3
    let ?a = "next_read env ?s"
    show ?thesis
    proof (cases "whole_read ?a")
      case False
      note stop = read_stops [OF 3(2) False]
      from stop 3(1) show ?thesis
        by (intro exI [of _ "[?l]"] exI [of _ "[]"])
          (simp add: has_read_trace line_sent_trace has_read_def)
    next
      case True
      let ?c = "bytes ?a"
      let ?s2 = "(has_read env ?s)\<lparr>rxbuf := terminated ?c (rxbuf ?s), shown := shown ?s @ [text_of ?c]\<rparr>"
      have short: "length ?c \<noteq> 128" and rest: "client_lines n env ?s2 = Inr (left, s')"
        using 3(2) read_and_terminate [OF True _ refl, of "return True" "\<lambda>r. thn show_rxbuf (client_lines n env)"] Suc.prems(2)
        by (auto simp: line_sent_trace show_rxbuf_def run_simps has_read_def thn_def bnd_def split: if_splits)
      from True short have len: "length ?c < 128" "0 < ret ?a" by (auto simp: whole_read_def)
      from Suc.IH [OF rest] len Suc.prems(2) obtain ls cs where
        "written (trace s') = written (trace ?s2) @ map (map Some) ls"
        "chunks (trace s') = chunks (trace ?s2) @ cs" "shown s' = shown ?s2 @ map text_of cs"
        "list_all sent_line ls" "list_all (\<lambda>c. length c < 128) cs"
        "length cs \<le> length ls" "length ls \<le> Suc (length cs)" by (auto simp: line_sent_trace)
      with 3(1) len show ?thesis
        by (intro exI [of _ "?l # ls"] exI [of _ "?c # cs"]) (simp add: has_read_trace line_sent_trace)
    qed
  qed
qed

end
