(* ===== verification/Doip_Sslecho_Props.thy ===== *)
theory Doip_Sslecho_Props
  imports Doip_Sslecho_Loops
begin

text \<open>
  What the TLS echo program does as a whole: a ledger of the TLS objects and descriptors the process
  holds from \<open>main\<close> to its \<open>exit\<close> label, the errors it can run into, and the ends of its loops. The
  properties are that the server echoes what it reads, that the client prints the lines its user
  typed, that everything that was made is given back, and how the program can end.
\<close>

section \<open>Objects and descriptors\<close>

text \<open>The calls that make or give back an object or a descriptor; all others are left out.\<close>

fun made_by :: "ext \<times> answer \<Rightarrow> nat list" where
  "made_by (SSL_new c, a) = (if nat (ret a) = 0 then [] else [nat (ret a)])"
| "made_by _ = []"

fun freed_by :: "ext \<times> answer \<Rightarrow> nat list" where
  "freed_by (SSL_free h, a) = (if h = 0 then [] else [h])"
| "freed_by _ = []"

fun accepted_by :: "ext \<times> answer \<Rightarrow> int list" where
  "accepted_by (Accept fd, a) = [ret a]"
| "accepted_by _ = []"

fun socket_by :: "ext \<times> answer \<Rightarrow> int list" where
  "socket_by (Socket b, a) = [ret a]"
| "socket_by _ = []"

fun closed_by :: "ext \<times> answer \<Rightarrow> int list" where
  "closed_by (CloseFd fd, a) = [fd]"
| "closed_by _ = []"

definition ledger :: "history \<Rightarrow> nat list \<times> nat list \<times> int list \<times> int list \<times> int list" where
  "ledger tr = (concat (map made_by tr), concat (map freed_by tr), concat (map accepted_by tr),
     concat (map socket_by tr), concat (map closed_by tr))"

definition no_entry :: "ext \<Rightarrow> bool" where
  "no_entry k \<longleftrightarrow>
     (case k of SSL_new c \<Rightarrow> False | SSL_free h \<Rightarrow> False | Accept fd \<Rightarrow> False | Socket b \<Rightarrow> False
              | CloseFd fd \<Rightarrow> False | _ \<Rightarrow> True)"

lemma ledger_no_entry: "no_entry k \<Longrightarrow> ledger (tr @ [(k, a)]) = ledger tr"
  by (cases k) (simp_all add: no_entry_def ledger_def)

text \<open>What the loops over messages leave alone.\<close>

definition same_ledger :: "sslecho \<Rightarrow> sslecho \<Rightarrow> bool" where
  "same_ledger s0 s \<longleftrightarrow>
     ledger (trace s) = ledger (trace s0) \<and> ssl_object s = ssl_object s0 \<and>
     client_skt s = client_skt s0 \<and> server_skt s = server_skt s0"

lemma same_ledger_calls:
  assumes "no_entry k"
  shows "preserves (same_ledger s0) (ext_call env k)" "preserves (same_ledger s0) (ext_ret env k)"
    "preserves (same_ledger s0) (ext_do env k)"
  using assms by (auto intro!: preservesI simp: run_simps same_ledger_def ledger_no_entry)

lemma same_ledger_read [pres]:
  "preserves (same_ledger s0) (echo_read env)" "preserves (same_ledger s0) (terminate_rxbuf r)"
  "preserves (same_ledger s0) show_rxbuf" "preserves (same_ledger s0) (echo_back env r)"
  unfolding echo_read_def terminate_rxbuf_def show_rxbuf_def echo_back_def
  by (intro pres preserves_modify same_ledger_calls; simp add: same_ledger_def no_entry_def)+

lemma same_ledger_loops [pres]:
  "preserves (same_ledger s0) (echo_loop n env)" "preserves (same_ledger s0) (client_lines n env)"
proof -
  have running: "preserves (same_ledger s0) (modify (\<lambda>s. s\<lparr>server_running := False\<rparr>))"
    by (rule preserves_modify) (simp add: same_ledger_def)
  show "preserves (same_ledger s0) (echo_loop n env)"
    by (induction n) (auto intro!: pres running)
  have calls: "no_entry (Fgets m)" "no_entry (SSL_write h b)" for m h b
    by (simp_all add: no_entry_def)
  show "preserves (same_ledger s0) (client_lines n env)"
    by (induction n) (auto intro!: pres same_ledger_calls calls)
qed

text \<open>
  Between two clients everything that was made was given back; after the last one, its object and
  its descriptor are still held.
\<close>

definition books :: "int list \<Rightarrow> sslecho \<Rightarrow> bool" where
  "books socks s \<longleftrightarrow>
     (\<exists>made acc. ledger (trace s) =
        (if server_running s then (made, made, acc, socks, acc)
         else (made @ (if ssl_object s = 0 then [] else [ssl_object s]), made, acc @ [client_skt s],
               socks, acc)) \<and>
        (server_running s \<or> 0 \<le> client_skt s))"

text \<open>A client that was accepted and got its TLS object, before the handshake's result is known.\<close>

definition echo_accepted :: "env \<Rightarrow> nat \<Rightarrow> sslecho \<Rightarrow> sslecho" where
  "echo_accepted env c s =
     (let k1 = Accept (server_skt s); a1 = env (trace s) k1; tr1 = trace s @ [(k1, a1)];
          k2 = SSL_new (Some c); a2 = env tr1 k2; tr2 = tr1 @ [(k2, a2)];
          k3 = SSL_set_fd (nat (ret a2)) (ret a1); a3 = env tr2 k3; tr3 = tr2 @ [(k3, a3)];
          k4 = SSL_accept (nat (ret a2)); a4 = env tr3 k4
      in s\<lparr>client_skt := ret a1, ssl_object := nat (ret a2), trace := tr3 @ [(k4, a4)]\<rparr>)"

lemma serve_echo_client_split:
  assumes "serve_echo_client n env c s = Inr (left, s')"
  obtains l s2 where "0 \<le> client_skt (echo_accepted env c s)"
    and "s2 = (echo_accepted env c s)\<lparr>server_running := False\<rparr> \<and> l \<or>
         echo_loop n env (echo_accepted env c s) = Inr (l, s2)"
    and "if l then left \<and> on_cond (server_running s2) (release_client env) s2 = Inr ((), s')
         else \<not> left \<and> s' = s2"
proof -
  let ?s = "echo_accepted env c s"
  from assms obtain h where on: "0 \<le> client_skt ?s"
    and "bnd (if h then thn (modify (\<lambda>s. s\<lparr>server_running := False\<rparr>)) (return True) else echo_loop n env)
      (\<lambda>left. if \<not> left then return False
         else bnd (gets server_running) (\<lambda>on. thn (on_cond on (release_client env)) (return True))) ?s =
      Inr (left, s')"
    by (auto simp: serve_echo_client_def run_simps echo_accepted_def Let_def simp del: if_split split: if_split_asm)
  then obtain l s2 where mid: "(if h then thn (modify (\<lambda>s. s\<lparr>server_running := False\<rparr>)) (return True)
      else echo_loop n env) ?s = Inr (l, s2)"
    and fin: "(if \<not> l then return False
         else bnd (gets server_running) (\<lambda>on. thn (on_cond on (release_client env)) (return True))) s2 =
      Inr (left, s')" by (auto simp: bnd_eq_Inr)
  show ?thesis
    by (rule that [OF on, of s2 l])
       (use mid fin in \<open>auto simp: run_simps prog_eq_Inr split: if_splits\<close>)
qed

lemma serve_echo_client_books:
  assumes run: "serve_echo_client n env c s = Inr (True, s')" and "books socks s" and on: "server_running s"
  shows "books socks s' \<and> server_skt s' = server_skt s"
proof -
  let ?s = "echo_accepted env c s" and ?h = "ssl_object (echo_accepted env c s)"
  from assms(2) on obtain made acc where l: "ledger (trace s) = (made, made, acc, socks, acc)"
    by (auto simp: books_def)
  have s1: "ledger (trace ?s) = (made @ (if ?h = 0 then [] else [?h]), made, acc @ [client_skt ?s], socks, acc)"
    "server_skt ?s = server_skt s"
    using l by (auto simp: echo_accepted_def Let_def ledger_def)
  obtain l s2 where fd: "0 \<le> client_skt ?s"
    and mid: "s2 = ?s\<lparr>server_running := False\<rparr> \<and> l \<or> echo_loop n env ?s = Inr (l, s2)"
    and fin: "if l then True \<and> on_cond (server_running s2) (release_client env) s2 = Inr ((), s')
         else \<not> True \<and> s' = s2"
    by (rule serve_echo_client_split [OF run])
  have same: "same_ledger ?s s2"
    using mid preservesD [OF same_ledger_loops(1), of n env ?s l s2 ?s] by (auto simp: same_ledger_def)
  from fin show ?thesis
    using same s1 fd
    by (auto simp: release_client_def run_simps books_def same_ledger_def ledger_def split: if_splits)
qed

lemma accept_echo_clients_books:
  assumes "accept_echo_clients m n env c s = Inr (True, s')" and "books socks s"
  shows "books socks s' \<and> server_skt s' = server_skt s \<and> \<not> server_running s'"
  using assms
proof (induction m arbitrary: s)
  case 0
  then show ?case by (auto simp: run_simps)
next
  case (Suc m)
  then show ?case
    by (auto simp: run_simps bnd_eq_Inr return_def split: if_splits dest!: serve_echo_client_books)
qed

lemma ledger_append:
  "ledger (tr @ tr') = (case (ledger tr, ledger tr') of ((a, b, c, d, e), (a', b', c', d', e')) \<Rightarrow>
     (a @ a', b @ b', c @ c', d @ d', e @ e'))"
  by (simp add: ledger_def)

lemma ledger_new:
  "ledger tr = (made, freed, acc, socks, cl) \<Longrightarrow>
   ledger (tr @ [(SSL_new c, a)]) =
     (made @ (if nat (ret a) = 0 then [] else [nat (ret a)]), freed, acc, socks, cl)"
  by (simp add: ledger_def)

lemma echo_socket_run:
  assumes "create_echo_socket env isServer s = Inr (fd, s')"
  shows "0 \<le> fd" and "\<exists>tr. s' = s\<lparr>trace := trace s @ tr\<rparr> \<and> ledger tr = ([], [], [], [fd], [])"
  using assms by (auto simp: create_echo_socket_def prog_eq_Inr run_simps ledger_def split: if_splits)

lemma echo_context_run:
  assumes "create_echo_context env isServer s = Inr (c, s')"
  shows "\<exists>tr. s' = s\<lparr>trace := trace s @ tr\<rparr> \<and> ledger tr = ([], [], [], [], [])"
  using assms by (auto simp: create_echo_context_def run_simps ledger_def split: if_splits)

lemma configure_contexts_run:
  "configure_server_context env c s = Inr ((), s') \<Longrightarrow>
     \<exists>tr. s' = s\<lparr>trace := trace s @ tr\<rparr> \<and> ledger tr = ([], [], [], [], [])"
  "configure_client_context env c s = Inr ((), s') \<Longrightarrow>
     \<exists>tr. s' = s\<lparr>trace := trace s @ tr\<rparr> \<and> ledger tr = ([], [], [], [], [])"
  by (auto simp: configure_server_context_def configure_client_context_def run_simps ledger_def split: if_splits)

text \<open>Both parts of the program come to the label \<open>exit\<close> with what \<open>main\<close> still holds.\<close>

definition at_exit :: "sslecho \<Rightarrow> bool" where
  "at_exit s \<longleftrightarrow>
     (\<exists>made acc socks. ledger (trace s) =
        (made @ (if ssl_object s = 0 then [] else [ssl_object s]), made, acc @ [client_skt s], socks, acc)
        \<and> 0 \<le> client_skt s \<and> 0 \<le> server_skt s \<and> socks = [server_skt s]) \<or>
     ledger (trace s) = ((if ssl_object s = 0 then [] else [ssl_object s]), [], [], [client_skt s], [])
     \<and> 0 \<le> client_skt s \<and> server_skt s = -1"

lemma echo_server_at_exit:
  assumes "echo_server m n env c s = Inr (True, s')" and "ledger (trace s) = ([], [], [], [], [])"
    and "server_running s"
  shows "at_exit s'"
proof -
  from assms(1) obtain s1 fd s2 where conf: "configure_server_context env c s = Inr ((), s1)"
    and sock: "create_echo_socket env True s1 = Inr (fd, s2)"
    and loop: "accept_echo_clients m n env c (s2\<lparr>server_skt := fd\<rparr>) = Inr (True, s')"
    by (auto simp: echo_server_def prog_eq_Inr)
  have "books [fd] (s2\<lparr>server_skt := fd\<rparr>)"
    using configure_contexts_run(1) [OF conf] echo_socket_run(2) [OF sock] assms(2,3)
    by (auto simp: books_def ledger_append)
  from accept_echo_clients_books [OF loop this] echo_socket_run(1) [OF sock]
  show ?thesis by (auto simp: books_def at_exit_def)
qed

lemma same_ledger_tls_client: "preserves (same_ledger s0) (echo_tls_client n env h ip fd)"
  unfolding echo_tls_client_def
  by (intro pres same_ledger_calls) (simp_all add: no_entry_def)

lemma at_exit_same: "at_exit s0 \<Longrightarrow> same_ledger s0 s \<Longrightarrow> at_exit s"
  by (auto simp: at_exit_def same_ledger_def)

lemma new_tls_client_at_exit:
  assumes "bnd (ext_ret env (SSL_new (Some c))) (\<lambda>h.
       thn (modify (\<lambda>s. s\<lparr>ssl_object := nat h\<rparr>)) (echo_tls_client n env (nat h) ip fd)) s = Inr (True, s')"
    and "ledger (trace s) = ([], [], [], [fd], [])" "client_skt s = fd" "0 \<le> fd" "server_skt s = -1"
  shows "at_exit s'"
proof -
  let ?a = "env (trace s) (SSL_new (Some c))"
  let ?s1 = "s\<lparr>trace := trace s @ [(SSL_new (Some c), ?a)], ssl_object := nat (ret ?a)\<rparr>"
  from assms(1) have "echo_tls_client n env (nat (ret ?a)) ip fd ?s1 = Inr (True, s')"
    by (simp add: bnd_ext_run thn_prim_run)
  from preservesD [OF same_ledger_tls_client this, of ?s1] have "same_ledger ?s1 s'"
    by (simp add: same_ledger_def)
  moreover have "at_exit ?s1"
    using assms(3-5) ledger_new [OF assms(2), of "Some c" ?a] by (simp add: at_exit_def)
  ultimately show ?thesis by (rule at_exit_same [rotated])
qed

lemma echo_client_at_exit:
  assumes "echo_client n env c ip s = Inr (True, s')" and "ledger (trace s) = ([], [], [], [], [])"
    and "ssl_object s = 0" and "server_skt s = -1"
  shows "at_exit s'"
proof -
  from assms(1) obtain s1 fd s2 a addr where conf: "configure_client_context env c s = Inr ((), s1)"
    and sock: "create_echo_socket env False s1 = Inr (fd, s2)"
    and rest: "bnd (ext_ret env (Connect fd addr)) (\<lambda>r.
       if r \<noteq> 0 then return True else
       bnd (ext_ret env (SSL_new (Some c))) (\<lambda>h.
       thn (modify (\<lambda>s. s\<lparr>ssl_object := nat h\<rparr>)) (echo_tls_client n env (nat h) ip fd)))
      (s2\<lparr>client_skt := fd, trace := trace s2 @ [(InetPton ip, a)]\<rparr>) = Inr (True, s')"
    by (auto simp: echo_client_def bnd_eq_Inr [of "create_echo_socket env False"]
        thn_eq_Inr [of "configure_client_context env c"] run_simps Let_def simp del: if_split)
  let ?s = "s2\<lparr>client_skt := fd, trace := trace s2 @ [(InetPton ip, a)]\<rparr>"
  let ?tr = "trace ?s @ [(Connect fd addr, env (trace ?s) (Connect fd addr))]"
  have start: "ledger (trace s2) = ([], [], [], [fd], [])" "ssl_object s2 = 0" "server_skt s2 = -1" "0 \<le> fd"
    using configure_contexts_run(2) [OF conf] echo_socket_run [OF sock] assms(2-4) by (auto simp: ledger_append)
  have before: "ledger ?tr = ([], [], [], [fd], [])"
    using start(1) ledger_no_entry [of "InetPton ip" "trace s2" a]
      ledger_no_entry [of "Connect fd addr" "trace ?s"] by (simp add: no_entry_def)
  show ?thesis
  proof (cases "ret (env (trace ?s) (Connect fd addr)) = 0")
    case False
    with rest have "s' = s2\<lparr>client_skt := fd, trace := ?tr\<rparr>" by (simp add: run_simps)
    with before start show ?thesis by (simp add: at_exit_def)
  next
    case True
    with rest have "bnd (ext_ret env (SSL_new (Some c))) (\<lambda>h.
       thn (modify (\<lambda>s. s\<lparr>ssl_object := nat h\<rparr>)) (echo_tls_client n env (nat h) ip fd))
      (s2\<lparr>client_skt := fd, trace := ?tr\<rparr>) = Inr (True, s')" by (simp add: bnd_ext_run)
    then show ?thesis by (rule new_tls_client_at_exit) (use before start in simp_all)
  qed
qed

lemma echo_exit_ledger:
  assumes "at_exit s" and "echo_exit env c s = Inr ((), s')"
  shows "\<exists>made acc socks. ledger (trace s') = (made, made, acc, socks, acc @ socks)"
  using assms by (auto simp: echo_exit_def at_exit_def run_simps ledger_append split: if_splits)
    (auto simp: ledger_def)


section \<open>The errors of the echo program\<close>

definition echo_faults :: "env \<Rightarrow> cpp_error set" where
  "echo_faults env = {ExitFailure, EnvContract} \<union>
     (if \<exists>tr h. ret (env tr (SSL_read h 128)) = 128 then {OutOfBounds} else {})"

definition fits :: "sslecho \<Rightarrow> bool" where
  "fits s \<longleftrightarrow> length (rxbuf s) = 128"

lemma filled_read:
  assumes "whole_read (next_read env s)" and "length (bytes (next_read env s)) = 128"
  shows "OutOfBounds \<in> echo_faults env"
  using assms by (auto simp: whole_read_def next_read_def echo_faults_def)

lemma faults_simps [simp]: "ExitFailure \<in> echo_faults env" "EnvContract \<in> echo_faults env"
  by (simp_all add: echo_faults_def)

lemma echo_loop_faults:
  "hoare fits (echo_faults env) (echo_loop n env) (\<lambda>_. fits)"
proof (induction n)
  case 0
  show ?case unfolding echo_loop.simps by (intro keep)
next
  case (Suc n)
  show ?case
  proof (rule hoareI)
    fix s assume s: "fits s"
    let ?a = "next_read env s"
    have len: "length (rxbuf s) = 128" using s by (simp add: fits_def)
    have next_ok: "case echo_loop n env t of Inl e \<Rightarrow> e \<in> echo_faults env | Inr (x, t') \<Rightarrow> fits t'" if "fits t" for t
      using Suc.IH that by (simp add: hoare_def)
    have "length (bytes ?a) \<le> 128" if "whole_read ?a" using that by (auto simp: whole_read_def)
    then show "case echo_loop (Suc n) env s of Inl e \<Rightarrow> e \<in> echo_faults env | Inr (x, s') \<Rightarrow> fits s'"
      unfolding echo_round [OF len refl]
      using len filled_read [of env s] next_ok [of "echoed env s (bytes ?a)"]
      by (auto simp: fits_def has_read_def)
  qed
qed

lemma echoing_client:
  fixes k :: "bool echo_prog"
  assumes "fits s" and k: "hoare fits (echo_faults env) k (\<lambda>_. fits)"
  shows "case bnd (echo_read env) (\<lambda>r. if r \<le> 0 then return True
            else thn (terminate_rxbuf r) (thn show_rxbuf k)) s of
          Inl e \<Rightarrow> e \<in> echo_faults env | Inr (x, s') \<Rightarrow> fits s'"
proof -
  let ?a = "next_read env s"
  have len: "length (rxbuf s) = 128" using assms(1) by (simp add: fits_def)
  have k_ok: "case k t of Inl e \<Rightarrow> e \<in> echo_faults env | Inr (x, t') \<Rightarrow> fits t'" if "fits t" for t
    using k that by (simp add: hoare_def)
  consider "ret ?a \<le> 0" | "0 < ret ?a" "\<not> whole_read ?a" | "whole_read ?a" by linarith
  then show ?thesis
  proof cases
    case 3
    then have "length (bytes ?a) \<le> 128" by (auto simp: whole_read_def)
    with 3 show ?thesis
      using filled_read [OF 3] len
        k_ok [of "(has_read env s)\<lparr>rxbuf := terminated (bytes ?a) (rxbuf s), shown := shown s @ [text_of (bytes ?a)]\<rparr>"]
      by (subst read_and_terminate [OF 3 len refl])
        (auto simp: show_rxbuf_def run_simps fits_def has_read_def thn_def bnd_def)
  qed (use assms(1) in \<open>simp_all add: bnd_def echo_read_failed echo_read_contract return_def fits_def has_read_def\<close>)
qed

lemma client_lines_faults:
  "hoare fits (echo_faults env) (client_lines n env) (\<lambda>_. fits)"
proof (induction n)
  case 0
  show ?case unfolding client_lines.simps by (intro keep)
next
  case (Suc n)
  show ?case
  proof (rule hoareI)
    fix s assume s: "fits s"
    let ?a = "asked env s" and ?bs = "bytes (asked env s)"
    have next_ok: "case bnd (echo_read env) (\<lambda>r. if r \<le> 0 then return True
            else thn (terminate_rxbuf r) (thn show_rxbuf (client_lines n env))) (line_sent env s) of
          Inl e \<Rightarrow> e \<in> echo_faults env | Inr (x, s') \<Rightarrow> fits s'"
      using s by (intro echoing_client Suc.IH) (simp add: fits_def line_sent_def Let_def)
    consider "ret ?a = 0" | "ret ?a \<noteq> 0" "?bs = [] \<or> 1024 \<le> length ?bs"
      | "ret ?a \<noteq> 0" "?bs \<noteq> []" "length ?bs < 1024" by linarith
    then show "case client_lines (Suc n) env s of Inl e \<Rightarrow> e \<in> echo_faults env | Inr (x, s') \<Rightarrow> fits s'"
    proof cases
      case 3
      obtain rest where b: "put_bytes cleared_buffer 0 ?bs = Inr (map Some ?bs @ Some 0 # rest)"
        using line_buffer [OF 3(3)] by blast
      obtain x xs where bs: "?bs = x # xs" using 3(2) by (cases ?bs) auto
      have "rd (map Some ?bs @ Some 0 # rest) 0 = Inr x" by (simp add: bs rd_def cell_def)
      with 3 b next_ok s show ?thesis
        by (auto simp: run_simps asked_def [symmetric] BUFFERSIZE_def line_sent_def Let_def take_text_of fits_def
            simp del: takeWhile.simps take_append split: if_splits)
    qed (use s in \<open>auto simp: run_simps asked_def BUFFERSIZE_def fits_def\<close>)
  qed
qed

lemma fits_calls:
  "hoare fits E (ext_call env k) (\<lambda>_. fits)" "hoare fits E (ext_ret env k) (\<lambda>_. fits)"
  "hoare fits E (ext_do env k) (\<lambda>_. fits)"
  by (rule hoare_no_error, simp add: run_simps fits_def)+

lemma fits_modify: "(\<And>s. rxbuf (f s) = rxbuf s) \<Longrightarrow> hoare fits E (modify f) (\<lambda>_. fits)"
  by (rule hoare_no_error) (simp add: run_simps fits_def)

lemmas echo_keep = keep keep_bnd fits_calls fits_modify echo_loop_faults client_lines_faults faults_simps

lemma setup_faults:
  "hoare fits (echo_faults env) (create_echo_socket env srv) (\<lambda>_. fits)"
  "hoare fits (echo_faults env) (create_echo_context env srv) (\<lambda>_. fits)"
  "hoare fits (echo_faults env) (configure_server_context env c) (\<lambda>_. fits)"
  "hoare fits (echo_faults env) (configure_client_context env c) (\<lambda>_. fits)"
  unfolding create_echo_socket_def create_echo_context_def configure_server_context_def
    configure_client_context_def
  by (intro echo_keep)+

lemma accept_faults: "hoare fits (echo_faults env) (accept_echo_clients m n env c) (\<lambda>_. fits)"
proof (induction m)
  case (Suc m)
  have "hoare fits (echo_faults env) (serve_echo_client n env c) (\<lambda>_. fits)"
    unfolding serve_echo_client_def release_client_def by (intro echo_keep; simp)
  with Suc show ?case unfolding accept_echo_clients.simps by (intro echo_keep)
qed (unfold accept_echo_clients.simps, intro echo_keep)

lemma echo_main_faults: "hoare fits (echo_faults env) (echo_main m n env argv) (\<lambda>_. fits)"
proof -
  have "hoare fits (echo_faults env) (echo_server m n env c) (\<lambda>_. fits)" for c
    unfolding echo_server_def by (intro echo_keep setup_faults accept_faults; simp)
  moreover have "hoare fits (echo_faults env) (echo_client n env c ip) (\<lambda>_. fits)" for c ip
    unfolding echo_client_def echo_tls_client_def Let_def by (intro echo_keep setup_faults; simp)
  ultimately show ?thesis
    unfolding echo_main_def usage_def echo_exit_def Let_def by (intro echo_keep setup_faults)
qed

text \<open>When \<open>SSL_read\<close> fills the buffer, the terminating zero is written past its end.\<close>

lemma full_buffer_overflows:
  assumes "length (rxbuf s) = 128" and "length (bytes (env (trace s) (SSL_read (ssl_object s) 128))) = 128"
    and "ret (env (trace s) (SSL_read (ssl_object s) 128)) = 128"
  shows "echo_loop (Suc n) env s = Inl OutOfBounds"
proof -
  have "whole_read (next_read env s)" "length (bytes (next_read env s)) = 128" "0 < ret (next_read env s)"
    using assms(2,3) by (simp_all add: whole_read_def next_read_def)
  with echo_round [OF assms(1) refl, of n env] show ?thesis by (simp del: echo_loop.simps)
qed

section \<open>The loops end\<close>

text \<open>When \<open>SSL_read\<close> fails from some call on, both loops are left, however the rest goes.\<close>

lemma ended_read: "ended k env \<Longrightarrow> k \<le> length (trace s) \<Longrightarrow> ret (next_read env s) \<le> 0"
  by (simp add: ended_def next_read_def)

lemma echo_loop_ends:
  assumes "ended k env" and "echo_loop n env s = Inr (left, s')" and "length (rxbuf s) = 128"
    and "k - length (trace s) < n"
  shows "left"
  using assms(2-)
proof (induction n arbitrary: s)
  case 0
  then show ?case by simp
next
  case (Suc n)
  let ?a = "next_read env s"
  note round = Suc.prems(1) [unfolded echo_round [OF Suc.prems(2) refl]]
  show ?case
  proof (cases "ret ?a \<le> 0 \<or> text_of (bytes ?a) = kill_text")
    case True
    with round show ?thesis by (auto split: if_splits)
  next
    case False
    with ended_read [where env = env and s = s, OF assms(1)] have "length (trace s) < k" by linarith
    moreover from False round have "length (bytes ?a) < 128"
      and rest: "echo_loop n env (echoed env s (bytes ?a)) = Inr (left, s')"
      by (auto simp: whole_read_def split: if_splits)
    moreover have "length (trace (echoed env s (bytes ?a))) = length (trace s) + 2"
      by (simp add: echoed_def has_read_def Let_def)
    ultimately show ?thesis using Suc.IH [OF rest] Suc.prems(2,3) by simp
  qed
qed

lemma client_lines_ends:
  assumes "ended k env" and "client_lines n env s = Inr (left, s')" and "length (rxbuf s) = 128"
    and "k - length (trace s) < n"
  shows "left"
  using assms(2-)
proof (induction n arbitrary: s)
  case 0
  then show ?case by simp
next
  case (Suc n)
  let ?s = "line_sent env s" and ?a = "next_read env (line_sent env s)"
  from client_round [OF Suc.prems(1)] consider "left"
    | "bnd (echo_read env) (\<lambda>r. if r \<le> 0 then return True
            else thn (terminate_rxbuf r) (thn show_rxbuf (client_lines n env))) ?s = Inr (left, s')" by blast
  then show ?case
  proof cases
    case run: 2
    show ?thesis
    proof (cases "whole_read ?a")
      case False
      from read_stops(1) [OF run False] show ?thesis .
    next
      case True
      let ?s2 = "(has_read env ?s)\<lparr>rxbuf := terminated (bytes ?a) (rxbuf ?s), shown := shown ?s @ [text_of (bytes ?a)]\<rparr>"
      have "0 < ret ?a" using True unfolding whole_read_def by blast
      with ended_read [where env = env and s = ?s, OF assms(1)] have "length (trace ?s) < k" by linarith
      moreover have long: "length (trace ?s) = length (trace s) + 2" by (simp add: line_sent_def Let_def)
      moreover have "length (bytes ?a) \<le> 128" using True by (auto simp: whole_read_def)
      moreover have short: "length (bytes ?a) \<noteq> 128" and rest: "client_lines n env ?s2 = Inr (left, s')"
        using run read_and_terminate [OF True _ refl, of "return True" "\<lambda>r. thn show_rxbuf (client_lines n env)"]
          Suc.prems(2)
        by (auto simp: line_sent_trace show_rxbuf_def run_simps has_read_def thn_def bnd_def split: if_splits)
      ultimately show ?thesis
        using Suc.IH [OF rest] Suc.prems(2,3) by (simp add: line_sent_trace has_read_def)
    qed
  qed
qed

lemma echo_client_ends:
  assumes "ended k env" and "k < n" and "echo_client n env c ip s = Inr (left, s')" and "fits s"
  shows "left"
proof -
  have lines: "left" if "client_lines n env t = Inr (left, s')" "fits t" for t
    using client_lines_ends [where env = env and s = t, OF assms(1) that(1)] that(2) assms(2) by (simp add: fits_def)
  have tls: "left" if "echo_tls_client n env h ip fd t = Inr (left, s')" "fits t" for h fd t
    using that by (auto simp: echo_tls_client_def run_simps fits_def split: if_splits intro: lines [unfolded fits_def])
  from assms(3) obtain s1 fd s2 where "configure_client_context env c s = Inr ((), s1)"
    and "create_echo_socket env False s1 = Inr (fd, s2)"
    and rest: "bnd (ext_call env (InetPton ip)) (\<lambda>a.
     let addr = (case bytes a of [b3, b2, b1, b0] \<Rightarrow> if ret a = 1 then Some (be32 b3 b2 b1 b0) else None
                 | _ \<Rightarrow> None) in
     bnd (ext_ret env (Connect fd
           \<lparr>sin_family = Some AF_INET, sin_port = Some echo_port, sin_addr = addr\<rparr>)) (\<lambda>r.
     if r \<noteq> 0 then return True else
     bnd (ext_ret env (SSL_new (Some c))) (\<lambda>h.
     thn (modify (\<lambda>s. s\<lparr>ssl_object := nat h\<rparr>)) (echo_tls_client n env (nat h) ip fd))))
      (s2\<lparr>client_skt := fd\<rparr>) = Inr (left, s')"
    by (auto simp: echo_client_def bnd_eq_Inr [of "create_echo_socket env False"]
        thn_eq_Inr [of "configure_client_context env c"] thn_prim_run simp del: if_split)
  with hoareD(1) [OF setup_faults(4)] hoareD(1) [OF setup_faults(1)] assms(4) have "fits s2" by blast
  with rest show ?thesis
    by (auto simp: run_simps Let_def fits_def split: if_splits intro: tls [unfolded fits_def])
qed

section \<open>Properties\<close>

text \<open>
  C39. The echo program gives back what it takes. Whenever \<open>echo_main\<close> comes to
  its end, as a server or as a client and with whatever clients, the TLS objects that were
  freed are those that were made, each once and in that order, and the descriptors that were
  closed are the accepted ones and then its own socket.
\<close>

theorem echo_gives_back:
  assumes "echo_main m n env argv newSslecho = Inr (True, s')"
  shows "\<exists>made accepted sockets. ledger (trace s') = (made, made, accepted, sockets, accepted @ sockets)"
proof -
  let ?s = "newSslecho\<lparr>trace := [(IgnoreSigpipe, env [] IgnoreSigpipe)]\<rparr>"
  from assms obtain isServer c s1 s2 where ctx: "create_echo_context env isServer ?s = Inr (c, s1)"
    and run: "(if isServer then echo_server m n env c else echo_client n env c (argv ! 2)) s1 = Inr (True, s2)"
    and fin: "echo_exit env c s2 = Inr ((), s')"
    by (auto simp: echo_main_def usage_def run_simps newSslecho_def Let_def prog_eq_Inr
        simp del: replicate_Cons_numeral split: if_split_asm)
  from echo_context_run [OF ctx] have s1: "ledger (trace s1) = ([], [], [], [], [])" "server_running s1"
    "ssl_object s1 = 0" "server_skt s1 = -1"
    by (auto simp: newSslecho_def ledger_append) (simp_all add: ledger_def)
  have "at_exit s2"
    using run s1 echo_server_at_exit [of m n env c s1 s2] echo_client_at_exit [of n env c "argv ! 2" s1 s2]
    by (auto split: if_splits)
  from echo_exit_ledger [OF this fin] show ?thesis .
qed

text \<open>
  C37. The echo server answers. Whenever \<open>echo_loop\<close> returns, the chunks that
  \<open>SSL_read\<close> delivered are not empty and shorter than the buffer; every chunk
  before the kill command is written back unchanged, in order, and its text printed; at most
  one chunk, the kill command, is read and not echoed; and \<open>server_running\<close> is
  cleared exactly when it came. When reads fail from the k-th call on, a bound larger than the
  number of calls left lets the loop be left.
\<close>

theorem echo_server_answers:
  assumes "echo_loop n env s = Inr (left, s')" and "length (rxbuf s) = 128"
  shows "\<exists>cs. chunks (trace s') = chunks (trace s) @ cs \<and> list_all (\<lambda>c. c \<noteq> [] \<and> length c < 128) cs \<and>
           written (trace s') = written (trace s) @ map (map Some) (echo_of cs) \<and>
           shown s' = shown s @ map text_of (echo_of cs) \<and>
           length cs \<le> Suc (length (echo_of cs)) \<and>
           (server_running s' \<longleftrightarrow> server_running s \<and> echo_of cs = cs) \<and>
           (if ended k env \<and> k - length (trace s) < n then left else True)"
proof -
  have "if ended k env \<and> k - length (trace s) < n then left else True"
    using echo_loop_ends [where k = k and env = env and s = s, OF _ assms] by simp
  with echo_loop_stream [OF assms] show ?thesis by blast
qed

definition echo_world :: env where
  "echo_world = script [delivers [0x68, 0x69, 0x0A], answers 3, delivers kill_text]"

theorem echo_server_answers_witness:
  "\<exists>s'. echo_loop 5 echo_world newSslecho = Inr (True, s') \<and> \<not> server_running s' \<and>
        written (trace s') = [map Some [0x68, 0x69, 0x0A]]"
proof -
  have "case echo_loop 5 echo_world newSslecho of Inl e \<Rightarrow> False
      | Inr (left, s') \<Rightarrow> left \<and> chunks (trace s') = [[0x68, 0x69, 0x0A], kill_text] \<and> trace newSslecho = []" by code_simp
  then obtain l s' where run: "echo_loop 5 echo_world newSslecho = Inr (l, s')"
    and l: "l \<and> chunks (trace s') = [[0x68, 0x69, 0x0A], kill_text] \<and> trace newSslecho = []"
    by (cases "echo_loop 5 echo_world newSslecho") auto
  have "length (rxbuf newSslecho) = 128"
    by (simp add: newSslecho_def rxcap_def del: replicate_Cons_numeral)
  moreover have "echo_of [[0x68, 0x69, 0x0A], kill_text] = [[0x68, 0x69, 0x0A]]"
    by (simp add: echo_of_def kill_text_def)
  ultimately show ?thesis using echo_server_answers [OF run] l run by auto
qed

text \<open>
  C38. Lines come back. When what the server reads is what the client wrote, what the client
  reads is what the server wrote, and the kill command is not among the lines, then the client
  has printed exactly the lines it sent, the server has printed the same texts, and the server
  is still running.
\<close>

theorem echo_round_trip:
  assumes "echo_loop n env s = Inr (l, s')" and "length (rxbuf s) = 128"
    and "client_lines m cenv c = Inr (l', c')" and "length (rxbuf c) = 128"
    and "chunks (trace s) = []" "written (trace s) = []" "shown s = []"
    and "chunks (trace c) = []" "written (trace c) = []" "shown c = []"
    and "map (map Some) (chunks (trace s')) = written (trace c')"
    and "map (map Some) (chunks (trace c')) = written (trace s')"
    and "map Some kill_text \<notin> set (written (trace c'))"
  shows "map (map Some) (shown c') = written (trace c') \<and> shown s' = shown c' \<and>
         server_running s' = server_running s"
proof -
  obtain cs where cs: "chunks (trace s') = cs" "written (trace s') = map (map Some) (echo_of cs)"
    "shown s' = map text_of (echo_of cs)" "server_running s' \<longleftrightarrow> server_running s \<and> echo_of cs = cs"
    using echo_loop_stream [OF assms(1,2)] assms(5-7) by auto
  obtain ls ds where ls: "written (trace c') = map (map Some) ls" "chunks (trace c') = ds"
    "shown c' = map text_of ds" "list_all sent_line ls"
    using client_lines_stream [OF assms(3,4)] assms(8-10) by auto
  have inj: "map (map Some) xs = map (map Some) ys \<Longrightarrow> xs = ys" for xs ys :: "byte list list"
    by (metis inj_mapI inj_map_eq_map inj_Some)
  have "cs = ls" using assms(11) cs(1) ls(1) by (intro inj) simp
  have same: "text_of l = l" if "l \<in> set ls" for l
    using that ls(4) by (auto simp: list_all_iff sent_line_def takeWhile_eq_all_conv)
  have "kill_text \<notin> set ls" using assms(13) ls(1) by force
  then have "text_of l \<noteq> kill_text" if "l \<in> set ls" for l using same [OF that] that by metis
  then have "echo_of ls = ls" by (simp add: echo_of_def takeWhile_eq_all_conv)
  have "ds = ls" using assms(12) ls(2) cs(2) \<open>cs = ls\<close> \<open>echo_of ls = ls\<close> by (intro inj) simp
  have "map text_of ls = ls" using same by (simp add: map_idI)
  then show ?thesis using cs ls \<open>cs = ls\<close> \<open>ds = ls\<close> \<open>echo_of ls = ls\<close> by simp
qed

definition typing_world :: env where
  "typing_world = script [\<lparr>ret = 1, bytes = [0x68, 0x69, 0x0A], sender = uninit_sockaddr\<rparr>, answers 3,
     delivers [0x68, 0x69, 0x0A], answers 0]"

definition listening_world :: env where
  "listening_world = script [delivers [0x68, 0x69, 0x0A], answers 3, answers 0]"

theorem echo_round_trip_witness:
  "\<exists>s' c'. echo_loop 3 listening_world newSslecho = Inr (True, s') \<and>
     client_lines 3 typing_world newSslecho = Inr (True, c') \<and> shown s' = shown c' \<and>
     server_running s' = server_running newSslecho"
proof -
  let ?hi = "[0x68, 0x69, 0x0A] :: byte list"
  have "case echo_loop 3 listening_world newSslecho of Inl e \<Rightarrow> False
      | Inr (left, s') \<Rightarrow> left \<and> chunks (trace s') = [?hi] \<and> written (trace s') = [map Some ?hi]"
    by code_simp
  then obtain l s' where server: "echo_loop 3 listening_world newSslecho = Inr (l, s')"
    and s: "l" "chunks (trace s') = [?hi]" "written (trace s') = [map Some ?hi]"
    by (cases "echo_loop 3 listening_world newSslecho") auto
  have "case client_lines 3 typing_world newSslecho of Inl e \<Rightarrow> False
      | Inr (left, c') \<Rightarrow> left \<and> chunks (trace c') = [?hi] \<and> written (trace c') = [map Some ?hi]"
    by code_simp
  then obtain l' c' where client: "client_lines 3 typing_world newSslecho = Inr (l', c')"
    and c: "l'" "chunks (trace c') = [?hi]" "written (trace c') = [map Some ?hi]"
    by (cases "client_lines 3 typing_world newSslecho") auto
  have new: "length (rxbuf newSslecho) = 128" "chunks (trace newSslecho) = []"
    "written (trace newSslecho) = []" "shown newSslecho = []"
    by (simp_all add: newSslecho_def rxcap_def del: replicate_Cons_numeral)
  from echo_round_trip [OF server new(1) client new(1) new(2-4) new(2-4)] s c server client show ?thesis
    by (auto simp: kill_text_def)
qed

text \<open>One client that sends the kill command.\<close>

definition killing_world :: env where
  "killing_world = script
     [answers 0, answers 5, answers 1, answers 1, answers 3, answers 0, answers 0, answers 0, answers 4,
      answers 7, answers 1, answers 1, delivers kill_text]"

theorem echo_gives_back_witness:
  "\<exists>s' made. echo_main 2 2 killing_world [''sslecho'', ''s''] newSslecho = Inr (True, s') \<and>
             ledger (trace s') = (made, made, [4], [3], [4, 3])"
proof -
  have "case echo_main 2 2 killing_world [''sslecho'', ''s''] newSslecho of Inl e \<Rightarrow> False
      | Inr (ok, s') \<Rightarrow> ok \<and> fst (snd (snd (ledger (trace s')))) = [4] \<and>
                       fst (snd (snd (snd (ledger (trace s'))))) = [3]" by code_simp
  then obtain ok s' where run: "echo_main 2 2 killing_world [''sslecho'', ''s''] newSslecho = Inr (ok, s')"
    and l: "ok" "fst (snd (snd (ledger (trace s')))) = [4]" "fst (snd (snd (snd (ledger (trace s'))))) = [3]"
    by (cases "echo_main 2 2 killing_world [''sslecho'', ''s''] newSslecho") auto
  from run l(1) have "echo_main 2 2 killing_world [''sslecho'', ''s''] newSslecho = Inr (True, s')" by simp
  with echo_gives_back [OF this] l show ?thesis by auto
qed

text \<open>
  C40. How the echo program ends. As a server or as a client, with any arguments and any peers,
  it ends otherwise than at its \<open>return\<close> only with
  \<open>exit(EXIT_FAILURE)\<close>, with an answer that breaks a documented contract, or by
  writing one past the end of its receive buffer, and the last only in a world in which
  \<open>SSL_read\<close> fills all 128 bytes; no unwritten byte is ever used as text. A client
  whose reads fail from the k-th call on leaves its loop within k + 1 lines.
\<close>

theorem echo_outcome:
  "case echo_main m n env argv newSslecho of
     Inl e \<Rightarrow> e \<in> {ExitFailure, EnvContract} \<union>
                  (if \<exists>tr h. ret (env tr (SSL_read h 128)) = 128 then {OutOfBounds} else {})
   | Inr (left, s') \<Rightarrow> if take 1 (argv ! 1) \<noteq> ''s'' \<and> ended k env \<and> k < n then left else True"
proof (cases "echo_main m n env argv newSslecho")
  case (Inl e)
  have "fits newSslecho" by (simp add: fits_def newSslecho_def rxcap_def del: replicate_Cons_numeral)
  from hoareD(2) [OF echo_main_faults this Inl] Inl show ?thesis by (simp add: echo_faults_def)
next
  case (Inr r)
  obtain left s' where r: "r = (left, s')" by (cases r)
  let ?s = "newSslecho\<lparr>trace := [(IgnoreSigpipe, env [] IgnoreSigpipe)]\<rparr>"
  let ?srv = "case argv ! 1 of [] \<Rightarrow> False | x # xs \<Rightarrow> x = CHR ''s''"
  have "left" if "take 1 (argv ! 1) \<noteq> ''s''" "ended k env" "k < n"
  proof -
    from that(1) have "\<not> ?srv" by (cases "argv ! 1") auto
    with Inr r obtain c s1 l s2 where ctx: "create_echo_context env False ?s = Inr (c, s1)"
      and run: "echo_client n env c (argv ! 2) s1 = Inr (l, s2)"
      and fin: "(if l then thn (echo_exit env c) (return True) else return False) s2 = Inr (left, s')"
      by (auto simp: echo_main_def usage_def thn_eq_Inr bnd_eq_Inr run_simps newSslecho_def
          simp del: replicate_Cons_numeral if_split split: if_split_asm)
    have "fits ?s" by (simp add: fits_def newSslecho_def rxcap_def del: replicate_Cons_numeral)
    from hoareD(1) [OF setup_faults(2) this ctx] have "fits s1" .
    with echo_client_ends [OF that(2,3) run] have "l" .
    with fin show ?thesis by (auto simp: thn_eq_Inr return_def)
  qed
  with Inr r show ?thesis by simp
qed

text \<open>One client, whose first message fills the buffer.\<close>

definition filling_world :: env where
  "filling_world = script
     [answers 0, answers 5, answers 1, answers 1, answers 3, answers 0, answers 0, answers 0, answers 4,
      answers 7, answers 1, answers 1, delivers (replicate 128 0x41)]"

theorem echo_outcome_witness:
  "echo_main 1 1 filling_world [''sslecho'', ''s''] newSslecho = Inl OutOfBounds \<and>
   (\<exists>tr h. ret (filling_world tr (SSL_read h 128)) = 128)"
proof -
  have "case echo_main 1 1 filling_world [''sslecho'', ''s''] newSslecho of Inl e \<Rightarrow> e = OutOfBounds | Inr r \<Rightarrow> False"
    by code_simp
  then have run: "echo_main 1 1 filling_world [''sslecho'', ''s''] newSslecho = Inl OutOfBounds"
    by (simp split: sum.splits)
  from echo_outcome [where m = 1 and n = 1 and env = filling_world and argv = "[''sslecho'', ''s'']" and k = 0] run show ?thesis by (auto split: if_splits)
qed

end
