(* ===== verification/Doip_Iterators.thy ===== *)
theory Doip_Iterators
  imports Doip_Prelude
begin

text \<open>
  The program \<open>examples/unique_ptrs_it.cpp\<close>, which tries out what becomes of iterators into a
  \<open>std::vector\<close> after an element was erased, first for a vector of objects and then for one of
  \<open>std::unique_ptr\<close>. A vector keeps, beside its elements, the positions from which each change has
  invalidated the iterators made before it, as the standard states it: \<open>erase\<close> invalidates those
  at and after the erased element, an assignment all of them, and so does \<open>push_back\<close>, which may
  move the elements. Using an invalidated iterator is the error \<open>UseAfterFree\<close>.
\<close>

section \<open>Vectors and iterators\<close>

record 'a vec =
  elems :: "'a list"
  cuts :: "nat list"   \<comment> \<open>one entry for each change, the newest first\<close>

text \<open>A position, and the number of changes before the iterator was made.\<close>

datatype iterator = Iterator (position: nat) (made_after: nat)

definition empty_vec :: "'a vec" where
  "empty_vec = \<lparr>elems = [], cuts = []\<rparr>"

definition vec_assign :: "'a list \<Rightarrow> 'a vec \<Rightarrow> 'a vec" where
  "vec_assign xs v = \<lparr>elems = xs, cuts = 0 # cuts v\<rparr>"

definition push_back :: "'a \<Rightarrow> 'a vec \<Rightarrow> 'a vec" where
  "push_back x v = \<lparr>elems = elems v @ [x], cuts = 0 # cuts v\<rparr>"

definition vec_begin :: "'a vec \<Rightarrow> iterator" where
  "vec_begin v = Iterator 0 (length (cuts v))"

text \<open>\<open>end() - k\<close>.\<close>

definition before_end :: "nat \<Rightarrow> 'a vec \<Rightarrow> iterator result" where
  "before_end k v =
     (if k \<le> length (elems v) then Inr (Iterator (length (elems v) - k) (length (cuts v)))
      else Inl OutOfBounds)"

definition valid_iterator :: "iterator \<Rightarrow> 'a vec \<Rightarrow> bool" where
  "valid_iterator it v \<longleftrightarrow>
     list_all (\<lambda>p. position it < p) (take (length (cuts v) - made_after it) (cuts v))"

definition vec_at :: "iterator \<Rightarrow> 'a vec \<Rightarrow> 'a result" where
  "vec_at it v =
     (if \<not> valid_iterator it v then Inl UseAfterFree
      else if position it < length (elems v) then Inr (elems v ! position it)
      else Inl OutOfBounds)"

definition vec_erase :: "iterator \<Rightarrow> 'a vec \<Rightarrow> 'a vec result" where
  "vec_erase it v =
     rbind (vec_at it v) (\<lambda>_.
     Inr \<lparr>elems = take (position it) (elems v) @ drop (Suc (position it)) (elems v),
          cuts = position it # cuts v\<rparr>)"

section \<open>The program\<close>

text \<open>Its class \<open>DoIPConnection\<close>, which has a number only.\<close>

record socket_object =
  obj_sock :: int

type_synonym unique_ptr = "socket_object option"

definition make_unique :: "int \<Rightarrow> unique_ptr" where
  "make_unique n = Some \<lparr>obj_sock = n\<rparr>"

definition through :: "unique_ptr \<Rightarrow> int result" where
  "through p = (case p of None \<Rightarrow> Inl BadPointer | Some c \<Rightarrow> Inr (obj_sock c))"

text \<open>The two global vectors, and the numbers of each line that was printed.\<close>

record iterator_state =
  connections :: "unique_ptr vec"
  conns :: "socket_object vec"
  lines_printed :: "int list list"

definition newIterators :: iterator_state where
  "newIterators = \<lparr>connections = empty_vec, conns = empty_vec, lines_printed = []\<rparr>"

definition print_line :: "int list result \<Rightarrow> (iterator_state, unit) prog" where
  "print_line r = bnd (lift r) (\<lambda>ns. modify (\<lambda>s. s\<lparr>lines_printed := lines_printed s @ [ns]\<rparr>))"

text \<open>\<open>for (auto &conn : v)\<close>.\<close>

fun numbers :: "('a \<Rightarrow> int result) \<Rightarrow> 'a list \<Rightarrow> int list result" where
  "numbers f [] = Inr []"
| "numbers f (x # xs) = rbind (f x) (\<lambda>n. rbind (numbers f xs) (\<lambda>ns. Inr (n # ns)))"

definition print_conns :: "(iterator_state, unit) prog" where
  "print_conns = bnd (gets conns) (\<lambda>v. print_line (numbers (\<lambda>c. Inr (obj_sock c)) (elems v)))"

definition print_conn_at :: "iterator \<Rightarrow> (iterator_state, unit) prog" where
  "print_conn_at it = bnd (gets conns) (\<lambda>v. print_line (rbind (vec_at it v) (\<lambda>c. Inr [obj_sock c])))"

definition print_connections :: "(iterator_state, unit) prog" where
  "print_connections = bnd (gets connections) (\<lambda>v. print_line (numbers through (elems v)))"

definition print_connection_at :: "iterator \<Rightarrow> (iterator_state, unit) prog" where
  "print_connection_at it =
     bnd (gets connections) (\<lambda>v.
     print_line (rbind (vec_at it v) (\<lambda>p. rbind (through p) (\<lambda>n. Inr [n]))))"

text \<open>The part on \<open>conns\<close>, up to its last two lines; the result are the iterators these use.\<close>

definition object_part :: "(iterator_state, iterator \<times> iterator) prog" where
  "object_part =
     thn (modify (\<lambda>s. s\<lparr>conns := vec_assign [\<lparr>obj_sock = 1\<rparr>, \<lparr>obj_sock = 2\<rparr>, \<lparr>obj_sock = 3\<rparr>, \<lparr>obj_sock = 4\<rparr>, \<lparr>obj_sock = 5\<rparr>]
                                  (conns s)\<rparr>))
    (thn print_conns
    (bnd (gets conns) (\<lambda>v.
     bnd (lift (before_end 1 v)) (\<lambda>it_obj1.
     bnd (lift (before_end 2 v)) (\<lambda>it_obj2.
     thn (print_conn_at it_obj2)
    (thn (print_conn_at it_obj1)
    (bnd (lift (vec_erase (vec_begin v) v)) (\<lambda>v.
     thn (modify (\<lambda>s. s\<lparr>conns := v\<rparr>))
    (thn print_conns (return (it_obj1, it_obj2)))))))))))"

text \<open>The same on \<open>connections\<close>.\<close>

definition pointer_part :: "(iterator_state, iterator \<times> iterator) prog" where
  "pointer_part =
     thn (modify (\<lambda>s. s\<lparr>connections := push_back (make_unique 5) (push_back (make_unique 4)
            (push_back (make_unique 3) (push_back (make_unique 2) (push_back (make_unique 1) (connections s)))))\<rparr>))
    (thn print_connections
    (bnd (gets connections) (\<lambda>v.
     bnd (lift (before_end 1 v)) (\<lambda>it_un1.
     bnd (lift (before_end 2 v)) (\<lambda>it_un2.
     thn (print_connection_at it_un2)
    (thn (print_connection_at it_un1)
    (bnd (lift (vec_erase (vec_begin v) v)) (\<lambda>v.
     thn (modify (\<lambda>s. s\<lparr>connections := v\<rparr>))
    (thn print_connections (return (it_un1, it_un2)))))))))))"

definition iterators_main :: "(iterator_state, int) prog" where
  "iterators_main =
     bnd object_part (\<lambda>(it_obj1, it_obj2).
     thn (print_conn_at it_obj2)
    (thn (print_conn_at it_obj1)
    (bnd pointer_part (\<lambda>(it_un1, it_un2).
     thn (print_connection_at it_un2)
    (thn (print_connection_at it_un1) (return 0))))))"

section \<open>What becomes of the iterators\<close>

lemma before_end_valid:
  "before_end k v = Inr it \<Longrightarrow> valid_iterator it v"
  by (auto simp: before_end_def valid_iterator_def split: if_splits)

text \<open>An iterator outlives \<open>erase\<close> when it stands before the erased element, and then it sees the same element.\<close>

lemma valid_after_erase:
  assumes "vec_erase at v = Inr v'" and "made_after it \<le> length (cuts v)"
  shows "valid_iterator it v' \<longleftrightarrow> position it < position at \<and> valid_iterator it v"
proof -
  have "cuts v' = position at # cuts v" using assms(1) by (auto simp: vec_erase_def rbind_eq_Inr)
  with assms(2) show ?thesis by (auto simp: valid_iterator_def Suc_diff_le)
qed

lemma kept_by_erase:
  assumes "vec_erase at v = Inr v'" and "made_after it \<le> length (cuts v)" and "position it < position at"
    and "vec_at it v = Inr x"
  shows "vec_at it v' = Inr x"
proof -
  have "valid_iterator it v'"
    using valid_after_erase [OF assms(1,2)] assms(3,4) by (auto simp: vec_at_def split: if_splits)
  moreover have "elems v' ! position it = elems v ! position it" "position it < length (elems v')"
    using assms by (auto simp: vec_erase_def rbind_eq_Inr vec_at_def nth_append split: if_splits)
  ultimately show ?thesis using assms(4) by (auto simp: vec_at_def split: if_splits)
qed

lemma lost_by_erase_begin:
  assumes "before_end k v = Inr it" and "vec_erase (vec_begin v) v = Inr v'"
  shows "vec_at it v' = Inl UseAfterFree"
proof -
  have "made_after it \<le> length (cuts v)" using assms(1) by (auto simp: before_end_def split: if_splits)
  from valid_after_erase [OF assms(2) this] show ?thesis by (simp add: vec_at_def vec_begin_def)
qed

section \<open>What the program does\<close>

lemmas vector_defs = vec_erase_def vec_assign_def push_back_def before_end_def vec_at_def
  valid_iterator_def vec_begin_def empty_vec_def

definition numbers_shown :: "int list list" where
  "numbers_shown = [[1, 2, 3, 4, 5], [4], [5], [2, 3, 4, 5]]"

lemma object_part_run:
  "object_part newIterators = Inr ((Iterator 4 1, Iterator 3 1),
     \<lparr>connections = empty_vec,
      conns = \<lparr>elems = map (\<lambda>n. \<lparr>obj_sock = n\<rparr>) [2, 3, 4, 5], cuts = [0, 0]\<rparr>, lines_printed = numbers_shown\<rparr>)"
  by (simp add: object_part_def run_simps print_conns_def print_conn_at_def print_line_def vector_defs
      newIterators_def numbers_shown_def numeral_eq_Suc)

lemma pointer_part_run:
  "connections s = empty_vec \<Longrightarrow> pointer_part s = Inr ((Iterator 4 5, Iterator 3 5),
     s\<lparr>connections := \<lparr>elems = map make_unique [2, 3, 4, 5], cuts = replicate 6 0\<rparr>,
       lines_printed := lines_printed s @ numbers_shown\<rparr>)"
  by (simp add: pointer_part_def run_simps print_connections_def print_connection_at_def numbers_shown_def
      print_line_def vector_defs make_unique_def through_def numeral_eq_Suc)

text \<open>
  Both parts print the vector, the two elements, and the vector without its first element; the
  next use of either iterator, in both parts, is of one that the erasure has invalidated. The
  program is undefined at the first of them.
\<close>

lemma invalidated_after_object_part:
  assumes "object_part newIterators = Inr ((it1, it2), s)"
  shows "print_conn_at it1 s = Inl UseAfterFree" and "print_conn_at it2 s = Inl UseAfterFree"
  using assms by (auto simp: object_part_run print_conn_at_def print_line_def run_simps vec_at_def valid_iterator_def)

lemma invalidated_after_pointer_part:
  assumes "connections s = empty_vec" and "pointer_part s = Inr ((it1, it2), s')"
  shows "print_connection_at it1 s' = Inl UseAfterFree" and "print_connection_at it2 s' = Inl UseAfterFree"
  using assms(2) by (auto simp: pointer_part_run [OF assms(1)] print_connection_at_def print_line_def
      run_simps vec_at_def valid_iterator_def)

lemma iterators_main_undefined: "iterators_main newIterators = Inl UseAfterFree"
  by (simp add: iterators_main_def bnd_def [of object_part] object_part_run
      print_conn_at_def print_line_def run_simps vec_at_def valid_iterator_def)

end
