(* ===== verification/Spec2Isabelle.thy ===== *)
theory Spec2Isabelle
  imports Doip_Process_Runs Doip_Identity Doip_Wire Doip_Client Doip_Sslecho_Props Doip_Iterators
begin

text \<open>
  A model of libdoip, a C++ library for Diagnostics over IP (ISO 13400), and of the example
  server that comes with it, with the properties that make it correct.

  \<^bold>\<open>The program.\<close> A DoIP entity (\<open>libdoipserver/src/DoIPServer.cpp\<close>) opens TCP, TLS and UDP
  sockets, answers vehicle identification requests over UDP, announces the vehicle, and accepts
  testers over TCP or TLS. An accepted tester is a \<open>DoIPConnection\<close>
  (\<open>libdoipserver/src/DoIPConnection.cpp\<close>), which cuts the stream into messages, answers
  routing activation requests and malformed headers by itself, hands diagnostic messages to
  callbacks of the application, and is closed by an alive check timer
  (\<open>libdoipcommon/src/AliveCheckTimer.cpp\<close>) that runs in a thread of its own. The formats are
  in \<open>libdoipcommon/src/DoIPGenericHeaderHandler.cpp\<close>, \<open>DiagnosticMessageHandler.cpp\<close>,
  \<open>libdoipserver/src/RoutingActivationHandler.cpp\<close> and \<open>VehicleIdentificationHandler.cpp\<close>. The
  tester's side is \<open>libdoipclient/src/DoIPClient.cpp\<close>; \<open>examples/exampleDoIPServer.cpp\<close> is the
  application, one process with a thread for every tester. Two programs beside it share no code
  with the library: \<open>examples/tls_example.c\<close>, an echo server and client over TLS, and
  \<open>examples/unique_ptrs_it.cpp\<close>, which tries out iterators into a changing vector.

  \<^bold>\<open>The theories.\<close>
  \<^item> \<open>Doip_Prelude\<close>: outcomes of C++ code (a value, or an exception or undefined behaviour by
    name), arrays with cells that may never have been written, \<open>int\<close> with overflow as an error,
    programs that pass a state along, their Hoare rules, reachability.
  \<^item> \<open>Doip_Env\<close>: the operating system, OpenSSL and the scheduler as a parameter \<open>env\<close>, a function
    from the history of calls and the next call to its answer; the history is part of every
    state. \<open>Doip_Worlds\<close> has the concrete ones on which statements are evaluated.
  \<^item> \<open>Doip_Header\<close>, \<open>Doip_Diagnostic\<close>, \<open>Doip_Routing\<close>, \<open>Doip_Vehicle\<close>: the formats, one definition
    per function of the code, a table-driven reference \<open>header_spec\<close> for received headers, and
    the interfaces \<open>framed_message\<close>, \<open>recognised_message\<close> and \<open>unrecognised_message\<close> between the
    functions that build messages and the one that reads them. \<open>Doip_Wire\<close>: their properties.
  \<^item> \<open>Doip_Timer\<close>: the timer object, its thread's loop, and the timer as a state machine.
  \<^item> \<open>Doip_Connection\<close>: the class \<open>DoIPConnection\<close>, one definition per method, the state a record
    with the class's members. \<open>Doip_Connection_Ops\<close>: each operation's effect, and the protocol
    of a connection (\<open>peer\<close>, \<open>next_peer\<close>, \<open>library_reply\<close>) which the reaction implements.
    \<open>Doip_Connection_Inv\<close>: the interfaces between the library, the timer thread and the
    application's callbacks (\<open>slice_invariant\<close>, \<open>reading_invariant\<close>, \<open>connection_invariant\<close>), and
    the invariants. \<open>Doip_Connection_Receive\<close>: exact reading, whole messages, progress.
    \<open>Doip_Connection_Safe\<close>: which errors a connection can run into (\<open>safe_app\<close>).
  \<^item> \<open>Doip_Server\<close>: the class \<open>DoIPServer\<close>. \<open>Doip_Identity\<close>: what it tells of the vehicle, as a
    function of the calls made, refined against an abstract identity (\<open>server_invariant\<close> is what
    serving leaves alone). \<open>Doip_Client\<close>: the class \<open>DoIPClient\<close>.
  \<^item> \<open>Doip_Example\<close>: the example server; the interfaces above are interpreted on it.
    \<open>Doip_Stream\<close>: what it writes as a function of the bytes it receives. \<open>Doip_Machine\<close>: its
    connections as a state machine. \<open>Doip_Service\<close>: the properties of a connection.
    \<open>Doip_Main\<close>: \<open>main\<close> and its threads, as schedules over the one server object.
    \<open>Doip_Turns\<close>: a tester's thread cut into the turns it takes, one per reading of a message.
    \<open>Doip_Process\<close>: the process, \<open>main\<close>'s threads and those of all accepted testers, as schedules
    of turns. \<open>Doip_Process_Runs\<close>: what holds of every schedule.
  \<^item> \<open>Doip_Sslecho\<close>: the TLS echo program. \<open>Doip_Sslecho_Loops\<close>: its two loops.
    \<open>Doip_Sslecho_Props\<close>: its properties. \<open>Doip_Iterators\<close>: the iterator experiment.
  \<^item> This theory: the properties of the server and of the client, and those of both together.

  \<^bold>\<open>Representation.\<close> A byte is an \<open>8 word\<close>, \<open>unsigned short\<close>, \<open>unsigned int\<close> and \<open>unsigned
  long\<close> are words of 16, 32 and 64 bits, \<open>int\<close> is a HOL \<open>int\<close> whose overflow is the error
  \<open>SignedOverflow\<close>. A member without an initialiser is \<open>None\<close> until it is written, and using
  its value is the error \<open>Indeterminate\<close>. A pointer is \<open>None\<close> when it must not be dereferenced.
  Text written to \<open>std::cout\<close> is left out, but the reads of the bytes it prints are kept.
  Memory that is never released is not tracked.

  \<^bold>\<open>Threads.\<close> The timer thread's iterations are interleaved where the receiving thread blocks,
  in \<open>recv\<close> and \<open>SSL_read\<close>: the world chooses how many happen there. Its interleaving with the
  other, short, stretches of the receiving thread is not modelled, nor are data races at the
  level of the C++ memory model. The threads that \<open>main\<close> starts are interleaved at the calls of
  the server's methods (\<open>Doip_Main\<close>), and with them the threads of the accepted testers, at the
  calls of \<open>receiveTcpOrTlsMessage\<close> (\<open>Doip_Process\<close>): every tester has a world of its own, and
  they share only the example's counter of connections. An update of the counter is one step,
  so updates that are lost to a race are not modelled.

  \<^bold>\<open>Loops.\<close> \<open>waitForResponse\<close>, \<open>startTcpConnection\<close> and the loops of the examples may run for
  ever; their first argument bounds the iterations and their result says whether they were
  left. The properties give a bound that suffices: the number of entries the history can still
  get before the peer's stream ends (\<open>client_thread_ends\<close>, \<open>every_client_finishes\<close>,
  \<open>echo_outcome\<close>), the deadline passes (\<open>timeout_disconnects\<close>), or \<open>connect\<close> succeeds
  (\<open>client_connects\<close>). All other loops are total functions.

  \<^bold>\<open>What the properties say.\<close> They are numbered by importance. \<open>Doip_Wire\<close> has those of the
  formats, \<open>Doip_Service\<close> those of a connection and its thread, \<open>Doip_Main\<close> and
  \<open>Doip_Process_Runs\<close> those of the example's \<open>main\<close> and of its process, \<open>Doip_Sslecho_Props\<close>
  those of the echo program, this theory those of the server, of the client and of the two
  together. The strongest are \<open>every_client_served\<close> (in every schedule of the process, what
  each tester was written is what the messages in its own stream ask for),
  \<open>clients_do_not_interfere\<close> (a tester's connection is what it would be alone),
  \<open>every_client_finishes\<close> and \<open>client_turn_errors\<close> (its thread comes to an end, and what it can
  do to the process before), \<open>client_session\<close> (what a tester gets back, over TCP or TLS, is
  \<open>server_output\<close> of the messages in its stream, however they are cut into reads),
  \<open>client_thread_ends\<close> (a tester's thread ends when its stream does, and its errors are among
  those named), \<open>receive_refines_protocol\<close> (a call of \<open>receiveTcpOrTlsMessage\<close> is a step of the
  protocol, for any application whose close callback leaves the connection alone, and a connection
  is closed only after an expired timer, a failed read or a message the protocol refuses) and
  \<open>tester_and_server\<close> (the messages of the library's client, fed to the library's server).

  \<^bold>\<open>What modelling showed.\<close> Theorems about behaviour that is not intended: \<open>short_ack_accepted\<close>
  (a missing \<open>return\<close>), \<open>alive_check_response_rejected\<close> (the payload type 0x0008 is not
  recognised), \<open>application_sends\<close> and \<open>pass_to_application_outcome\<close> (an uninitialised pointer
  before routing activation), \<open>read_races_with_timer\<close> (the timer thread releases the TLS object
  that a read waits on, whenever the deadline passes during the wait) and \<open>reply_to_closed_socket\<close>
  (another race with the timer thread), \<open>example_program\<close> (a timeout is counted twice),
  \<open>unrouted_tester_ends_process\<close> (a tester that skips routing activation ends the process),
  \<open>datagram_answered\<close> (a short datagram reads an unwritten type), \<open>reply_goes_to_last_setup\<close>
  (replies over UDP do not go to the sender), \<open>announcement_before_setup\<close> (\<open>main\<close> may announce
  before the UDP thread has opened its socket, and then works on descriptor 0 and announces nothing
  if that is no socket), \<open>client_reads_message\<close> (a short acknowledgement is reported with a stale or
  an unwritten code),
  \<open>failed_handshake_ends_process\<close> (one failed TLS handshake ends the process),
  \<open>full_buffer_overflows\<close>, \<open>echo_outcome\<close> (the echo program may write past its receive buffer),
  \<open>iterators_main_undefined\<close> (invalidated iterators are used).

  \<^bold>\<open>Not modelled.\<close> The tests, their runner, the build rules, and the Python tester, which only
  calls a library. Text on the console is left out, except where a program prints what it
  received. OpenSSL, sockets, \<open>clock\<close> and \<open>ioctl\<close> are the parameter \<open>env\<close>; the contracts used
  are that a read which returns a positive number has stored that many bytes, no more than
  asked for (\<open>read_contract\<close>), that \<open>recvfrom\<close> and \<open>recv\<close> do likewise, that \<open>fgets\<close> leaves room
  for the terminating zero, and that \<open>inet_aton\<close> yields four bytes; an answer outside them is
  the error \<open>EnvContract\<close>.
\<close>

section \<open>A tester and the server\<close>

text \<open>
  What a server answers to a client that sends complete messages, over TCP or over TLS; over TLS
  none of them may have the largest length.
\<close>

lemma session_of_messages:
  assumes "new_connection c" and "handleClient m env c = Inr (left, c')"
    and "\<not> timeout (aliveCheckTimer c')" and "received (trace c') = received (trace c) @ concat ms"
    and "\<And>m. m \<in> set ms \<Longrightarrow> complete_message m" and "\<And>m. m \<in> set ms \<Longrightarrow> \<not> limit_header m"
  shows "written (trace c') = written (trace c) @
           map (map Some) (server_output (logicalGatewayAddress c) Unrouted ms)"
proof -
  have "frames (concat ms) = (ms, [])" by (rule complete_frames) (rule assms(5))
  moreover have "\<not> announces_limit (concat ms)" by (rule no_limit) (fact assms(5,6))+
  ultimately show ?thesis using handleClient_stream [OF assms(1-3)] assms(4) by auto
qed

lemma activation_request_message:
  "header_spec (take 8 activation_request) = Accepted ROUTINGACTIVATIONREQUEST 7"
  "complete_message activation_request" "\<not> limit_header activation_request"
proof -
  show v: "header_spec (take 8 activation_request) = Accepted ROUTINGACTIVATIONREQUEST 7"
    by code_simp
  show "complete_message activation_request" "\<not> limit_header activation_request"
    using complete_verdict [OF v] by (simp_all add: activation_request_def)
qed

lemma message_header:
  assumes "m = header_bytes t (of_nat (length p)) @ p" and "length p < 2 ^ 32 - 1"
    and "type_table t = Some ty" and "length_table ty (length p)"
  shows "complete_message m" and "header_spec (take 8 m) = Accepted ty (length p)"
    and "drop 8 m = p" and "\<not> limit_header m"
proof -
  have "unat (of_nat (length p) :: u32) = length p"
    using assms(2) by (intro of_nat_inverse [OF refl]) simp
  then show v: "header_spec (take 8 m) = Accepted ty (length p)"
    using header_spec_bytes [of t "of_nat (length p)" "[]"] assms by simp
  then show "complete_message m" "\<not> limit_header m"
    using complete_verdict [OF _ _ assms(2), of m ty] by (simp_all add: assms(1))
  show "drop 8 m = p" by (simp add: assms(1))
qed

text \<open>
  C3. Client and server together. When the bytes that
  \<open>sendRoutingActivationRequest\<close> and \<open>sendDiagnosticMessage\<close> of a
  client write are what a fresh server connection, over TCP or TLS, receives, the server writes
  exactly three messages: the positive activation response to 0x0E00, the positive diagnostic
  acknowledgement, and the application's answer, a diagnostic message whose source is the
  target address of the request and whose target is the tester.
\<close>

theorem tester_and_server:
  assumes "sockFd cl = Some fd" and "sendRoutingActivationRequest cenv cl = Inr (u, cl1)"
    and "sendDiagnosticMessage cenv (Some [Some a, Some b]) (map Some data) (int (length data)) cl1 =
         Inr (v, cl2)"
    and "data \<noteq> []" and "int (length data) \<le> int_max - 12"
    and "written (trace cl2) = written (trace cl) @ map (map Some) ms"
    and "new_connection c" and "handleClient m env c = Inr (left, c')"
    and "\<not> timeout (aliveCheckTimer c')" and "received (trace c') = received (trace c) @ concat ms"
  shows "written (trace c') = written (trace c) @ map (map Some)
           [activation_message (logicalGatewayAddress c) 0x0E 0x00 SuccessfullyRoutedCode,
            ack_message True LOGICAL_ADDRESS 0x0E 0x00 0x00,
            diagnostic_message (be16 a b) 0x0E 0x00 (application_data data)]"
proof -
  let ?p = "[0x0E, 0x00, a, b] @ data"
  let ?d = "header_bytes (0x80, 0x01) (of_nat (length ?p)) @ ?p"
  obtain tr1 where cl1: "cl1 = cl\<lparr>trace := trace cl @ tr1\<rparr>"
    and w1: "written tr1 = [map Some activation_request]"
    using sendRoutingActivationRequest_run [OF assms(1), of cenv] assms(2) by auto
  have "sockFd cl1 = Some fd" by (simp add: cl1 assms(1))
  from sendDiagnosticMessage_run [OF this assms(5), of cenv a b] assms(3)
  have "written (trace cl2) = written (trace cl1) @ [map Some ?d]" by auto
  with w1 assms(6) have "map (map Some) ms = map (map Some) [activation_request, ?d]" by (simp add: cl1)
  then have ms: "ms = [activation_request, ?d]" by (simp only: inj_map_eq_map inj_Some list.inj_map)
  have len: "length ?p < 2 ^ 31" using assms(5) by (simp add: int_max_def)
  have "length_table DIAGNOSTICMESSAGE (length ?p)" using assms(4) by (cases data) simp_all
  then have d: "complete_message ?d" "header_spec (take 8 ?d) = Accepted DIAGNOSTICMESSAGE (length ?p)"
    "drop 8 ?d = ?p" "\<not> limit_header ?d"
    using message_header [of ?d "(0x80, 0x01)" ?p DIAGNOSTICMESSAGE] len
    by (simp_all add: type_table.simps)
  note activation = activation_request_message
  have code: "activation_code 0x0E 0x00 0x00 = SuccessfullyRoutedCode" by code_simp
  have head: "drop 8 activation_request = [0x0E, 0x00, 0x00, 0x00, 0x00, 0x00, 0x00]"
    by (simp add: activation_request_def)
  have "server_output g Unrouted [activation_request, ?d] =
      [activation_message g 0x0E 0x00 SuccessfullyRoutedCode,
       ack_message True LOGICAL_ADDRESS 0x0E 0x00 0x00,
       diagnostic_message (be16 a b) 0x0E 0x00 (application_data data)]" for g
    using len unfolding server_output.simps message_replies_def message_next_def activation(1) d(2,3) head
    by (simp add: code diagnostic_replies_def)
  moreover have "complete_message x \<and> \<not> limit_header x" if "x \<in> set ms" for x
    using that activation(2,3) d(1,4) ms by auto
  ultimately show ?thesis
    using session_of_messages [OF assms(7-10)] ms by simp
qed


text \<open>A tester with a socket.\<close>

definition tester :: DoIPClient where
  "tester = (newDoIPClient [])\<lparr>sockFd := Some 3, sockFd_udp := Some 5\<rparr>"

lemma tester_simps [simp]:
  "sockFd tester = Some 3" "trace tester = []" "sockFd_udp tester = Some 5"
  by (simp_all add: tester_def newDoIPClient_def)

theorem tester_and_server_witness:
  "\<exists>cl1 cl2 c'. sendRoutingActivationRequest (script []) tester = Inr ((), cl1) \<and>
     sendDiagnosticMessage (script []) (Some [Some 0x00, Some 0x28]) (map Some [0x22, 0xF1, 0x90]) 3 cl1 =
       Inr ((), cl2) \<and>
     handleClient 5 tester_world accepted_tcp = Inr (True, c') \<and>
     concat (written (trace cl2)) = map Some (received (trace c')) \<and>
     written (trace c') = map (map Some)
       [activation_message LOGICAL_ADDRESS 0x0E 0x00 SuccessfullyRoutedCode,
        ack_message True LOGICAL_ADDRESS 0x0E 0x00 0x00,
        diagnostic_message 0x28 0x0E 0x00 [0x62, 0xF1, 0x90, 0x01, 0x02, 0x03, 0x04]]"
proof -
  let ?ms = "[take 15 tester_stream, drop 15 tester_stream]"
  obtain tr1 where send1: "sendRoutingActivationRequest (script []) tester =
      Inr ((), tester\<lparr>trace := trace tester @ tr1\<rparr>)" and w1: "written tr1 = [map Some activation_request]"
    using sendRoutingActivationRequest_run [of tester 3 "script []"] by auto
  let ?cl1 = "tester\<lparr>trace := trace tester @ tr1\<rparr>"
  obtain tr2 where send2: "sendDiagnosticMessage (script []) (Some [Some 0x00, Some 0x28])
      (map Some [0x22, 0xF1, 0x90]) (int (length [0x22, 0xF1, 0x90 :: byte])) ?cl1 =
      Inr ((), ?cl1\<lparr>trace := trace ?cl1 @ tr2\<rparr>)"
    and w2: "written tr2 = [map Some (header_bytes (0x80, 0x01) 7 @ [0x0E, 0x00, 0x00, 0x28, 0x22, 0xF1, 0x90])]"
    using sendDiagnosticMessage_run [where c = ?cl1 and fd = 3 and data = "[0x22, 0xF1, 0x90]" and
        env = "script []" and a = "0x00" and b = "0x28"]
    by (auto simp: int_max_def)
  have "take 15 tester_stream = activation_request"
    "drop 15 tester_stream = header_bytes (0x80, 0x01) 7 @ [0x0E, 0x00, 0x00, 0x28, 0x22, 0xF1, 0x90]"
    by code_simp+
  then have w: "written (trace (?cl1\<lparr>trace := trace ?cl1 @ tr2\<rparr>)) =
      written (trace tester) @ map (map Some) ?ms"
    using w1 w2 by simp
  obtain l c' where "handleClient 5 tester_world accepted_tcp = Inr (l, c')"
    and l: "l \<and> \<not> timeout (aliveCheckTimer c') \<and> received (trace c') = tester_stream"
    by (rule evaluated [OF tester_session])
  then have run: "handleClient 5 tester_world accepted_tcp = Inr (True, c')" by simp
  have "be16 0x00 0x28 = 0x28" by code_simp
  moreover have "application_data [0x22, 0xF1, 0x90] = [0x62, 0xF1, 0x90, 0x01, 0x02, 0x03, 0x04]"
    by code_simp
  moreover have "logicalGatewayAddress accepted_tcp = LOGICAL_ADDRESS"
    by (simp add: accepted_tcp_def newDoIPConnection_def)
  moreover have "received (trace c') = received (trace accepted_tcp) @ concat ?ms" using l by simp
  moreover have "int (length [0x22, 0xF1, 0x90 :: byte]) \<le> int_max - 12" by (simp add: int_max_def)
  ultimately have "written (trace c') = map (map Some)
       [activation_message LOGICAL_ADDRESS 0x0E 0x00 SuccessfullyRoutedCode,
        ack_message True LOGICAL_ADDRESS 0x0E 0x00 0x00,
        diagnostic_message 0x28 0x0E 0x00 [0x62, 0xF1, 0x90, 0x01, 0x02, 0x03, 0x04]]"
    using tester_and_server [OF tester_simps(1) send1 send2 _ _ w accepted_new(1) run] l
    by simp
  moreover have "concat (written (trace (?cl1\<lparr>trace := trace ?cl1 @ tr2\<rparr>))) = map Some (received (trace c'))"
    unfolding w using l by (simp add: map_concat [symmetric] map_append [symmetric] del: map_append)
  ultimately show ?thesis using send1 send2 run by auto
qed

text \<open>
  Alive check responses are refused. When what a fresh server connection receives is what
  \<open>sendAliveCheckResponse\<close> of a client writes, the server answers with a negative
  acknowledgement for an unknown payload type, because the parser does not know the type
  0x0008.
\<close>

lemma alive_check_response_rejected:
  assumes "sockFd cl = Some fd" and "sourceAddress cl = [Some x, Some y]"
    and "sendAliveCheckResponse cenv cl = Inr (u, cl')"
    and "written (trace cl') = written (trace cl) @ map (map Some) ms"
    and "new_connection c" and "handleClient m env c = Inr (left, c')"
    and "\<not> timeout (aliveCheckTimer c')" and "received (trace c') = received (trace c) @ concat ms"
  shows "written (trace c') = written (trace c) @ [map Some (nack_message UnknownPayloadTypeCode)]"
proof -
  let ?m = "header_bytes (0x00, 0x08) 2 @ [x, y]"
  have "map (map Some) ms = map (map Some) [?m]"
    using sendAliveCheckResponse_run [OF assms(1,2), of cenv] assms(3,4) by auto
  then have ms: "ms = [?m]" by (simp only: inj_map_eq_map inj_Some list.inj_map)
  have "unat (2 :: u32) = 2" by simp
  then have v: "header_spec (take 8 ?m) = Rejected UnknownPayloadTypeCode 2"
    using header_spec_bytes [of "(0x00, 0x08)" 2 "[]"] by (simp add: type_table.simps)
  then have "complete_message ?m \<and> \<not> limit_header ?m"
    by (simp add: complete_message_def limit_header_def verdict_length_def)
  then have "complete_message z \<and> \<not> limit_header z" if "z \<in> set ms" for z using that ms by simp
  moreover have "server_output g Unrouted [?m] = [nack_message UnknownPayloadTypeCode]" for g
    unfolding server_output.simps message_replies_def v by simp
  ultimately show ?thesis using session_of_messages [OF assms(5-8)] ms by simp
qed

definition alive_world :: env where
  "alive_world = script [delivers [0x02, 0xFD, 0x00, 0x08, 0, 0, 0, 2], answers 0, delivers [0x0E, 0x00]]"

lemma alive_check_response_rejected_witness:
  "\<exists>c'. handleClient 3 alive_world accepted_tcp = Inr (True, c') \<and>
        written (trace c') = [map Some (nack_message UnknownPayloadTypeCode)]"
proof -
  let ?cl = "tester\<lparr>sourceAddress := [Some 0x0E, Some 0x00]\<rparr>"
  obtain tr where send: "sendAliveCheckResponse (script []) ?cl = Inr ((), ?cl\<lparr>trace := trace ?cl @ tr\<rparr>)"
    and w: "written tr = [map Some (header_bytes (0x00, 0x08) 2) @ [Some 0x0E, Some 0x00]]"
    using sendAliveCheckResponse_run [of ?cl 3 "Some 0x0E" "Some 0x00" "script []"] by auto
  let ?m = "header_bytes (0x00, 0x08) 2 @ [0x0E, 0x00]"
  have sent: "written (trace (?cl\<lparr>trace := trace ?cl @ tr\<rparr>)) = written (trace ?cl) @ map (map Some) [?m]"
    using w by simp
  have "case handleClient 3 alive_world accepted_tcp of Inl e \<Rightarrow> False
   | Inr (left, c') \<Rightarrow> left \<and> \<not> timeout (aliveCheckTimer c') \<and>
       received (trace c') = header_bytes (0x00, 0x08) 2 @ [0x0E, 0x00]" by code_simp
  then obtain l c' where "handleClient 3 alive_world accepted_tcp = Inr (l, c')"
    and l: "l \<and> \<not> timeout (aliveCheckTimer c') \<and> received (trace c') = ?m" by (rule evaluated)
  then have run: "handleClient 3 alive_world accepted_tcp = Inr (True, c')" by simp
  have "received (trace c') = received (trace accepted_tcp) @ concat [?m]" using l by simp
  from alive_check_response_rejected [OF _ _ send sent accepted_new(1) run _ this] l run
  show ?thesis by auto
qed

section \<open>Vehicle discovery\<close>

text \<open>The text that \<open>displayVIResponseInformation\<close> prints.\<close>

definition identification_text :: "byte list \<Rightarrow> byte list \<Rightarrow> byte list \<Rightarrow> byte list \<Rightarrow> byte \<Rightarrow> string" where
  "identification_text vin la eid gid far =
     ''VIN: '' @ map (\<lambda>b. char_of (unat b)) vin @ [CHR 0x0A] @
     ''LogicalAddress: '' @ concat (map hex2 la) @ [CHR 0x0A] @
     ''EID: '' @ concat (map hex2 eid) @ [CHR 0x0A] @
     ''GID: '' @ concat (map hex2 gid) @ [CHR 0x0A] @
     ''FurtherActionRequest: '' @ hex2 far @ [CHR 0x0A]"

lemma show_cells_initialised:
  "i + n \<le> length bs \<Longrightarrow> show_cells f (map Some bs) i n = Inr (concat (map f (take n (drop i bs))))"
proof (induction n arbitrary: i)
  case 0
  then show ?case by simp
next
  case (Suc n)
  then have "drop i bs = bs ! i # drop (Suc i) bs" by (simp add: Cons_nth_drop_Suc)
  with Suc show ?case by simp
qed

lemma display_initialised:
  assumes "VINResult c = map Some vin" and "LogicalAddressResult c = map Some la"
    and "EIDResult c = map Some eid" and "GIDResult c = map Some gid"
    and "FurtherActionReqResult c = Some far"
    and "length vin = 17" "length la = 2" "length eid = 6" "length gid = 6"
  shows "displayVIResponseInformation c = Inr (identification_text vin la eid gid far)"
  using assms
  by (simp add: displayVIResponseInformation_def show_cells_initialised identification_text_def)

lemma vehicle_header:
  assumes "server_ok s" and "map Some bs = vehicle_bytes s"
  shows "length bs = 40" and "take 8 bs = header_bytes (0x00, 0x04) 32"
proof -
  have len: "length (map Some bs) = 40" unfolding assms(2) by (rule vehicle_bytes_length [OF assms(1)])
  then show "length bs = 40" by simp
  have "map Some (take 8 bs) = take 8 (vehicle_bytes s)"
    by (simp add: assms(2) [symmetric] take_map)
  then have "map Some (take 8 bs) = map Some (header_bytes (0x00, 0x04) 32)"
    by (simp add: vehicle_bytes_def)
  then show "take 8 bs = header_bytes (0x00, 0x04) 32" by (simp only: inj_map_eq_map inj_Some)
qed


text \<open>The client's side: the response arrives, is stored and printed.\<close>

lemma identification_received:
  assumes "server_ok s" and "EID s = map Some eid" and "GID s = map Some gid"
    and "client_ok c" and "sockFd_udp c = Some fd"
    and "a = env (trace c) (Recvfrom fd (of_nat maxDataSize))" and "ret a = 40"
    and "vehicle_message s = Inr (map Some (bytes a))"
  shows "\<exists>c'. receiveUdpMessageClient env c = Inr ((), c') \<and> clientAddr c' = sender a \<and>
           VINResult c' = map Some (vin_field (VIN s)) \<and>
           LogicalAddressResult c' = [Some (byte_at 8 (LogicalGatewayAddress s)),
                                      Some (byte_at 0 (LogicalGatewayAddress s))] \<and>
           EIDResult c' = EID s \<and> GIDResult c' = GID s \<and>
           FurtherActionReqResult c' = Some (FurtherActionReq s) \<and>
           displayVIResponseInformation c' = Inr (identification_text (vin_field (VIN s))
             [byte_at 8 (LogicalGatewayAddress s), byte_at 0 (LogicalGatewayAddress s)]
             eid gid (FurtherActionReq s))"
proof -
  have m: "map Some (bytes a) = vehicle_bytes s"
    using assms(8) vehicle_message_eq [OF assms(1)] by simp
  note head = vehicle_header [OF assms(1) m]
  let ?d = "map Some (bytes a) @ drop 40 (receivedData c)"
  let ?c = "c\<lparr>trace := trace c @ [(Recvfrom fd (of_nat maxDataSize), a)], receivedData := ?d,
               clientAddr := sender a\<rparr>"
  have put: "put_bytes (receivedData c) 0 (bytes a) = Inr ?d"
    using assms(4) head(1) by (simp add: put_bytes_def client_ok_def maxDataSize_def)
  have dlen: "length ?d = 64" using assms(4) head(1) by (simp add: client_ok_def maxDataSize_def)
  have ok: "client_ok ?c"
    using assms(4) dlen by (simp add: client_ok_def maxDataSize_def del: length_append)
  have "header_spec (header_bytes (0x00, 0x04) 32 @ drop 8 (bytes a)) = Accepted VEHICLEIDENTRESPONSE 32"
    by (simp add: header_spec_bytes type_table.simps)
  then have "header_spec (bytes a) = Accepted VEHICLEIDENTRESPONSE 32"
    by (metis head(2) append_take_drop_id)
  with parse_header_eq [of "bytes a" 40 "drop 40 (receivedData c)"] head(1) obtain act where
    parse: "parseGenericHeader ?d 40 = Inr act"
    and v: "verdict_of act = Some (Accepted VEHICLEIDENTRESPONSE 32)" by auto
  from v have ty: "action_type act = Some VEHICLEIDENTRESPONSE"
    by (auto simp: verdict_of_def split: option.splits if_splits)
  have run: "receiveUdpMessageClient env c = parseVIResponseInformation ?d ?c"
    using assms(5-7) head(1) put parse ty
    by (simp add: receiveUdpMessageClient_def store_received_def run_simps assms(6) [symmetric])
  have "40 \<le> length ?d" using dlen by simp
  from parseVIResponseInformation_eq [OF ok this] run
  have run': "receiveUdpMessageClient env c = Inr ((), store_response ?d ?c)" by simp
  have "length eid = 6" "length gid = 6"
    using assms(1-3) by (auto simp: server_ok_def)
  then have fields: "take 17 (drop 8 ?d) = map Some (vin_field (VIN s))"
    "take 2 (drop 25 ?d) = map Some [byte_at 8 (LogicalGatewayAddress s), byte_at 0 (LogicalGatewayAddress s)]"
    "take 6 (drop 27 ?d) = map Some eid" "take 6 (drop 33 ?d) = map Some gid"
    "?d ! 39 = Some (FurtherActionReq s)"
    unfolding m by (simp_all add: vehicle_bytes_def assms(2,3) nth_append)
  have "displayVIResponseInformation (store_response ?d ?c) = Inr (identification_text (vin_field (VIN s))
       [byte_at 8 (LogicalGatewayAddress s), byte_at 0 (LogicalGatewayAddress s)] eid gid (FurtherActionReq s))"
    by (rule display_initialised)
       (simp_all add: store_response_def fields \<open>length eid = 6\<close> \<open>length gid = 6\<close> del: drop_append take_append)
  with run' show ?thesis
    by (intro exI [of _ "store_response ?d ?c"])
       (simp add: store_response_def fields assms(2,3) del: drop_append take_append)
qed

lemma static_server_simps [simp]:
  "trace (static_server tr) = tr" "server_ok (static_server tr)"
  "EID (static_server tr) = replicate 6 (Some 0)" "GID (static_server tr) = replicate 6 (Some 0)"
  "server_socket_udp (static_server tr) = Some 0"
  by (simp_all add: static_server_def newDoIPServer_def server_ok_def del: replicate_Cons_numeral)

text \<open>The request, and the server's answer to it.\<close>

lemma identification_request_sent:
  assumes "sendVehicleIdentificationRequest env address c = Inr (u, c')" and "sockFd_udp c = Some fd"
  shows "datagrams (trace c') = datagrams (trace c) @
           [(fd, map Some (header_bytes (0x00, 0x01) 0), serverAddr c')] \<and>
         sockFd_udp c' = Some fd"
  using assms
  by (auto simp: sendVehicleIdentificationRequest_def set_server_text_def inet_aton_def
      buildVehicleIdentificationRequest_eq prog_eq_Inr run_simps fail_def
      split: list.splits if_splits)

lemma identification_request_answered:
  assumes "server_ok s" and "server_socket_udp s = Some fd"
    and "a = env (trace s) (Recvfrom fd (of_nat MaxDataSize))"
    and "ret a = 8" and "bytes a = header_bytes (0x00, 0x01) 0"
  shows "\<exists>q s' tr. receiveUdpMessage env s = Inr (q, s') \<and> trace s' = trace s @ tr \<and>
           datagrams tr = [(fd, vehicle_bytes s, reply_address s)]"
proof -
  have "header_spec (header_bytes (0x00, 0x01) 0) = Accepted VEHICLEIDENTREQUEST 0" by code_simp
  with receive_udp [where env = env, OF assms(1-3)] assms(4,5) show ?thesis
    by (simp add: MaxDataSize_def)
qed

text \<open>
  C13. Vehicle discovery, client and server together. When the datagram that
  \<open>sendVehicleIdentificationRequest\<close> of a client sends is what a server's
  \<open>receiveUdpMessage\<close> receives, and the datagram which that call sends is what the
  client's \<open>receiveUdpMessage\<close> receives, the client has stored exactly the
  server's VIN (cut or filled to 17 bytes), logical address, EID, GID and further action byte
  and the sender, and \<open>displayVIResponseInformation\<close> prints them in that order,
  bytes as two hexadecimal digits.
\<close>

theorem vehicle_discovery:
  assumes "client_ok cl" and "sockFd_udp cl = Some cfd"
    and "sendVehicleIdentificationRequest cenv address cl = Inr (u, cl1)"
    and "datagrams (trace cl1) = datagrams (trace cl) @ [(cfd, map Some request, dest)]"
    and "server_ok s" and "server_socket_udp s = Some fd"
    and "EID s = map Some eid" and "GID s = map Some gid"
    and "a = env (trace s) (Recvfrom fd (of_nat MaxDataSize))"
    and "ret a = int (length request)" and "bytes a = request"
    and "receiveUdpMessage env s = Inr (q, s1)"
    and "datagrams (trace s1) = datagrams (trace s) @ [(fd, map Some response, back)]"
    and "b = cenv (trace cl1) (Recvfrom cfd (of_nat maxDataSize))"
    and "ret b = int (length response)" and "bytes b = response"
  shows "\<exists>cl2. receiveUdpMessageClient cenv cl1 = Inr ((), cl2) \<and> clientAddr cl2 = sender b \<and>
           VINResult cl2 = map Some (vin_field (VIN s)) \<and>
           LogicalAddressResult cl2 = [Some (byte_at 8 (LogicalGatewayAddress s)),
                                       Some (byte_at 0 (LogicalGatewayAddress s))] \<and>
           EIDResult cl2 = EID s \<and> GIDResult cl2 = GID s \<and>
           FurtherActionReqResult cl2 = Some (FurtherActionReq s) \<and>
           displayVIResponseInformation cl2 = Inr (identification_text (vin_field (VIN s))
             [byte_at 8 (LogicalGatewayAddress s), byte_at 0 (LogicalGatewayAddress s)]
             eid gid (FurtherActionReq s))"
proof -
  from identification_request_sent [OF assms(3,2)] assms(4)
  have request: "request = header_bytes (0x00, 0x01) 0" and fd: "sockFd_udp cl1 = Some cfd"
    by (auto simp: inj_map_eq_map inj_Some)
  have ok: "client_ok cl1" using client_ok_send(4) assms(3,1) by (rule preservesD)
  from identification_request_answered [where env = env, OF assms(5,6,9)] assms(10-13) request
  have response: "map Some response = vehicle_bytes s" by auto
  with vehicle_message_eq [OF assms(5)] assms(16)
  have msg: "vehicle_message s = Inr (map Some (bytes b))" by simp
  have "length response = 40"
    using response vehicle_bytes_length [OF assms(5)] by (metis length_map)
  with assms(15) have "ret b = 40" by simp
  from identification_received [where env = cenv, OF assms(5,7,8) ok fd assms(14) this msg]
  show ?thesis .
qed

text \<open>A world in which the server's response comes back.\<close>

definition static_response :: "byte list" where
  "static_response = header_bytes (0x00, 0x04) 32 @ vin_field (VIN (static_server [])) @
    [byte_at 8 (LogicalGatewayAddress (static_server [])),
     byte_at 0 (LogicalGatewayAddress (static_server []))] @
    replicate 6 0 @ replicate 6 0 @ [FurtherActionReq (static_server [])]"

definition lan_world :: env where
  "lan_world tr k =
     (case k of
        Recvfrom fd n \<Rightarrow> if fd = 0 then delivers (header_bytes (0x00, 0x01) 0) else delivers static_response
      | InetAton a \<Rightarrow> \<lparr>ret = 1, bytes = [192, 168, 0, 255], sender = uninit_sockaddr\<rparr>
      | _ \<Rightarrow> answers 0)"

lemma static_response_eq: "map Some static_response = vehicle_bytes (static_server [])"
  by (simp add: static_response_def vehicle_bytes_def del: replicate_Cons_numeral)

theorem vehicle_discovery_witness:
  "\<exists>cl1 cl2. sendVehicleIdentificationRequest lan_world ''192.168.0.255'' tester = Inr ((), cl1) \<and>
     receiveUdpMessageClient lan_world cl1 = Inr ((), cl2) \<and>
     VINResult cl2 = map Some (vin_field (VIN (static_server []))) \<and>
     EIDResult cl2 = replicate 6 (Some 0)"
proof -
  let ?s = "static_server []"
  have ok: "client_ok tester" using client_ok_new [of "[]"] by (simp add: tester_def)
  obtain cl1 where send: "sendVehicleIdentificationRequest lan_world ''192.168.0.255'' tester = Inr ((), cl1)"
    by (simp add: sendVehicleIdentificationRequest_def set_server_text_def inet_aton_def
        buildVehicleIdentificationRequest_eq run_simps lan_world_def answers_def thn_def bnd_def)
  note sent = identification_request_sent [OF send tester_simps(3)]
  have a: "lan_world (trace ?s) (Recvfrom 0 (of_nat MaxDataSize)) = delivers (header_bytes (0x00, 0x01) 0)"
    and b: "lan_world (trace cl1) (Recvfrom 5 (of_nat maxDataSize)) = delivers static_response"
    by (simp_all add: lan_world_def)
  from identification_request_answered [where env = lan_world, OF static_server_simps(2,5) a [symmetric]]
  obtain q s1 tr where serve: "receiveUdpMessage lan_world ?s = Inr (q, s1)"
    and d: "datagrams (trace s1) = datagrams (trace ?s) @ [(0, map Some static_response, reply_address ?s)]"
    by (auto simp: delivers_def static_response_eq)
  have zero: "EID ?s = map Some (replicate 6 0)" "GID ?s = map Some (replicate 6 0)"
    by (simp_all del: replicate_Cons_numeral)
  from vehicle_discovery [where env = lan_world and cenv = lan_world, OF ok tester_simps(3) send _
      static_server_simps(2,5) zero a [symmetric] _ _ serve d b [symmetric]] sent send
  show ?thesis by (auto simp: delivers_def simp del: replicate_Cons_numeral)
qed

text \<open>
  C26. Answering a datagram. A datagram of at least eight bytes gets the replies that
  \<open>udp_reply\<close> gives for its header, sent on the UDP socket: the vehicle
  identification response to a vehicle identification request, a negative acknowledgement to a
  malformed header, nothing otherwise. A failed read or a shorter datagram makes the server
  branch on a type that was never written.
\<close>

theorem datagram_answered:
  assumes "server_ok s" and "server_socket_udp s = Some fd"
    and "a = env (trace s) (Recvfrom fd (of_nat MaxDataSize))"
    and "ret a = -1 \<or> ret a = int (length (bytes a)) \<and> length (bytes a) \<le> MaxDataSize"
  shows "if ret a < 8 then receiveUdpMessage env s = Inl Indeterminate
         else \<exists>q s' tr. receiveUdpMessage env s = Inr (q, s') \<and> trace s' = trace s @ tr \<and>
           datagrams tr = map (\<lambda>m. (fd, m, reply_address s)) (udp_reply s (header_spec (bytes a)))"
proof (cases "ret a < 8")
  case True
  then show ?thesis using receive_udp_short [where env = env, OF assms(2,1,3) True] assms(4) by auto
next
  case False
  then show ?thesis using receive_udp [where env = env, OF assms(1-3)] assms(4) by auto
qed

theorem datagram_answered_witness:
  "receiveUdpMessage (\<lambda>tr k. answers (-1)) (static_server []) = Inl Indeterminate \<and>
   (\<exists>q s' tr. receiveUdpMessage (\<lambda>tr k. delivers (header_bytes (0x00, 0x01) 0)) (static_server []) =
      Inr (q, s') \<and> trace s' = tr \<and>
      datagrams tr = [(0, vehicle_bytes (static_server []), reply_address (static_server []))])"
proof -
  have spec: "header_spec (header_bytes (0x00, 0x01) 0) = Accepted VEHICLEIDENTREQUEST 0" by code_simp
  have "8 \<le> MaxDataSize" by (simp add: MaxDataSize_def)
  then show ?thesis
    using datagram_answered [of "static_server []" 0 "answers (-1)" "\<lambda>tr k. answers (-1)"]
      datagram_answered [of "static_server []" 0 "delivers (header_bytes (0x00, 0x01) 0)"
        "\<lambda>tr k. delivers (header_bytes (0x00, 0x01) 0)"]
    by (simp add: answers_def delivers_def spec)
qed

text \<open>
  UDP replies do not go to the sender. After a TCP or TLS listener was set up, the answer
  to a vehicle identification request is sent to the address any at the port of that listener,
  whoever sent the request.
\<close>

lemma reply_goes_to_last_setup:
  assumes "server_ok s" and "server_socket_udp s = Some fd"
    and "setupTcpOrTlsSocket env tls s = Inr (u, s')"
    and "env (trace s') (Recvfrom fd (of_nat MaxDataSize)) =
         \<lparr>ret = 8, bytes = header_bytes (0x00, 0x01) 0, sender = peer\<rparr>"
  shows "\<exists>q t m a. receiveUdpMessage env s' = Inr (q, t) \<and>
           datagrams (trace t) = datagrams (trace s') @ [(fd, m, a)] \<and> vehicle_message s' = Inr m \<and>
           sin_port a = Some (if tls then ServerPortTLS else ServerPortTcpUdp) \<and>
           sin_addr a = Some INADDR_ANY"
proof -
  have spec: "header_spec (header_bytes (0x00, 0x01) 0) = Accepted VEHICLEIDENTREQUEST 0" by code_simp
  have ok: "server_ok s'" using sizes.inv_setup assms(3,1) by (rule preservesD)
  have fd: "server_socket_udp s' = Some fd" using setup_listens [OF assms(3)] assms(2) by auto
  have "8 \<le> MaxDataSize" by (simp add: MaxDataSize_def)
  with receive_udp [where env = env, OF ok fd assms(4) [symmetric]] obtain q t tr where
    "receiveUdpMessage env s' = Inr (q, t)" "trace t = trace s' @ tr"
    "datagrams tr = [(fd, vehicle_bytes s', reply_address s')]"
    by (auto simp: spec)
  with reply_after_setup [OF assms(3)] vehicle_message_eq [OF ok] show ?thesis
    by (intro exI [of _ q] exI [of _ t] exI [of _ "vehicle_bytes s'"] exI [of _ "reply_address s'"]) simp
qed

definition discovery_world :: env where
  "discovery_world tr k =
     (case k of
        Recvfrom fd n \<Rightarrow> \<lparr>ret = 8, bytes = header_bytes (0x00, 0x01) 0, sender = uninit_sockaddr\<rparr>
      | InetAton a \<Rightarrow> \<lparr>ret = 1, bytes = [255, 255, 255, 255], sender = uninit_sockaddr\<rparr>
      | SetBroadcast fd b \<Rightarrow> answers 0
      | _ \<Rightarrow> answers 1)"

lemma reply_goes_to_last_setup_witness:
  "\<exists>s' q t m a. setupTcpOrTlsSocket discovery_world True (static_server []) = Inr ((), s') \<and>
     receiveUdpMessage discovery_world s' = Inr (q, t) \<and>
     datagrams (trace t) = datagrams (trace s') @ [(0, m, a)] \<and> sin_port a = Some 4433"
proof -
  obtain s' where run: "setupTcpOrTlsSocket discovery_world True (static_server []) = Inr ((), s')"
    by (simp add: setupTcpOrTlsSocket_def setup_context_def create_context_def
        configure_context_client_auth_def open_listener_def set_server_address_def run_simps
        discovery_world_def answers_def thn_def bnd_def)
  have "discovery_world (trace s') (Recvfrom 0 (of_nat MaxDataSize)) =
      \<lparr>ret = 8, bytes = header_bytes (0x00, 0x01) 0, sender = uninit_sockaddr\<rparr>"
    by (simp add: discovery_world_def)
  from reply_goes_to_last_setup [OF _ _ run this] run show ?thesis
    by (auto simp: ServerPortTLS_def)
qed

lemma setup_errors:
  "hoare (\<lambda>_. True) (range RuntimeError) (setupTcpOrTlsSocket env tls) (\<lambda>_ _. True)"
proof -
  have call: "hoare (\<lambda>_. True) E (ext_ret env k) (\<lambda>_ _. True)"
    "hoare (\<lambda>_. True) E (ext_do env k) (\<lambda>_ _. True)"
    "hoare (\<lambda>_. True) E (modify f) (\<lambda>_ _. True)" for E k f
    by (simp_all add: hoare_def run_simps)
  show ?thesis
    unfolding setupTcpOrTlsSocket_def setup_context_def create_context_def
      configure_context_client_auth_def open_listener_def set_server_address_def
    by (intro keep keep_bnd call rangeI)
qed

text \<open>
  C30. Opening a listening socket. In every world \<open>setupTcpOrTlsSocket\<close> either
  throws a runtime error, or its last calls create a socket, bind it to any address at the port
  of TCP or TLS, and listen with a backlog of five; the descriptor is stored in the member for
  that protocol, and a TLS context exists for TLS and is untouched for TCP.
\<close>

theorem setupTcpOrTlsSocket_outcome:
  "case setupTcpOrTlsSocket env tls s of
     Inl e \<Rightarrow> \<exists>m. e = RuntimeError m
   | Inr (u, s') \<Rightarrow>
       \<exists>fd ks. 0 \<le> fd \<and> (if tls then server_socket_tls s' else server_socket_tcp s') = Some fd \<and>
         (if tls then ctx s' \<noteq> None else ctx s' = ctx s) \<and>
         calls_of (trace s') = calls_of (trace s) @ ks @
           [Socket True,
            Bind fd \<lparr>sin_family = Some AF_INET,
                     sin_port = Some (if tls then ServerPortTLS else ServerPortTcpUdp),
                     sin_addr = Some INADDR_ANY\<rparr>,
            Listen fd 5]"
proof (cases "setupTcpOrTlsSocket env tls s")
  case (Inl e)
  then have "\<exists>m. e = RuntimeError m" using hoareD(2) [OF setup_errors TrueI Inl] by auto
  with Inl show ?thesis by simp
next
  case (Inr p)
  obtain u s' where p: "p = (u, s')" by (cases p)
  have "ctx s' = ctx s" if "\<not> tls"
    using Inr that p open_listener_run [of env tls s u s'] by (auto simp: setupTcpOrTlsSocket_def prog_eq_Inr)
  moreover obtain fd tr where "0 \<le> fd"
    "(if tls then server_socket_tls s' else server_socket_tcp s') = Some fd" "tls \<longrightarrow> ctx s' \<noteq> None"
    "calls_of (trace s') = calls_of (trace s) @ calls_of tr @
       [Socket True, Bind fd (bound_to (if tls then ServerPortTLS else ServerPortTcpUdp)), Listen fd 5]"
    using setup_listens [OF Inr [unfolded p]] by blast
  ultimately show ?thesis
    unfolding Inr p sum.case prod.case bound_to_def
    by (intro exI [of _ fd] exI [of _ "calls_of tr"]) auto
qed

text \<open>
  C29. Vehicle announcements. When the broadcast address resolves and broadcasting can be
  enabled, the server sends exactly the configured number of vehicle identification messages to
  the broadcast address on port 13401; a count of zero or less makes it return a value that was
  never written.
\<close>

theorem vehicle_announcements:
  assumes "server_ok s" and "server_socket_udp s = Some fd"
    and "a = env (trace s) (InetAton ''255.255.255.255'')" and "ret a \<noteq> 0"
    and "bytes a = [b3, b2, b1, b0]"
    and "ret (env (trace s @ [(InetAton ''255.255.255.255'', a)]) (SetBroadcast fd (broadcast s))) = 0"
    and "dest = (clientAddress s)\<lparr>sin_port := Some 13401, sin_addr := Some (be32 b3 b2 b1 b0)\<rparr>"
  shows "if A_DoIP_Announce_Num s \<le> 0 then sendVehicleAnnouncement env s = Inl Indeterminate
         else \<exists>r tr m. sendVehicleAnnouncement env s =
                 Inr (r, s\<lparr>trace := trace s @ tr, clientAddress := dest\<rparr>) \<and>
               vehicle_message s = Inr m \<and>
               datagrams tr = replicate (nat (A_DoIP_Announce_Num s)) (fd, m, dest)"
  using announcement [where env = env, OF assms] vehicle_message_eq [OF assms(1)] by auto

theorem vehicle_announcements_witness:
  "\<exists>r tr m dest. sendVehicleAnnouncement discovery_world (static_server []) =
       Inr (r, (static_server [])\<lparr>trace := tr, clientAddress := dest\<rparr>) \<and>
     datagrams tr = replicate 3 (0, m, dest) \<and> sin_port dest = Some 13401 \<and>
     sin_addr dest = Some 0xFFFFFFFF"
proof -
  let ?s = "static_server []"
  define dest where "dest = (clientAddress ?s)\<lparr>sin_port := Some 13401, sin_addr := Some (be32 255 255 255 255)\<rparr>"
  have num: "A_DoIP_Announce_Num ?s = 3" by (simp add: static_server_def newDoIPServer_def)
  have "be32 255 255 255 255 = 0xFFFFFFFF" by code_simp
  then have "sin_port dest = Some 13401" "sin_addr dest = Some 0xFFFFFFFF" by (simp_all add: dest_def)
  moreover obtain r tr m where "sendVehicleAnnouncement discovery_world ?s =
      Inr (r, ?s\<lparr>trace := trace ?s @ tr, clientAddress := dest\<rparr>)"
    "datagrams tr = replicate (nat 3) (0, m, dest)"
    using vehicle_announcements [where s = ?s and env = discovery_world and fd = 0 and
        a = "\<lparr>ret = 1, bytes = [255, 255, 255, 255], sender = uninit_sockaddr\<rparr>", OF _ _ _ _ _ _ dest_def] num
    by (auto simp: discovery_world_def answers_def simp del: replicate_Cons_numeral)
  ultimately show ?thesis
    by (intro exI [of _ r] exI [of _ tr] exI [of _ m] exI [of _ dest])
       (simp del: replicate_Cons_numeral)
qed

lemma setEIDdefault_run:
  assumes "length (EID s) = 6" and "sock = env (trace s) (Socket False)"
    and "a = env (trace s @ [(Socket False, sock)]) (GetHwAddr (ret sock) ''ens33'')"
    and "length (bytes a) = 14"
  shows "setEIDdefault env s =
         Inr ((), s\<lparr>trace := trace s @ [(Socket False, sock), (GetHwAddr (ret sock) ''ens33'', a),
                      (CloseFd (ret sock),
                       env (trace s @ [(Socket False, sock), (GetHwAddr (ret sock) ''ens33'', a)])
                         (CloseFd (ret sock)))],
                    EID := if 0 \<le> ret a then map Some (take 6 (bytes a)) else replicate 6 None\<rparr>)"
  using setEIDdefault_stores [where env = env, OF assms(1-3) refl] assms(4)
  by (simp add: answered_address_def take_map del: replicate_Cons_numeral)

text \<open>
  C35. Identifiers. \<open>setEID\<close> and \<open>setGID\<close> store the low 48 bits of
  their argument in big-endian order and \<open>setFAR\<close> its low byte;
  \<open>setEIDdefault\<close> asks for the hardware address of the interface ens33 and stores
  its first six bytes, but six bytes that were never written when the request fails.
\<close>

theorem identifiers_outcome:
  assumes "server_ok s"
    and "fd = ret (env (trace s) (Socket False))"
    and "a = env (trace s @ [(Socket False, env (trace s) (Socket False))]) (GetHwAddr fd ''ens33'')"
    and "length (bytes a) = 14"
  shows "(\<exists>b. setEID x s = Inr ((), s\<lparr>EID := map Some b\<rparr>) \<and>
             setGID x s = Inr ((), s\<lparr>GID := map Some b\<rparr>) \<and> length b = 6 \<and> be48 b = take_bit 48 x) \<and>
         setFAR y s = Inr ((), s\<lparr>FurtherActionReq := ucast y\<rparr>) \<and>
         (\<exists>tr. setEIDdefault env s =
             Inr ((), s\<lparr>trace := trace s @ tr,
                        EID := if 0 \<le> ret a then map Some (take 6 (bytes a)) else replicate 6 None\<rparr>) \<and>
             calls_of tr = [Socket False, GetHwAddr fd ''ens33'', CloseFd fd])"
proof (intro conjI)
  have eid: "length (EID s) = 6" using assms(1) by (simp add: server_ok_def)
  show "\<exists>b. setEID x s = Inr ((), s\<lparr>EID := map Some b\<rparr>) \<and>
      setGID x s = Inr ((), s\<lparr>GID := map Some b\<rparr>) \<and> length b = 6 \<and> be48 b = take_bit 48 x"
    using assms(1)
    by (intro exI [of _ "id_bytes x"])
       (simp add: setEID_def setGID_def run_simps write_id_eq server_ok_def be48_id_bytes)
  have "byte_at 0 y = ucast y"
    by (rule bit_word_eqI) (auto simp: bit_byte_at bit_simps)
  then show "setFAR y s = Inr ((), s\<lparr>FurtherActionReq := ucast y\<rparr>)"
    by (simp add: setFAR_def run_simps)
  from setEIDdefault_run [where env = env, OF eid refl assms(3) [unfolded assms(2)] assms(4)]
  show "\<exists>tr. setEIDdefault env s =
           Inr ((), s\<lparr>trace := trace s @ tr,
                      EID := if 0 \<le> ret a then map Some (take 6 (bytes a)) else replicate 6 None\<rparr>) \<and>
         calls_of tr = [Socket False, GetHwAddr fd ''ens33'', CloseFd fd]"
    unfolding assms(2) by (intro exI) (rule conjI, assumption, simp)
qed

theorem identifiers_outcome_witness:
  "\<exists>b. setEID 0x010203040506 (static_server []) = Inr ((), (static_server [])\<lparr>EID := map Some b\<rparr>) \<and>
       be48 b = take_bit 48 0x010203040506"
proof -
  have "length (bytes (delivers (replicate 14 7))) = 14" by (simp add: delivers_def)
  from identifiers_outcome [where s = "static_server []" and env = "\<lambda>tr k. delivers (replicate 14 7)"
      and x = "0x010203040506", OF static_server_simps(2) refl refl this]
  show ?thesis by blast
qed

section \<open>The client\<close>

text \<open>
  C32. Invariant of the client. In every state the client's operations can reach, its buffers
  have their declared sizes and the counter of empty messages is between zero and four.
\<close>

theorem reachable_client:
  assumes "reach client_init (client_step env) c"
  shows "length (receivedData c) = maxDataSize \<and> length (sourceAddress c) = 2 \<and>
         length (VINResult c) = 17 \<and> length (LogicalAddressResult c) = 2 \<and>
         length (EIDResult c) = 6 \<and> length (GIDResult c) = 6 \<and>
         0 \<le> emptyMessageCounter c \<and> emptyMessageCounter c < 5"
  using client_machine.inv_reach [OF assms] by (simp add: client_ok_def)

theorem reachable_client_witness:
  "\<exists>c. setSourceAddress (Some [Some 0x0E, Some 0x00]) (newDoIPClient []) = Inr ((), c) \<and>
       length (sourceAddress c) = 2 \<and> emptyMessageCounter c < 5"
proof -
  obtain c where run: "setSourceAddress (Some [Some 0x0E, Some 0x00]) (newDoIPClient []) = Inr ((), c)"
    by (simp add: setSourceAddress_def run_simps newDoIPClient_def copy_loop_eq)
  have "client_init (newDoIPClient [])" by (simp add: client_init_def newDoIPClient_def)
  then have "reach client_init (client_step (script [])) c"
    by (rule reach_step [OF reach_init]) (rule cl_address [OF run])
  from reachable_client [OF this] run show ?thesis by blast
qed

text \<open>
  Empty reads. An empty read raises the client's counter of empty messages, and the one
  that would make it five resets it and reconnects to the server.
\<close>

lemma empty_reads_reconnect:
  assumes ok: "client_ok c" and fd: "sockFd c = Some fd"
    and a: "a = env (trace c) (Recv fd (of_nat maxDataSize))" "ret a = 0" "bytes a = []"
    and c': "c' = c\<lparr>trace := trace c @ [(Recv fd (of_nat maxDataSize), a)],
                   emptyMessageCounter := (emptyMessageCounter c + 1) mod 5\<rparr>"
  shows "receiveMessage fuel env c =
         (if emptyMessageCounter c = 4
          then bnd (reconnectServer fuel env) (\<lambda>b. return (b, None)) c'
          else Inr ((True, None), c'))"
proof -
  have range: "0 \<le> emptyMessageCounter c" "emptyMessageCounter c < 5"
    using ok by (simp_all add: client_ok_def)
  have same: "c\<lparr>trace := t, receivedData := receivedData c\<rparr> = c\<lparr>trace := t\<rparr>" for t by simp
  have add: "add_int (emptyMessageCounter c) 1 = Inr (emptyMessageCounter c + 1)"
    using range by (simp add: add_int_def int_min_def int_max_def)
  have mod5: "emptyMessageCounter c \<noteq> 4 \<Longrightarrow> (emptyMessageCounter c + 1) mod 5 = emptyMessageCounter c + 1"
    using range by (intro mod_pos_pos_trivial) auto
  show ?thesis
    using fd a add mod5
    by (simp add: receiveMessage_def store_received_def run_simps put_bytes_def same c'
        bnd_def thn_def)
qed

lemma empty_reads_reconnect_witness:
  "receiveMessage 1 (script []) tester =
   Inr ((True, None), tester\<lparr>trace := [(Recv 3 64, silent)], emptyMessageCounter := 1\<rparr>)"
proof -
  have "client_ok tester" using client_ok_new [of "[]"] by (simp add: tester_def)
  moreover have "emptyMessageCounter tester = 0" by (simp add: tester_def newDoIPClient_def)
  ultimately show ?thesis
    using empty_reads_reconnect [of tester 3 silent "script []" _ 1, OF _ _ _ _ _ refl]
    by (simp add: silent_def maxDataSize_def script_def)
qed

text \<open>
  C34. The client connects. When the socket can be created and \<open>connect\<close> succeeds
  from the n-th call on, the connecting loop ends after at most one try more than the calls
  that are left; every larger bound gives the same result; \<open>getConnected\<close> then
  reports the result of \<open>connect\<close> and \<open>getSockFd\<close> the socket.
\<close>

theorem client_connects:
  assumes "\<And>tr a. n \<le> length tr \<Longrightarrow> ret (env tr (Connect (ret (env (trace c) (Socket True))) a)) \<noteq> -1"
    and "0 \<le> ret (env (trace c) (Socket True))"
    and "\<And>tr addr. ret (env tr (InetAton addr)) = 0 \<or> length (bytes (env tr (InetAton addr))) = 4"
  shows "\<exists>m c' r. m \<le> Suc (n - length (trace c)) \<and> r \<noteq> -1 \<and>
           {k. m \<le> k} \<subseteq> {k. startTcpConnection k env c = Inr (True, c')} \<and>
           getConnected c' = Inr (r, c') \<and>
           getSockFd c' = Inr (ret (env (trace c) (Socket True)), c')"
proof -
  let ?s = "env (trace c) (Socket True)"
  let ?c0 = "c\<lparr>trace := trace c @ [(Socket True, ?s)], sockFd := Some (ret ?s),
    serverAddr := (serverAddr c)\<lparr>sin_family := Some AF_INET, sin_port := Some serverPortNr\<rparr>\<rparr>"
  have aton: "\<exists>r tr. inet_aton env addr w = Inr (r, w\<lparr>trace := trace w @ tr\<rparr>)"
    for addr and w :: DoIPClient
    using assms(3) [of "trace w" addr]
    by (auto simp: inet_aton_def run_simps length_Suc_conv eval_nat_numeral)
  obtain tr a where resolved: "set_server_text env ''127.0.0.1'' ?c0 =
      Inr ((), ?c0\<lparr>trace := trace ?c0 @ tr, serverAddr := a\<rparr>)"
  proof -
    obtain r tr where r: "inet_aton env ''127.0.0.1'' ?c0 = Inr (r, ?c0\<lparr>trace := trace ?c0 @ tr\<rparr>)"
      using aton by blast
    show ?thesis
    proof (cases r)
      case None
      with r that [where tr = tr and a = "serverAddr ?c0"] show ?thesis by (simp add: set_server_text_def bnd_def run_simps)
    next
      case (Some x)
      with r that [where tr = tr and a = "(serverAddr ?c0)\<lparr>sin_addr := Some x\<rparr>"] show ?thesis
        by (simp add: set_server_text_def bnd_def run_simps)
    qed
  qed
  let ?c1 = "?c0\<lparr>trace := trace ?c0 @ tr, serverAddr := a\<rparr>"
  have start: "startTcpConnection k env c = connect_loop k env (ret ?s) ?c1" for k
    using assms(2) resolved by (simp add: startTcpConnection_def run_simps thn_def bnd_def)
  from connect_loop_connects [where fd = "ret ?s" and c = ?c1 and env = env, OF assms(1)]
  obtain m tr' r where m: "m \<le> Suc (n - length (trace ?c1))" and "r \<noteq> -1"
    and run: "\<And>k. m \<le> k \<Longrightarrow> connect_loop k env (ret ?s) ?c1 =
      Inr (True, ?c1\<lparr>trace := trace ?c1 @ tr', connected := Some r\<rparr>)"
    by blast
  let ?c2 = "?c1\<lparr>trace := trace ?c1 @ tr', connected := Some r\<rparr>"
  have "m \<le> Suc (n - length (trace c))" using m by simp
  with \<open>r \<noteq> -1\<close> run start show ?thesis
    by (intro exI [of _ m] exI [of _ ?c2] exI [of _ r])
       (auto simp: getConnected_def getSockFd_def run_simps)
qed


lemma print_received_initialised:
  "i + n \<le> length bs \<Longrightarrow> print_received (map Some bs @ rest) i n = Inr (take n (drop i bs))"
proof (induction n arbitrary: i)
  case 0
  then show ?case by simp
next
  case (Suc n)
  then have "drop i bs = bs ! i # drop (Suc i) bs" by (simp add: Cons_nth_drop_Suc)
  with Suc show ?case by (simp add: rd_initialised_prefix)
qed

text \<open>Whether the header at the start of the bytes is that of a diagnostic acknowledgement.\<close>

definition starts_ack :: "byte list \<Rightarrow> bool" where
  "starts_ack m =
     (case header_spec m of
        Accepted t n \<Rightarrow> t = DIAGNOSTICPOSITIVEACK \<or> t = DIAGNOSTICNEGATIVEACK
      | Rejected code n \<Rightarrow> False)"

text \<open>What a read stores and prints, and how the rest of \<open>receiveMessage\<close> goes on from it.\<close>

lemma receiveMessage_run:
  assumes "client_ok c" and "sockFd c = Some fd"
    and "a = env (trace c) (Recv fd (of_nat maxDataSize))" and "length (bytes a) \<le> maxDataSize"
    and "ret a < 0 \<or> 0 < ret a \<and> ret a = int (length (bytes a))"
    and "bs = (if 0 \<le> ret a then bytes a else [])" and "d = map Some bs @ drop (length bs) (receivedData c)"
  shows "receiveMessage fuel env c =
      bnd (lift (parseGenericHeader d (ret a))) (\<lambda>action.
      bnd (lift (determinate (action_type action))) (\<lambda>t.
      if t = DIAGNOSTICPOSITIVEACK \<or> t = DIAGNOSTICNEGATIVEACK
      then bnd (lift (rd d 12)) (\<lambda>code. return (True, Some code))
      else return (True, None)))
      (c\<lparr>trace := trace c @ [(Recv fd (of_nat maxDataSize), a)], receivedData := d\<rparr>)"
proof -
  let ?c = "c\<lparr>trace := trace c @ [(Recv fd (of_nat maxDataSize), a)], receivedData := d\<rparr>"
  have put: "put_bytes (receivedData c) 0 bs = Inr d"
    using assms(1,4) by (simp add: put_bytes_def client_ok_def assms(6,7))
  have "nat (ret a) \<le> length bs" using assms(5) by (auto simp: assms(6))
  then have shown: "print_received d 0 (nat (ret a)) = Inr (take (nat (ret a)) bs)"
    using print_received_initialised [of 0 "nat (ret a)" bs] by (simp add: assms(7))
  let ?old = "c\<lparr>trace := trace c @ [(Recv fd (of_nat maxDataSize), a)]\<rparr>"
  have "\<not> (0 \<le> ret a \<and> ret a \<noteq> int (length (bytes a)))" using assms(5) by auto
  then have store: "store_received a ?old = Inr ((), ?c)"
    using put unfolding store_received_def assms(6) [symmetric] by (simp add: run_simps del: if_split)
  have "thn (store_received a) k ?old = k ?c" for k :: "(bool \<times> byte option) client_prog"
    using store by (rule thn_run)
  moreover have "ret a \<noteq> 0" "receivedData ?c = d" using assms(5) by auto
  ultimately show ?thesis
    using assms(2) shown
    by (simp add: receiveMessage_def run_simps assms(3) [symmetric] del: if_split cong: if_cong)
qed

text \<open>
  C33. The client reads a message, for every read that \<open>recv\<close> can make. An empty
  read raises the counter of empty messages; the one that would make it five resets it and
  reconnects. A failed read, and one of fewer than eight bytes, branches on a type that was
  never written. A read of eight bytes or more is stored at the start of the buffer; if its
  header is that of a diagnostic acknowledgement, positive or negative, the client reports cell
  12 of the buffer, and otherwise nothing. With thirteen bytes or more that cell is the
  message's code. With eight to twelve it is what an earlier message left there, reported as
  the code of this one, or a cell that was never written.
\<close>

theorem client_reads_message:
  assumes "client_ok c" and "sockFd c = Some fd"
    and "a = env (trace c) (Recv fd (of_nat maxDataSize))" and "length (bytes a) \<le> maxDataSize"
    and "ret a < 0 \<or> ret a = int (length (bytes a))"
    and "c1 = c\<lparr>trace := trace c @ [(Recv fd (of_nat maxDataSize), a)]\<rparr>"
  shows "receiveMessage fuel env c =
    (if ret a = 0 then
       if emptyMessageCounter c = 4
       then bnd (reconnectServer fuel env) (\<lambda>b. return (b, None)) (c1\<lparr>emptyMessageCounter := 0\<rparr>)
       else Inr ((True, None), c1\<lparr>emptyMessageCounter := emptyMessageCounter c + 1\<rparr>)
     else if ret a < 8 then Inl Indeterminate
     else let c2 = c1\<lparr>receivedData := map Some (bytes a) @ drop (length (bytes a)) (receivedData c)\<rparr> in
       if starts_ack (bytes a)
       then case if ret a \<le> 12 then receivedData c ! 12 else Some (bytes a ! 12) of
              None \<Rightarrow> Inl Indeterminate
            | Some code \<Rightarrow> Inr ((True, Some code), c2)
       else Inr ((True, None), c2))"
proof (cases "ret a = 0")
  case True
  with assms(5) have "bytes a = []" by simp
  from empty_reads_reconnect [where env = env, OF assms(1-3) True this refl] True assms(1,6)
  show ?thesis
    by (cases "emptyMessageCounter c = 4") (simp_all add: client_ok_def mod_pos_pos_trivial)
next
  case nonzero: False
  with assms(5) have "ret a < 0 \<or> 0 < ret a \<and> ret a = int (length (bytes a))" by auto
  note run = receiveMessage_run [where env = env and fuel = fuel, OF assms(1-4) this refl refl]
  show ?thesis
  proof (cases "ret a < 8")
    case True
    with nonzero show ?thesis by (simp add: run parse_short run_simps uninit_action_def)
  next
    case False
    with assms(5) have len: "8 \<le> length (bytes a)" "ret a = int (length (bytes a))" "bytes a \<noteq> []"
      by auto
    let ?d = "map Some (bytes a) @ drop (length (bytes a)) (receivedData c)"
    from parse_header_eq [of "bytes a" "ret a" "drop (length (bytes a)) (receivedData c)"] False len
    obtain act where parse: "parseGenericHeader ?d (ret a) = Inr act"
      and v: "verdict_of act = Some (header_spec (bytes a))" by auto
    have "length (receivedData c) = maxDataSize" using assms(1) by (simp add: client_ok_def)
    then have code: "rd ?d 12 = determinate (if ret a \<le> 12 then receivedData c ! 12 else Some (bytes a ! 12))"
      using len assms(4) by (auto simp: rd_def cell_def nth_append maxDataSize_def)
    from v show ?thesis
    proof (cases rule: verdict_ofE)
      case (rejected x n)
      with False len parse show ?thesis by (simp add: run run_simps starts_ack_def assms(6))
    next
      case (accepted t n)
      show ?thesis
      proof (cases "t = DIAGNOSTICPOSITIVEACK \<or> t = DIAGNOSTICNEGATIVEACK")
        case True
        with accepted False len parse code show ?thesis
          by (simp add: run run_simps starts_ack_def assms(6) determinate_def split: option.splits
              del: if_split cong: if_cong)
      next
        case no: False
        with accepted False len parse show ?thesis
          by (simp add: run run_simps starts_ack_def assms(6))
      qed
    qed
  qed
qed

theorem client_reads_message_witness:
  "(\<exists>c'. receiveMessage 0 (script [delivers (ack_message False LOGICAL_ADDRESS 0x0E 0x00 0x03)]) tester =
         Inr ((True, Some 0x03), c')) \<and>
   receiveMessage 0 (script [delivers (header_bytes (0x80, 0x02) 5)]) tester = Inl Indeterminate \<and>
   (\<exists>c'. receiveMessage 0 (script []) tester = Inr ((True, None), c') \<and> emptyMessageCounter c' = 1)"
proof -
  let ?m = "ack_message False LOGICAL_ADDRESS 0x0E 0x00 0x03" and ?h = "header_bytes (0x80, 0x02) 5"
  have "starts_ack ?m" "length ?m = 13" "?m ! 12 = 0x03" "starts_ack ?h" "length ?h = 8" by code_simp+
  moreover have "client_ok tester" using client_ok_new [of "[]"] by (simp add: tester_def)
  moreover have "receivedData tester ! 12 = None" "emptyMessageCounter tester = 0"
    by (simp_all add: tester_def newDoIPClient_def maxDataSize_def)
  ultimately show ?thesis
    using client_reads_message [of tester 3 "delivers ?m" "script [delivers ?m]" _ 0, OF _ _ _ _ _ refl]
      client_reads_message [of tester 3 "delivers ?h" "script [delivers ?h]" _ 0, OF _ _ _ _ _ refl]
      client_reads_message [of tester 3 silent "script []" _ 0, OF _ _ _ _ _ refl]
    by (simp add: script_def delivers_def silent_def maxDataSize_def Let_def)
qed

theorem client_connects_witness:
  "\<exists>m c' r. r \<noteq> -1 \<and> startTcpConnection m discovery_world (newDoIPClient []) = Inr (True, c') \<and>
            getConnected c' = Inr (r, c')"
proof -
  have "ret (discovery_world tr (Connect fd a)) = 1" "ret (discovery_world tr (Socket True)) = 1"
    "length (bytes (discovery_world tr (InetAton x))) = 4" for tr fd a x
    by (simp_all add: discovery_world_def answers_def)
  then show ?thesis
    using client_connects [of 0 discovery_world "newDoIPClient []"] by fastforce
qed

end
